(* ===== verification/Prelude.thy ===== *)
theory Prelude
  imports Main "HOL-Library.Multiset" "HOL-Library.List_Lexorder" "HOL-Library.Char_ord"
begin

text \<open>
  Shared ground of the development: the collections its proofs use, Go's fixed-width
  integers written over \<open>int\<close>, the functions of Go's \<open>strings\<close> and \<open>fmt\<close> packages the
  services call, and the lemmas on lists that several components need.

  A Go string is its list of bytes, so \<open>length\<close> is Go's \<open>len\<close>. A \<open>time.Time\<close> is
  its number of nanoseconds since the zero time, so that \<open>IsZero\<close> is \<open>t = 0\<close>, and a
  \<open>time.Duration\<close> a number of nanoseconds.
\<close>

named_theorems op_inv \<open>inversion of a successful step of an operation\<close>
named_theorems tbl \<open>facts about rows of a table\<close>

type_synonym gostring = string
type_synonym gotime = int

subsection \<open>Fixed-width integers\<close>

definition MaxInt32 :: int where "MaxInt32 = 2147483647"
definition MaxInt64 :: int where "MaxInt64 = 9223372036854775807"

definition wrap32 :: "int \<Rightarrow> int" where
  "wrap32 x = (x + 2147483648) mod 4294967296 - 2147483648"

definition wrap64 :: "int \<Rightarrow> int" where
  "wrap64 x = (x + 9223372036854775808) mod 18446744073709551616 - 9223372036854775808"

definition int4 :: "int \<Rightarrow> bool" where
  "int4 x \<longleftrightarrow> - 2147483648 \<le> x \<and> x \<le> MaxInt32"

definition int8 :: "int \<Rightarrow> bool" where
  "int8 x \<longleftrightarrow> - 9223372036854775808 \<le> x \<and> x \<le> MaxInt64"

lemma wrap32_id [simp]: "int4 x \<Longrightarrow> wrap32 x = x"
  by (simp add: wrap32_def int4_def MaxInt32_def)

lemma wrap64_id [simp]: "int8 x \<Longrightarrow> wrap64 x = x"
  by (simp add: wrap64_def int8_def MaxInt64_def)

lemma int4_wrap32: "int4 (wrap32 x)"
proof -
  have "0 \<le> (x + 2147483648) mod 4294967296" "(x + 2147483648) mod 4294967296 < 4294967296"
    by simp_all
  then show ?thesis by (simp add: wrap32_def int4_def MaxInt32_def)
qed

text \<open>Go's division truncates towards zero.\<close>

definition quot :: "int \<Rightarrow> int \<Rightarrow> int" where
  "quot a b = sgn a * sgn b * (\<bar>a\<bar> div \<bar>b\<bar>)"

lemma quot_pos: "0 \<le> a \<Longrightarrow> 0 < b \<Longrightarrow> quot a b = a div b"
  by (cases "a = 0") (simp_all add: quot_def)

lemma le_quot_iff: "0 \<le> a \<Longrightarrow> 0 < b \<Longrightarrow> x \<le> quot a b \<longleftrightarrow> x * b \<le> a"
proof -
  assume a: "0 \<le> a" and b: "0 < b"
  have "x \<le> a div b" if "x * b \<le> a"
  proof -
    have "(x * b) div b \<le> a div b" using that b by (rule zdiv_mono1)
    with b show ?thesis by simp
  qed
  moreover have "x * b \<le> a" if "x \<le> a div b"
  proof -
    have "x * b \<le> (a div b) * b" using that b by (intro mult_right_mono) auto
    also have "\<dots> \<le> a" using b minus_mod_eq_div_mult [of a b] pos_mod_sign [OF b, of a] by linarith
    finally show ?thesis .
  qed
  ultimately have "x \<le> a div b \<longleftrightarrow> x * b \<le> a" by blast
  with a b show ?thesis by (simp add: quot_pos)
qed

text \<open>\<open>narrow\<close>, as every adapter writes it: a count clamped into an \<open>int32\<close>.\<close>

definition clamp32 :: "int \<Rightarrow> int" where
  "clamp32 n = (if n < 0 then 0 else if n > MaxInt32 then MaxInt32 else n)"

lemma clamp32_id [simp]: "0 \<le> n \<Longrightarrow> n \<le> MaxInt32 \<Longrightarrow> clamp32 n = n"
  by (simp add: clamp32_def)

subsection \<open>UTF-8\<close>

text \<open>\<open>utf8.ValidString\<close>: the byte sequences of Unicode scalar values in their shortest form.\<close>

definition cont_byte :: "nat \<Rightarrow> bool" where
  "cont_byte b \<longleftrightarrow> 0x80 \<le> b \<and> b \<le> 0xBF"

fun utf8_bytes :: "nat list \<Rightarrow> bool" where
  "utf8_bytes [] = True"
| "utf8_bytes (a # s) =
     (if a < 0x80 then utf8_bytes s
      else if 0xC2 \<le> a \<and> a \<le> 0xDF then (case s of b # s' \<Rightarrow> cont_byte b \<and> utf8_bytes s' | _ \<Rightarrow> False)
      else if 0xE0 \<le> a \<and> a \<le> 0xEF
      then (case s of
              b # c # s' \<Rightarrow> cont_byte b \<and> (a = 0xE0 \<longrightarrow> 0xA0 \<le> b) \<and> (a = 0xED \<longrightarrow> b \<le> 0x9F) \<and> cont_byte c \<and> utf8_bytes s'
            | _ \<Rightarrow> False)
      else if 0xF0 \<le> a \<and> a \<le> 0xF4
      then (case s of
              b # c # d # s' \<Rightarrow> cont_byte b \<and> (a = 0xF0 \<longrightarrow> 0x90 \<le> b) \<and> (a = 0xF4 \<longrightarrow> b \<le> 0x8F) \<and> cont_byte c \<and>
                cont_byte d \<and> utf8_bytes s'
            | _ \<Rightarrow> False)
      else False)"

definition valid_utf8 :: "gostring \<Rightarrow> bool" where
  "valid_utf8 s \<longleftrightarrow> utf8_bytes (map of_char s)"

lemma ascii_valid_utf8: "\<forall>c \<in> set s. (of_char c :: nat) < 0x80 \<Longrightarrow> valid_utf8 s"
  unfolding valid_utf8_def by (induction s) auto

subsection \<open>Go's strings and fmt packages\<close>

text \<open>
  \<open>strings.TrimSpace\<close> cuts the characters with Unicode's White_Space property from both
  ends; here they are in UTF-8. \<open>ToUpper\<close> and \<open>ToLower\<close> are exact on ASCII and on
  the four characters outside ASCII whose image is an ASCII letter (the dotless and the dotted
  i, the long s, the Kelvin sign); any other byte outside ASCII is left as it is. Every
  validator below accepts ASCII only, except the e-mail address, so which other letter such a
  byte sequence would become decides nothing.
\<close>

definition space_seqs :: "string list" where
  "space_seqs =
    [[CHR 0x09], [CHR 0x0A], [CHR 0x0B], [CHR 0x0C], [CHR 0x0D], [CHR 0x20],
     [CHR 0xC2, CHR 0x85], [CHR 0xC2, CHR 0xA0], [CHR 0xE1, CHR 0x9A, CHR 0x80],
     [CHR 0xE2, CHR 0x80, CHR 0x80], [CHR 0xE2, CHR 0x80, CHR 0x81],
     [CHR 0xE2, CHR 0x80, CHR 0x82], [CHR 0xE2, CHR 0x80, CHR 0x83],
     [CHR 0xE2, CHR 0x80, CHR 0x84], [CHR 0xE2, CHR 0x80, CHR 0x85],
     [CHR 0xE2, CHR 0x80, CHR 0x86], [CHR 0xE2, CHR 0x80, CHR 0x87],
     [CHR 0xE2, CHR 0x80, CHR 0x88], [CHR 0xE2, CHR 0x80, CHR 0x89],
     [CHR 0xE2, CHR 0x80, CHR 0x8A], [CHR 0xE2, CHR 0x80, CHR 0xA8],
     [CHR 0xE2, CHR 0x80, CHR 0xA9], [CHR 0xE2, CHR 0x80, CHR 0xAF],
     [CHR 0xE2, CHR 0x81, CHR 0x9F], [CHR 0xE3, CHR 0x80, CHR 0x80]]"

fun strip_prefix :: "string list \<Rightarrow> string \<Rightarrow> string option" where
  "strip_prefix [] s = None"
| "strip_prefix (p # ps) s =
     (if p \<noteq> [] \<and> take (length p) s = p then Some (drop (length p) s) else strip_prefix ps s)"

lemma strip_prefix_shorter: "strip_prefix ps s = Some t \<Longrightarrow> length t < length s"
proof (induction ps s rule: strip_prefix.induct)
  case (2 p ps s)
  show ?case
  proof (cases "p \<noteq> [] \<and> take (length p) s = p")
    case True
    then have "0 < length p" "length p \<le> length s" by (auto simp: take_all_iff) (metis length_take min.cobounded1)
    with True 2(2) show ?thesis by (auto intro!: diff_less)
  next
    case False
    with 2 show ?thesis by simp
  qed
qed simp

function strip_all :: "string list \<Rightarrow> string \<Rightarrow> string" where
  "strip_all ps s = (case strip_prefix ps s of None \<Rightarrow> s | Some t \<Rightarrow> strip_all ps t)"
  by pat_completeness auto
termination
  by (relation "measure (\<lambda>(ps, s). length s)") (auto dest: strip_prefix_shorter)

declare strip_all.simps [simp del]

definition TrimSpace :: "gostring \<Rightarrow> gostring" where
  "TrimSpace s = rev (strip_all (map rev space_seqs) (rev (strip_all space_seqs s)))"

definition upper_byte :: "char \<Rightarrow> char" where
  "upper_byte c = (if CHR ''a'' \<le> c \<and> c \<le> CHR ''z'' then char_of (of_char c - 32 :: nat) else c)"

definition lower_byte :: "char \<Rightarrow> char" where
  "lower_byte c = (if CHR ''A'' \<le> c \<and> c \<le> CHR ''Z'' then char_of (of_char c + 32 :: nat) else c)"

fun ToUpper :: "gostring \<Rightarrow> gostring" where
  "ToUpper [] = []"
| "ToUpper [c] = [upper_byte c]"
| "ToUpper (c # d # cs) =
     (if c = CHR 0xC4 \<and> d = CHR 0xB1 then CHR ''I'' # ToUpper cs
      else if c = CHR 0xC5 \<and> d = CHR 0xBF then CHR ''S'' # ToUpper cs
      else upper_byte c # ToUpper (d # cs))"

fun ToLower :: "gostring \<Rightarrow> gostring" where
  "ToLower [] = []"
| "ToLower [c] = [lower_byte c]"
| "ToLower [c, d] =
     (if c = CHR 0xC4 \<and> d = CHR 0xB0 then [CHR ''i'']
      else lower_byte c # ToLower [d])"
| "ToLower (c # d # e # cs) =
     (if c = CHR 0xC4 \<and> d = CHR 0xB0 then CHR ''i'' # ToLower (e # cs)
      else if c = CHR 0xE2 \<and> d = CHR 0x84 \<and> e = CHR 0xAA then CHR ''k'' # ToLower cs
      else lower_byte c # ToLower (d # e # cs))"

text \<open>The characters a validated identifier, code or SKU is made of.\<close>

definition upper_alnum :: "char \<Rightarrow> bool" where
  "upper_alnum c \<longleftrightarrow> (CHR ''A'' \<le> c \<and> c \<le> CHR ''Z'') \<or> (CHR ''0'' \<le> c \<and> c \<le> CHR ''9'')"

definition lower_letter :: "char \<Rightarrow> bool" where
  "lower_letter c \<longleftrightarrow> CHR ''a'' \<le> c \<and> c \<le> CHR ''z''"

definition digit :: "char \<Rightarrow> bool" where
  "digit c \<longleftrightarrow> CHR ''0'' \<le> c \<and> c \<le> CHR ''9''"

definition graphic :: "char \<Rightarrow> bool" where
  "graphic c \<longleftrightarrow> CHR 0x21 \<le> c \<and> c \<le> CHR 0x7E"

lemma graphic_classes:
  "upper_alnum c \<Longrightarrow> graphic c" "lower_letter c \<Longrightarrow> graphic c" "digit c \<Longrightarrow> graphic c"
  by (auto simp: upper_alnum_def lower_letter_def digit_def graphic_def less_eq_char_def)

lemma head_and_rest:
  assumes "t \<noteq> []"
  shows "list_all (\<lambda>i. P (t ! i) \<or> (Q (t ! i) \<and> i > 0)) [0..<length t] \<longleftrightarrow>
    P (hd t) \<and> (\<forall>c \<in> set t. P c \<or> Q c)"
proof -
  obtain c cs where t: "t = c # cs" using assms by (cases t) auto
  have all: "list_all f [0..<n] \<longleftrightarrow> (\<forall>i < n. f i)" for f n by (auto simp: list_all_iff)
  show ?thesis unfolding t all by (simp add: All_less_Suc2 all_set_conv_all_nth) blast
qed

lemma strip_prefix_graphic:
  "\<forall>p \<in> set ps. p \<noteq> [] \<longrightarrow> \<not> graphic (hd p) \<Longrightarrow> graphic (hd s) \<Longrightarrow> strip_prefix ps s = None"
proof (induction ps s rule: strip_prefix.induct)
  case (2 p ps s)
  have "p = [] \<or> take (length p) s \<noteq> p"
  proof (cases p)
    case (Cons c cs)
    with 2(2,3) have "s \<noteq> [] \<Longrightarrow> hd s \<noteq> c" by auto
    with Cons show ?thesis by (cases s) auto
  qed simp
  with 2 show ?case by auto
qed simp

lemma strip_all_graphic:
  "\<forall>p \<in> set ps. p \<noteq> [] \<longrightarrow> \<not> graphic (hd p) \<Longrightarrow> s = [] \<or> graphic (hd s) \<Longrightarrow>
   \<forall>p \<in> set ps. p \<noteq> [] \<Longrightarrow> strip_all ps s = s"
proof -
  assume a: "\<forall>p \<in> set ps. p \<noteq> [] \<longrightarrow> \<not> graphic (hd p)" "s = [] \<or> graphic (hd s)"
    "\<forall>p \<in> set ps. p \<noteq> []"
  have "strip_prefix ps s = None"
  proof (cases "s = []")
    case True
    then show ?thesis by (induction ps) auto
  next
    case False
    with a strip_prefix_graphic show ?thesis by blast
  qed
  then show ?thesis by (simp add: strip_all.simps [of ps s])
qed

lemma space_seqs_not_graphic:
  "\<forall>p \<in> set space_seqs. p \<noteq> [] \<and> \<not> graphic (hd p) \<and> \<not> graphic (last p)"
  by (simp add: space_seqs_def graphic_def less_eq_char_def)

lemma TrimSpace_graphic:
  assumes "\<forall>c \<in> set s. graphic c"
  shows "TrimSpace s = s"
proof -
  have hd: "s = [] \<or> graphic (hd s)"
    using assms by (cases s) auto
  have tl: "rev s = [] \<or> graphic (hd (rev s))"
    using assms by (cases s rule: rev_cases) auto
  have "strip_all space_seqs s = s"
    using space_seqs_not_graphic hd by (intro strip_all_graphic) auto
  moreover have "strip_all (map rev space_seqs) (rev s) = rev s"
    using space_seqs_not_graphic tl by (intro strip_all_graphic) (auto simp: hd_rev)
  ultimately show ?thesis by (simp add: TrimSpace_def)
qed

lemma ToUpper_graphic:
  "\<forall>c \<in> set s. graphic c \<Longrightarrow> ToUpper s = map upper_byte s"
  by (induction s rule: ToUpper.induct) (auto simp: graphic_def less_eq_char_def)

lemma ToLower_graphic:
  "\<forall>c \<in> set s. graphic c \<Longrightarrow> ToLower s = map lower_byte s"
  by (induction s rule: ToLower.induct) (auto simp: graphic_def less_eq_char_def)

lemma upper_byte_upper [simp]: "upper_alnum c \<Longrightarrow> upper_byte c = c"
  by (auto simp: upper_byte_def upper_alnum_def less_eq_char_def)

lemma upper_byte_dash [simp]: "upper_byte (CHR ''-'') = CHR ''-''"
  by (simp add: upper_byte_def less_eq_char_def)

text \<open>\<open>fmt\<close>'s \<open>%d\<close>: the decimal digits of an integer, most significant first.\<close>

fun show_nat :: "nat \<Rightarrow> string" where
  "show_nat n =
     (if n < 10 then [char_of (48 + n)] else show_nat (n div 10) @ [char_of (48 + n mod 10)])"

declare show_nat.simps [simp del]

definition show_int :: "int \<Rightarrow> string" where
  "show_int i = (if i < 0 then CHR ''-'' # show_nat (nat (- i)) else show_nat (nat i))"

text \<open>\<open>time.Duration.String\<close>: the sign of microseconds is two bytes and an s.\<close>

definition with_fraction :: "nat \<Rightarrow> nat \<Rightarrow> gostring" where
  "with_fraction u prec =
     (let digits = show_nat (u mod 10 ^ prec);
          f = rev (dropWhile (\<lambda>c. c = CHR ''0'') (rev (replicate (prec - length digits) (CHR ''0'') @ digits)))
      in show_nat (u div 10 ^ prec) @ (if f = [] then [] else CHR ''.'' # f))"

definition duration_magnitude :: "nat \<Rightarrow> gostring" where
  "duration_magnitude u =
     (if u = 0 then ''0s''
      else if u < 1000 then show_nat u @ ''ns''
      else if u < 1000000 then with_fraction u 3 @ [CHR 0xC2, CHR 0xB5, CHR ''s'']
      else if u < 1000000000 then with_fraction u 6 @ ''ms''
      else let m = u div 60000000000; h = m div 60 in
        (if h > 0 then show_nat h @ ''h'' else []) @ (if m > 0 then show_nat (m mod 60) @ ''m'' else []) @
        with_fraction (u mod 60000000000) 9 @ ''s'')"

definition show_duration :: "int \<Rightarrow> gostring" where
  "show_duration d = (if d < 0 then CHR ''-'' # duration_magnitude (nat (- d)) else duration_magnitude (nat d))"

fun read_nat :: "string \<Rightarrow> nat" where
  "read_nat s = fold (\<lambda>c n. 10 * n + (of_char c - 48)) s 0"

lemma read_show_nat: "read_nat (show_nat n) = n"
proof (induction n rule: show_nat.induct)
  case (1 n)
  show ?case
  proof (cases "n < 10")
    case True
    then show ?thesis by (simp add: show_nat.simps [of n])
  next
    case False
    with 1 show ?thesis by (simp add: show_nat.simps [of n])
  qed
qed

lemma show_nat_digits: "c \<in> set (show_nat n) \<Longrightarrow> digit c"
proof (induction n rule: show_nat.induct)
  case (1 n)
  have d: "digit (char_of (48 + k))" if "k < 10" for k :: nat
    using that by (simp add: digit_def less_eq_char_def)
  show ?case
  proof (cases "n < 10")
    case True
    with 1(2) d show ?thesis by (simp add: show_nat.simps [of n])
  next
    case False
    with 1 d [of "n mod 10"] show ?thesis by (auto simp: show_nat.simps [of n])
  qed
qed

lemma show_nat_inj: "show_nat m = show_nat n \<Longrightarrow> m = n"
  by (metis read_show_nat)

lemma show_int_chars: "c \<in> set (show_int i) \<Longrightarrow> digit c \<or> c = CHR ''-''"
  by (auto simp: show_int_def dest: show_nat_digits split: if_splits)

lemma dash_not_digit: "\<not> digit (CHR ''-'')"
  by (simp add: digit_def less_eq_char_def)

lemma show_int_inj: "show_int i = show_int j \<Longrightarrow> i = j"
proof -
  assume eq: "show_int i = show_int j"
  have no: "CHR ''-'' # s \<noteq> show_nat n" for s n
    using show_nat_digits [of "CHR ''-''" n] dash_not_digit by (metis list.set_intros(1))
  from eq no have "i < 0 \<longleftrightarrow> j < 0"
    unfolding show_int_def by (metis (full_types))
  with eq show ?thesis
    by (auto simp: show_int_def split: if_splits dest!: show_nat_inj)
qed

text \<open>\<open>strings.Join\<close>.\<close>

fun join_sep :: "string \<Rightarrow> string list \<Rightarrow> string" where
  "join_sep sep [] = []"
| "join_sep sep [x] = x"
| "join_sep sep (x # y # xs) = x @ sep @ join_sep sep (y # xs)"

subsection \<open>Lists and tables\<close>

text \<open>
  A table is the list of its rows in insertion order. \<open>sum_by\<close> sums a column over the
  rows a predicate selects: stock counts and holds are compared through it.
\<close>

definition sum_by :: "('r \<Rightarrow> bool) \<Rightarrow> ('r \<Rightarrow> int) \<Rightarrow> 'r list \<Rightarrow> int" where
  "sum_by P f t = sum_list (map f (filter P t))"

lemma sum_by_Nil [simp]: "sum_by P f [] = 0"
  by (simp add: sum_by_def)

lemma sum_by_Cons [simp]: "sum_by P f (r # t) = (if P r then f r else 0) + sum_by P f t"
  by (simp add: sum_by_def)

lemma sum_by_append [simp]: "sum_by P f (t @ u) = sum_by P f t + sum_by P f u"
  by (simp add: sum_by_def)

lemma sum_by_nonneg: "(\<And>r. r \<in> set t \<Longrightarrow> P r \<Longrightarrow> 0 \<le> f r) \<Longrightarrow> 0 \<le> sum_by P f t"
  by (induction t) (auto simp: add_nonneg_nonneg)

lemma sum_by_mset: "mset t = mset u \<Longrightarrow> sum_by P f t = sum_by P f u"
  unfolding sum_by_def by (metis mset_filter mset_map sum_mset_sum_list)

lemma sum_by_cong: "(\<And>r. r \<in> set t \<Longrightarrow> P r = Q r) \<Longrightarrow> sum_by P f t = sum_by Q f t"
  by (induction t) auto

lemma sum_by_none: "(\<And>r. r \<in> set t \<Longrightarrow> \<not> P r) \<Longrightarrow> sum_by P f t = 0"
  by (induction t) auto

lemma sum_by_split:
  "sum_by P f t = sum_by (\<lambda>r. P r \<and> Q r) f t + sum_by (\<lambda>r. P r \<and> \<not> Q r) f t"
  by (induction t) auto

lemma sum_by_ge: "r \<in> set t \<Longrightarrow> P r \<Longrightarrow> (\<And>r. r \<in> set t \<Longrightarrow> P r \<Longrightarrow> 0 \<le> f r) \<Longrightarrow> f r \<le> sum_by P f t"
proof (induction t)
  case (Cons a t)
  have "0 \<le> sum_by P f t" using Cons.prems(3) by (intro sum_by_nonneg) auto
  with Cons show ?case by fastforce
qed simp

text \<open>The single row a unique key selects.\<close>

lemma distinct_map_inj: "distinct (map k t) \<Longrightarrow> r \<in> set t \<Longrightarrow> r' \<in> set t \<Longrightarrow> k r = k r' \<Longrightarrow> r = r'"
  by (simp add: distinct_map inj_on_def)

lemma find_distinct:
  "distinct (map k t) \<Longrightarrow> r \<in> set t \<Longrightarrow> List.find (\<lambda>x. k x = k r) t = Some r"
  by (induction t) auto

lemma find_key_Some: "List.find (\<lambda>x. k x = v) t = Some r \<Longrightarrow> r \<in> set t \<and> k r = v"
  by (auto simp: find_Some_iff)

lemma find_None: "List.find P t = None \<longleftrightarrow> (\<forall>r \<in> set t. \<not> P r)"
  by (auto simp: find_None_iff)

text \<open>Writing the rows a predicate selects.\<close>

definition set_where :: "('r \<Rightarrow> bool) \<Rightarrow> ('r \<Rightarrow> 'r) \<Rightarrow> 'r list \<Rightarrow> 'r list" where
  "set_where P f t = map (\<lambda>r. if P r then f r else r) t"

lemma map_set_where [tbl]: "(\<And>r. k (f r) = k r) \<Longrightarrow> map k (set_where P f t) = map k t"
  by (simp add: set_where_def)

lemma in_set_where: "r' \<in> set (set_where P f t) \<longleftrightarrow> (\<exists>r \<in> set t. r' = (if P r then f r else r))"
  by (auto simp: set_where_def)

lemma set_where_none: "(\<And>r. r \<in> set t \<Longrightarrow> \<not> P r) \<Longrightarrow> set_where P f t = t"
  unfolding set_where_def by (induction t) auto

lemma find_set_where:
  "(\<And>r. k (f r) = k r) \<Longrightarrow>
   List.find (\<lambda>x. k x = v) (set_where P f t) =
     map_option (\<lambda>r. if P r then f r else r) (List.find (\<lambda>x. k x = v) t)"
  unfolding set_where_def by (induction t) auto

lemma sum_by_set_where:
  "(\<And>r. Q (f r) = Q r) \<Longrightarrow>
   sum_by Q g (set_where P f t) = sum_by Q g t + sum_by (\<lambda>r. Q r \<and> P r) (\<lambda>r. g (f r) - g r) t"
  unfolding set_where_def by (induction t) auto

text \<open>A duplicate check by a set of keys already seen, as the code's loops write it.\<close>

lemma set_where_nonkey_distinct: "(\<And>r. k (f r) = k r) \<Longrightarrow> distinct (map k t) \<Longrightarrow> distinct (map k (set_where P f t))"
  by (simp add: map_set_where)

end
