(* ===== verification/Errorx.thy ===== *)
theory Errorx
  imports Prelude "HOL-Library.AList"
begin

text \<open>
  \<open>pkg/errorx\<close>: Go error values as a datatype, the walk over a chain of wrapped errors that
  \<open>errors.AsType\<close> and \<open>errors.Is\<close> do, and the translation of an error to a gRPC status
  and an HTTP status. The grpc library's \<open>status\<close> package is the argument \<open>P\<close> of the
  definitions that call it; \<open>status_lib\<close> states what the library documents of it.
\<close>

subsection \<open>Kinds, codes and error values\<close>

datatype kind =
  KindNotFound | KindInvalidInput | KindConflict | KindUnauthenticated | KindUnauthorized
| KindInternal

fun kind_string :: "kind \<Rightarrow> string" where
  "kind_string KindNotFound = ''not_found''"
| "kind_string KindInvalidInput = ''invalid_input''"
| "kind_string KindConflict = ''conflict''"
| "kind_string KindUnauthenticated = ''unauthenticated''"
| "kind_string KindUnauthorized = ''unauthorized''"
| "kind_string KindInternal = ''internal''"

fun reasons :: "kind \<Rightarrow> string" where
  "reasons KindNotFound = ''NOT_FOUND''"
| "reasons KindInvalidInput = ''INVALID_INPUT''"
| "reasons KindConflict = ''CONFLICT''"
| "reasons KindUnauthenticated = ''UNAUTHENTICATED''"
| "reasons KindUnauthorized = ''UNAUTHORIZED''"
| "reasons KindInternal = ''INTERNAL''"

definition known_kind :: "string \<Rightarrow> kind option" where
  "known_kind s = List.find (\<lambda>k. kind_string k = s)
     [KindNotFound, KindInvalidInput, KindConflict, KindUnauthenticated, KindUnauthorized,
      KindInternal]"

datatype code =
  OK | Canceled | Unknown | InvalidArgument | DeadlineExceeded | NotFound | AlreadyExists
| PermissionDenied | ResourceExhausted | FailedPrecondition | Aborted | OutOfRange
| Unimplemented | Internal | Unavailable | DataLoss | Unauthenticated

type_synonym metadata = "(string \<times> string) list"

record status =
  st_code :: code
  st_message :: string
  st_info :: "(string \<times> metadata) option"

text \<open>
  One constructor per way the program makes an error: a domain package's
  \<open>ValidationError\<close> and \<open>sentinelError\<close>, \<open>*errorx.Error\<close>, \<open>errors.New\<close>,
  \<open>fmt.Errorf\<close> with \<open>%w\<close> (the text before and after the wrapped error),
  \<open>errors.Join\<close>, what pgx reports (no rows, a server error with its SQLSTATE and
  constraint), a status received from a gRPC call, the error \<open>ToGRPC\<close> returns, and a panic.
\<close>

datatype err =
  ValidationErr string string
| SentinelErr string string
| XErr kind string string metadata "err option"
| PlainErr string
| WrapErr string err string
| JoinErr "err list"
| NoRows
| PgErr string string string
| StatusErr status
| GrpcErr status err
| PanicErr string

abbreviation ContextCanceled :: err where
  "ContextCanceled \<equiv> PlainErr ''context canceled''"

abbreviation ContextDeadlineExceeded :: err where
  "ContextDeadlineExceeded \<equiv> PlainErr ''context deadline exceeded''"

subsection \<open>Building an error\<close>

definition New :: "kind \<Rightarrow> string \<Rightarrow> err" where
  "New k m = XErr k m [] [] None"

definition Wrap :: "err option \<Rightarrow> kind \<Rightarrow> string \<Rightarrow> err option" where
  "Wrap e k m = (case e of None \<Rightarrow> None | Some c \<Rightarrow> Some (XErr k m [] [] (Some c)))"

abbreviation wrap :: "err \<Rightarrow> kind \<Rightarrow> string \<Rightarrow> err" where
  "wrap e k m \<equiv> the (Wrap (Some e) k m)"

fun WithReason :: "err \<Rightarrow> string \<Rightarrow> err" where
  "WithReason (XErr k m _ md c) r = XErr k m r md c"
| "WithReason e _ = e"

fun WithMetadata :: "err \<Rightarrow> metadata \<Rightarrow> err" where
  "WithMetadata (XErr k m r md c) new = XErr k m r (AList.updates (map fst new) (map snd new) md) c"
| "WithMetadata e _ = e"

fun error_text :: "err \<Rightarrow> string" where
  "error_text (ValidationErr f m) = f @ '': '' @ m"
| "error_text (SentinelErr m _) = m"
| "error_text (XErr _ m _ _ c) =
     (case c of None \<Rightarrow> m
      | Some e \<Rightarrow> if m = [] then error_text e else m @ '': '' @ error_text e)"
| "error_text (PlainErr m) = m"
| "error_text (WrapErr pre e post) = pre @ error_text e @ post"
| "error_text (JoinErr es) = join_sep [CHR 0x0A] (map error_text es)"
| "error_text NoRows = ''no rows in result set''"
| "error_text (PgErr _ _ m) = m"
| "error_text (StatusErr s) = st_message s"
| "error_text (GrpcErr _ c) = error_text c"
| "error_text (PanicErr m) = m"

subsection \<open>Walking the chain\<close>

fun first_some :: "'a option list \<Rightarrow> 'a option" where
  "first_some [] = None"
| "first_some (None # xs) = first_some xs"
| "first_some (Some x # xs) = Some x"

text \<open>\<open>errors.AsType[Kinder]\<close>: what the first error of the chain with an
  \<open>ErrorKind\<close> method answers.\<close>

fun first_kinder :: "err \<Rightarrow> string option" where
  "first_kinder (ValidationErr _ _) = Some ''invalid_input''"
| "first_kinder (SentinelErr _ k) = Some k"
| "first_kinder (XErr k _ _ _ _) = Some (kind_string k)"
| "first_kinder (WrapErr _ e _) = first_kinder e"
| "first_kinder (JoinErr es) = first_some (map first_kinder es)"
| "first_kinder (GrpcErr _ c) = first_kinder c"
| "first_kinder _ = None"

text \<open>\<open>errors.AsType[*Error]\<close>: the reason and metadata of the first \<open>*Error\<close>.\<close>

fun first_Error :: "err \<Rightarrow> (string \<times> metadata) option" where
  "first_Error (XErr _ _ r md _) = Some (r, md)"
| "first_Error (WrapErr _ e _) = first_Error e"
| "first_Error (JoinErr es) = first_some (map first_Error es)"
| "first_Error (GrpcErr _ c) = first_Error c"
| "first_Error _ = None"

text \<open>\<open>errors.Is\<close>: equality with the target, or the \<open>Is\<close> method of \<open>*Error\<close>,
  which compares kinds, somewhere in the chain.\<close>

fun same_kind :: "err \<Rightarrow> err \<Rightarrow> bool" where
  "same_kind (XErr k _ _ _ _) (XErr k' _ _ _ _) = (k = k')"
| "same_kind _ _ = False"

fun errors_Is :: "err \<Rightarrow> err \<Rightarrow> bool" where
  "errors_Is (WrapErr p e q) t \<longleftrightarrow> WrapErr p e q = t \<or> errors_Is e t"
| "errors_Is (JoinErr es) t \<longleftrightarrow> JoinErr es = t \<or> (\<exists>e \<in> set es. errors_Is e t)"
| "errors_Is (GrpcErr s c) t \<longleftrightarrow> GrpcErr s c = t \<or> errors_Is c t"
| "errors_Is (XErr k m r md (Some c)) t \<longleftrightarrow>
     XErr k m r md (Some c) = t \<or> same_kind (XErr k m r md (Some c)) t \<or> errors_Is c t"
| "errors_Is (XErr k m r md None) t \<longleftrightarrow>
     XErr k m r md None = t \<or> same_kind (XErr k m r md None) t"
| "errors_Is e t \<longleftrightarrow> e = t"

definition declaredKind :: "err \<Rightarrow> kind option" where
  "declaredKind e = (case first_kinder e of None \<Rightarrow> None | Some k \<Rightarrow> known_kind k)"

definition KindOf :: "err \<Rightarrow> kind" where
  "KindOf e = (case declaredKind e of Some k \<Rightarrow> k | None \<Rightarrow> KindInternal)"

lemma known_kind_string [simp]: "known_kind (kind_string k) = Some k"
  by (cases k) (simp_all add: known_kind_def)

lemma known_kind_constants [simp]:
  "known_kind ''not_found'' = Some KindNotFound"
  "known_kind ''invalid_input'' = Some KindInvalidInput"
  "known_kind ''conflict'' = Some KindConflict"
  "known_kind ''unauthenticated'' = Some KindUnauthenticated"
  "known_kind ''unauthorized'' = Some KindUnauthorized"
  "known_kind ''internal'' = Some KindInternal"
  by (simp_all add: known_kind_def)

lemma first_some_single [simp]: "first_some [x] = x"
  by (cases x) simp_all

lemma first_some_None [simp]: "first_some [x, None] = x"
  by (cases x) simp_all

lemma declaredKind_simps [simp]:
  "declaredKind (ValidationErr f m) = Some KindInvalidInput"
  "declaredKind (SentinelErr m s) = known_kind s"
  "declaredKind (XErr k m r md c) = Some k"
  "declaredKind (WrapErr p e q) = declaredKind e"
  "declaredKind (GrpcErr st e) = declaredKind e"
  "declaredKind (JoinErr [e]) = declaredKind e"
  "declaredKind (PlainErr m) = None"
  "declaredKind NoRows = None"
  "declaredKind (PgErr state con m') = None"
  "declaredKind (StatusErr st) = None"
  by (simp_all add: declaredKind_def)

lemma KindOf_simps [simp]:
  "KindOf (ValidationErr f m) = KindInvalidInput"
  "KindOf (XErr k m r md c) = k"
  "KindOf (WrapErr p e q) = KindOf e"
  "KindOf (JoinErr [e]) = KindOf e"
  by (simp_all add: KindOf_def)

lemma errors_Is_join [simp]: "errors_Is (JoinErr [e]) (SentinelErr m k) = errors_Is e (SentinelErr m k)"
  by simp

subsection \<open>Reasons, statuses and HTTP codes\<close>

fun code_name :: "code \<Rightarrow> string" where
  "code_name OK = ''OK''"
| "code_name Canceled = ''Canceled''"
| "code_name Unknown = ''Unknown''"
| "code_name InvalidArgument = ''InvalidArgument''"
| "code_name DeadlineExceeded = ''DeadlineExceeded''"
| "code_name NotFound = ''NotFound''"
| "code_name AlreadyExists = ''AlreadyExists''"
| "code_name PermissionDenied = ''PermissionDenied''"
| "code_name ResourceExhausted = ''ResourceExhausted''"
| "code_name FailedPrecondition = ''FailedPrecondition''"
| "code_name Aborted = ''Aborted''"
| "code_name OutOfRange = ''OutOfRange''"
| "code_name Unimplemented = ''Unimplemented''"
| "code_name Internal = ''Internal''"
| "code_name Unavailable = ''Unavailable''"
| "code_name DataLoss = ''DataLoss''"
| "code_name Unauthenticated = ''Unauthenticated''"

definition is_upper :: "char \<Rightarrow> bool" where
  "is_upper c \<longleftrightarrow> CHR ''A'' \<le> c \<and> c \<le> CHR ''Z''"

definition screamingSnake :: "string \<Rightarrow> string" where
  "screamingSnake name =
     concat (map (\<lambda>(i, c). (if i > 0 \<and> is_upper c then ''_'' else []) @ [upper_byte c])
       (zip [0..<length name] name))"

text \<open>The \<open>status\<close> package: \<open>FromError\<close>, \<open>WithDetails\<close> with one \<open>ErrorInfo\<close> (\<open>None\<close>
  is its error), and what a client reads of a status that a server sent.\<close>

record status_pkg =
  FromError :: "err \<Rightarrow> status option"
  WithDetails :: "status \<Rightarrow> string \<Rightarrow> metadata \<Rightarrow> status option"
  received :: "status \<Rightarrow> status"

definition wireReason :: "status_pkg \<Rightarrow> err \<Rightarrow> string option" where
  "wireReason P e =
     (case FromError P e of
        None \<Rightarrow> None
      | Some st \<Rightarrow>
          (case st_info st of
             Some (r, md) \<Rightarrow> if r \<noteq> [] then Some r else Some (screamingSnake (code_name (st_code st)))
           | None \<Rightarrow> Some (screamingSnake (code_name (st_code st)))))"

definition Reason :: "status_pkg \<Rightarrow> err \<Rightarrow> string" where
  "Reason P e =
     (case first_Error e of
        Some (r, md) \<Rightarrow> if r \<noteq> [] then r
          else (case declaredKind e of
                  Some k \<Rightarrow> reasons k
                | None \<Rightarrow> (case wireReason P e of Some w \<Rightarrow> w | None \<Rightarrow> reasons KindInternal))
      | None \<Rightarrow>
          (case declaredKind e of
             Some k \<Rightarrow> reasons k
           | None \<Rightarrow> (case wireReason P e of Some w \<Rightarrow> w | None \<Rightarrow> reasons KindInternal)))"

definition Metadata :: "status_pkg \<Rightarrow> err \<Rightarrow> metadata" where
  "Metadata P e =
     (if (case first_Error e of Some (r, md) \<Rightarrow> md \<noteq> [] | None \<Rightarrow> False)
      then (case first_Error e of Some (r, md) \<Rightarrow> md | None \<Rightarrow> [])
      else if declaredKind e \<noteq> None then []
      else (case FromError P e of
              None \<Rightarrow> []
            | Some st \<Rightarrow> (case st_info st of Some (r, md) \<Rightarrow> md | None \<Rightarrow> [])))"

fun codeForKind :: "kind \<Rightarrow> code" where
  "codeForKind KindNotFound = NotFound"
| "codeForKind KindInvalidInput = InvalidArgument"
| "codeForKind KindConflict = FailedPrecondition"
| "codeForKind KindUnauthenticated = Unauthenticated"
| "codeForKind KindUnauthorized = PermissionDenied"
| "codeForKind KindInternal = Internal"

definition statusFor :: "status_pkg \<Rightarrow> kind \<Rightarrow> err \<Rightarrow> status" where
  "statusFor P k e =
     (let message = (if k = KindInternal then ''internal error'' else error_text e);
          st = \<lparr>st_code = codeForKind k, st_message = message, st_info = None\<rparr>
      in case WithDetails P st (Reason P e) (Metadata P e) of
           None \<Rightarrow> st
         | Some detailed \<Rightarrow> detailed)"

definition ToGRPC :: "status_pkg \<Rightarrow> err \<Rightarrow> err" where
  "ToGRPC P e =
     (case declaredKind e of
        Some k \<Rightarrow> GrpcErr (statusFor P k e) e
      | None \<Rightarrow>
          (case FromError P e of
             Some st \<Rightarrow> GrpcErr st e
           | None \<Rightarrow>
               if errors_Is e ContextCanceled
               then GrpcErr \<lparr>st_code = Canceled, st_message = ''request cancelled'', st_info = None\<rparr> e
               else if errors_Is e ContextDeadlineExceeded
               then GrpcErr \<lparr>st_code = DeadlineExceeded, st_message = ''request timed out'', st_info = None\<rparr> e
               else GrpcErr (statusFor P KindInternal e) e))"

fun statusForCode :: "code \<Rightarrow> nat option" where
  "statusForCode OK = Some 200"
| "statusForCode NotFound = Some 404"
| "statusForCode InvalidArgument = Some 400"
| "statusForCode OutOfRange = Some 400"
| "statusForCode FailedPrecondition = Some 409"
| "statusForCode AlreadyExists = Some 409"
| "statusForCode Aborted = Some 409"
| "statusForCode PermissionDenied = Some 403"
| "statusForCode Unauthenticated = Some 401"
| "statusForCode ResourceExhausted = Some 429"
| "statusForCode Unimplemented = Some 501"
| "statusForCode Unavailable = Some 503"
| "statusForCode DeadlineExceeded = Some 504"
| "statusForCode Canceled = Some 499"
| "statusForCode _ = None"

definition HTTPStatus :: "status_pkg \<Rightarrow> err \<Rightarrow> nat" where
  "HTTPStatus P e =
     (let code = (case declaredKind e of
                    Some k \<Rightarrow> codeForKind k
                  | None \<Rightarrow> (case FromError P e of Some st \<Rightarrow> st_code st | None \<Rightarrow> Unknown))
      in case statusForCode code of Some h \<Rightarrow> h | None \<Rightarrow> 500)"

text \<open>
  What the grpc library documents. \<open>FromError\<close> answers the status of an error that carries one,
  whether received from a call or returned by a \<open>GRPCStatus\<close> method. \<open>WithDetails\<close> appends the
  detail or fails; protobuf marshals a message whose strings are valid UTF-8, so with such an
  \<open>ErrorInfo\<close> and a code other than OK it does not fail. And a status whose strings are valid
  UTF-8 is received as it was sent.
\<close>

definition valid_info :: "string \<times> metadata \<Rightarrow> bool" where
  "valid_info i \<longleftrightarrow> valid_utf8 (fst i) \<and> (\<forall>(k, v) \<in> set (snd i). valid_utf8 k \<and> valid_utf8 v)"

definition valid_status :: "status \<Rightarrow> bool" where
  "valid_status st \<longleftrightarrow> valid_utf8 (st_message st) \<and> (case st_info st of None \<Rightarrow> True | Some i \<Rightarrow> valid_info i)"

definition status_lib :: "status_pkg \<Rightarrow> bool" where
  "status_lib P \<longleftrightarrow>
     (\<forall>st. FromError P (StatusErr st) = Some st) \<and> (\<forall>st c. FromError P (GrpcErr st c) = Some st) \<and>
     (\<forall>st r md st'. WithDetails P st r md = Some st' \<longrightarrow> st' = st\<lparr>st_info := Some (r, md)\<rparr>) \<and>
     (\<forall>st r md. valid_info (r, md) \<and> st_code st \<noteq> OK \<longrightarrow> WithDetails P st r md \<noteq> None) \<and>
     (\<forall>st. valid_status st \<longrightarrow> received P st = st)"

text \<open>A package that can be evaluated: a detail that protobuf cannot marshal is refused, and a status
  it cannot marshal arrives without its detail.\<close>

fun plain_from_error :: "err \<Rightarrow> status option" where
  "plain_from_error (StatusErr st) = Some st"
| "plain_from_error (GrpcErr st c) = Some st"
| "plain_from_error _ = None"

definition plain_status :: status_pkg where
  "plain_status =
     \<lparr>FromError = plain_from_error,
      WithDetails = (\<lambda>st r md. if st_code st = OK \<or> \<not> valid_info (r, md) then None else Some (st\<lparr>st_info := Some (r, md)\<rparr>)),
      received = (\<lambda>st. if valid_status st then st else st\<lparr>st_info := None\<rparr>)\<rparr>"

lemma status_lib_plain: "status_lib plain_status"
  by (auto simp: status_lib_def plain_status_def)

text \<open>The error a client holds for the error a handler returns; one that carries no status is sent as
  \<open>Unknown\<close>.\<close>

definition over_the_wire :: "status_pkg \<Rightarrow> err \<Rightarrow> err" where
  "over_the_wire P e =
     StatusErr (received P (case FromError P e of
        Some st \<Rightarrow> st | None \<Rightarrow> \<lparr>st_code = Unknown, st_message = error_text e, st_info = None\<rparr>))"

lemma reasons_nonempty [simp]: "reasons k \<noteq> []"
  by (cases k) simp_all

lemma codeForKind_not_OK [simp]: "codeForKind k \<noteq> OK"
  by (cases k) simp_all

lemma Reason_declared_nonempty: "declaredKind e = Some k \<Longrightarrow> Reason P e \<noteq> []"
  by (auto simp: Reason_def split: option.splits)

lemma ToGRPC_declared: "declaredKind e = Some k \<Longrightarrow> ToGRPC P e = GrpcErr (statusFor P k e) e"
  by (simp add: ToGRPC_def)

lemma statusFor_parts:
  assumes "status_lib P"
  shows "st_code (statusFor P k e) = codeForKind k"
    "st_message (statusFor P k e) = (if k = KindInternal then ''internal error'' else error_text e)"
    "st_info (statusFor P k e) \<in> {None, Some (Reason P e, Metadata P e)}"
    "valid_info (Reason P e, Metadata P e) \<Longrightarrow> st_info (statusFor P k e) = Some (Reason P e, Metadata P e)"
proof -
  define st where "st = \<lparr>st_code = codeForKind k,
    st_message = (if k = KindInternal then ''internal error'' else error_text e), st_info = None\<rparr>"
  have f: "statusFor P k e = (case WithDetails P st (Reason P e) (Metadata P e) of None \<Rightarrow> st | Some d \<Rightarrow> d)"
    unfolding statusFor_def Let_def st_def ..
  have d: "d = st\<lparr>st_info := Some (Reason P e, Metadata P e)\<rparr>"
    if "WithDetails P st (Reason P e) (Metadata P e) = Some d" for d
    using assms that unfolding status_lib_def by blast
  have "valid_info (Reason P e, Metadata P e) \<Longrightarrow> WithDetails P st (Reason P e) (Metadata P e) \<noteq> None"
    using assms unfolding status_lib_def by (simp add: st_def)
  with d show "st_code (statusFor P k e) = codeForKind k"
    "st_message (statusFor P k e) = (if k = KindInternal then ''internal error'' else error_text e)"
    "st_info (statusFor P k e) \<in> {None, Some (Reason P e, Metadata P e)}"
    "valid_info (Reason P e, Metadata P e) \<Longrightarrow> st_info (statusFor P k e) = Some (Reason P e, Metadata P e)"
    unfolding f by (cases "WithDetails P st (Reason P e) (Metadata P e)"; auto simp: st_def)+
qed

lemma wire_Reason:
  "status_lib P \<Longrightarrow> st_info st = Some (r, md) \<Longrightarrow> r \<noteq> [] \<Longrightarrow> Reason P (StatusErr st) = r"
  by (simp add: Reason_def wireReason_def status_lib_def)

lemma wire_Metadata:
  "status_lib P \<Longrightarrow> st_info st = Some (r, md) \<Longrightarrow> Metadata P (StatusErr st) = md"
  by (simp add: Metadata_def status_lib_def)

lemma wire_HTTPStatus:
  "status_lib P \<Longrightarrow>
   HTTPStatus P (StatusErr st) = (case statusForCode (st_code st) of Some h \<Rightarrow> h | None \<Rightarrow> 500)"
  by (simp add: HTTPStatus_def status_lib_def)

lemma wire_valid:
  "status_lib P \<Longrightarrow> valid_status st \<Longrightarrow> over_the_wire P (GrpcErr st e) = StatusErr st"
  by (simp add: over_the_wire_def status_lib_def)

subsection \<open>What a caller sees of an error\<close>

text \<open>C33. An error that declares a kind reaches the caller with its meaning intact, provided that the
  text, the reason and the metadata that are sent are valid UTF-8: the status the handler returns,
  once received on the other side of the wire, has the HTTP code, the reason and the metadata the
  error itself would have been answered with.\<close>

theorem hop_keeps_meaning:
  assumes "status_lib P" and "declaredKind e = Some k"
    and "k = KindInternal \<or> valid_utf8 (error_text e)" and "valid_info (Reason P e, Metadata P e)"
  shows "HTTPStatus P (over_the_wire P (ToGRPC P e)) = HTTPStatus P e \<and>
    Reason P (over_the_wire P (ToGRPC P e)) = Reason P e \<and>
    Metadata P (over_the_wire P (ToGRPC P e)) = Metadata P e"
proof -
  note parts = statusFor_parts(1-3) [OF assms(1), of k e] statusFor_parts(4) [OF assms(1,4), of k]
  have "valid_utf8 ''internal error''" by code_simp
  with parts assms(3,4) have "valid_status (statusFor P k e)" by (auto simp: valid_status_def)
  with wire_valid [OF assms(1)] have "over_the_wire P (ToGRPC P e) = StatusErr (statusFor P k e)"
    by (simp add: ToGRPC_declared [OF assms(2)])
  moreover have "HTTPStatus P e = (case statusForCode (codeForKind k) of Some h \<Rightarrow> h | None \<Rightarrow> 500)"
    by (simp add: HTTPStatus_def assms(2))
  ultimately show ?thesis
    using parts Reason_declared_nonempty [OF assms(2)]
    by (simp add: wire_HTTPStatus [OF assms(1)] wire_Reason [OF assms(1)] wire_Metadata [OF assms(1)])
qed

theorem hop_keeps_meaning_witness:
  "let e = WithMetadata (WithReason (New KindConflict ''sku is not for sale'') ''SKU_NOT_SELLABLE'') [(''sku'', ''MUG'')];
       got = over_the_wire plain_status (ToGRPC plain_status e) in
   HTTPStatus plain_status got = 409 \<and> Reason plain_status got = ''SKU_NOT_SELLABLE'' \<and>
   Metadata plain_status got = [(''sku'', ''MUG'')]"
proof -
  let ?e = "WithMetadata (WithReason (New KindConflict ''sku is not for sale'') ''SKU_NOT_SELLABLE'') [(''sku'', ''MUG'')]"
  have "declaredKind ?e = Some KindConflict" "valid_utf8 (error_text ?e)"
      "valid_info (Reason plain_status ?e, Metadata plain_status ?e)" by code_simp+
  moreover have "HTTPStatus plain_status ?e = 409" "Reason plain_status ?e = ''SKU_NOT_SELLABLE''"
      "Metadata plain_status ?e = [(''sku'', ''MUG'')]" by code_simp+
  ultimately show ?thesis using hop_keeps_meaning [OF status_lib_plain, of ?e KindConflict] by (metis (no_types))
qed

text \<open>An internal failure: of kind Internal, or of no kind, no status and no context error.\<close>

definition internal_failure :: "status_pkg \<Rightarrow> err \<Rightarrow> bool" where
  "internal_failure P e \<longleftrightarrow> declaredKind e = Some KindInternal \<or>
     (declaredKind e = None \<and> FromError P e = None \<and> \<not> errors_Is e ContextCanceled \<and>
      \<not> errors_Is e ContextDeadlineExceeded)"

lemma internal_ToGRPC: "internal_failure P e \<Longrightarrow> ToGRPC P e = GrpcErr (statusFor P KindInternal e) e"
  by (auto simp: internal_failure_def ToGRPC_def)

lemma internal_detail:
  assumes "internal_failure P e"
  shows "Reason P e = (case first_Error e of Some (r, md) \<Rightarrow> if r \<noteq> [] then r else ''INTERNAL'' | None \<Rightarrow> ''INTERNAL'')"
    "Metadata P e = (case first_Error e of Some (r, md) \<Rightarrow> md | None \<Rightarrow> [])"
  using assms by (auto simp: internal_failure_def Reason_def Metadata_def wireReason_def split: option.splits)

text \<open>C34. No text of an internal failure leaves the process. Whatever an error of kind Internal, or one
  nobody classified, wraps and says, the status is Internal with the fixed message, and its detail
  holds the reason code and the metadata that were attached to the failure on purpose, with
  \<open>WithReason\<close> and \<open>WithMetadata\<close>, and nothing else: two failures that carry the same attachments
  are answered with the very same status.\<close>

theorem internal_text_scrubbed:
  assumes "status_lib P" and "internal_failure P e" and "internal_failure P e'" and "first_Error e' = first_Error e"
  shows "\<exists>st. ToGRPC P e = GrpcErr st e \<and> ToGRPC P e' = GrpcErr st e' \<and>
    st_message st = ''internal error'' \<and> st_code st = Internal \<and> HTTPStatus P (StatusErr st) = 500 \<and>
    (\<forall>r md. st_info st = Some (r, md) \<longrightarrow>
       r = (case first_Error e of Some (r0, _) \<Rightarrow> if r0 \<noteq> [] then r0 else ''INTERNAL'' | None \<Rightarrow> ''INTERNAL'') \<and>
       md = (case first_Error e of Some (_, md0) \<Rightarrow> md0 | None \<Rightarrow> []))"
proof -
  have "statusFor P KindInternal e' = statusFor P KindInternal e"
    using internal_detail [OF assms(2)] internal_detail [OF assms(3)] assms(4) by (simp add: statusFor_def)
  moreover have "r = Reason P e \<and> md = Metadata P e" if "st_info (statusFor P KindInternal e) = Some (r, md)" for r md
    using statusFor_parts(3) [OF assms(1), of KindInternal e] that by auto
  ultimately show ?thesis
    using internal_ToGRPC [OF assms(2)] internal_ToGRPC [OF assms(3)] statusFor_parts(1,2) [OF assms(1), of KindInternal e]
      internal_detail [OF assms(2)] wire_HTTPStatus [OF assms(1)]
    by (intro exI [of _ "statusFor P KindInternal e"]) simp
qed

theorem internal_text_scrubbed_witness:
  "\<exists>st. ToGRPC plain_status (wrap (PgErr ''42P01'' [] ''relation orders'') KindInternal ''get order'') =
      GrpcErr st (wrap (PgErr ''42P01'' [] ''relation orders'') KindInternal ''get order'') \<and>
    ToGRPC plain_status (wrap (PlainErr ''10.0.0.7: refused'') KindInternal ''dial'') =
      GrpcErr st (wrap (PlainErr ''10.0.0.7: refused'') KindInternal ''dial'') \<and>
    st_message st = ''internal error''"
  using internal_text_scrubbed
    [OF status_lib_plain, of "wrap (PgErr ''42P01'' [] ''relation orders'') KindInternal ''get order''"
      "wrap (PlainErr ''10.0.0.7: refused'') KindInternal ''dial''"]
  by (auto simp: Wrap_def internal_failure_def)

text \<open>C35. A caller who hung up, or whose deadline passed, is told apart from a failure only while no
  kind has been declared. A context error that declares none, bare or wrapped by \<open>%w\<close> alone, is
  answered 499 or 504; wrapped with any kind it is answered with the code of that kind, so with
  Internal, the kind every repository of this program wraps what pgx returns with, the caller is
  answered 500.\<close>

theorem wrapped_cancellation_is_internal:
  assumes "status_lib P" and "declaredKind e = None" and "FromError P e = None"
    and "errors_Is e ContextCanceled \<or> errors_Is e ContextDeadlineExceeded"
  shows "HTTPStatus P (over_the_wire P (ToGRPC P e)) = (if errors_Is e ContextCanceled then 499 else 504) \<and>
    (\<exists>st. ToGRPC P (wrap e k m) = GrpcErr st (wrap e k m) \<and> st_code st = codeForKind k) \<and>
    HTTPStatus P (over_the_wire P (ToGRPC P (wrap e KindInternal m))) = 500"
proof -
  have v: "valid_utf8 ''request cancelled''" "valid_utf8 ''request timed out''" "valid_utf8 ''internal error''"
      "valid_utf8 ''INTERNAL''" by code_simp+
  have i: "valid_info (Reason P (wrap e KindInternal m), Metadata P (wrap e KindInternal m))"
    using v(4) by (simp add: Wrap_def valid_info_def Reason_def Metadata_def)
  have "valid_status (statusFor P KindInternal (wrap e KindInternal m))"
    using statusFor_parts(2) [OF assms(1)] statusFor_parts(4) [OF assms(1) i] v(3) i by (simp add: valid_status_def)
  from wire_valid [OF assms(1) this, of "wrap e KindInternal m"]
  have "HTTPStatus P (over_the_wire P (ToGRPC P (wrap e KindInternal m))) = 500"
    using statusFor_parts(1) [OF assms(1)] by (simp add: ToGRPC_def Wrap_def wire_HTTPStatus [OF assms(1)])
  moreover have "HTTPStatus P (over_the_wire P (ToGRPC P e)) = (if errors_Is e ContextCanceled then 499 else 504)"
    using assms v(1,2) by (auto simp: ToGRPC_def wire_valid valid_status_def wire_HTTPStatus)
  ultimately show ?thesis using statusFor_parts(1) [OF assms(1)] by (simp add: ToGRPC_def Wrap_def)
qed

theorem wrapped_cancellation_is_internal_witness:
  "let e = WrapErr ''query orders: '' ContextDeadlineExceeded [] in
   HTTPStatus plain_status (over_the_wire plain_status (ToGRPC plain_status e)) = 504 \<and>
   HTTPStatus plain_status (over_the_wire plain_status (ToGRPC plain_status (wrap e KindInternal ''get order''))) = 500"
  using wrapped_cancellation_is_internal [OF status_lib_plain, of "WrapErr ''query orders: '' ContextDeadlineExceeded []"
      KindInternal "''get order''"]
  by (simp add: Let_def plain_status_def)

end
