(* ===== verification/Lifecycle.thy ===== *)
theory Lifecycle
  imports Errorx
begin

text \<open>
  The contract every aggregate with a status keeps: a transition answers whether it moved,
  a terminal status never moves again, and a retried command is a success that changes nothing.
  Reservations, orders and payments provide it; callers that deliver a command more than once
  rely on it.
\<close>

definition attempt :: "('op \<Rightarrow> 's \<Rightarrow> err + bool \<times> 's) \<Rightarrow> 'op \<Rightarrow> 's \<Rightarrow> 's" where
  "attempt step op s = (case step op s of Inl _ \<Rightarrow> s | Inr (_, s') \<Rightarrow> s')"

definition history :: "('op \<Rightarrow> 's \<Rightarrow> err + bool \<times> 's) \<Rightarrow> 'op list \<Rightarrow> 's \<Rightarrow> 's" where
  "history step ops s = fold (attempt step) ops s"

text \<open>The contract on the states an aggregate can be in: those its constructor and its own steps
  lead to.\<close>

locale lifecycle_on =
  fixes step :: "'op \<Rightarrow> 's \<Rightarrow> err + bool \<times> 's"
    and terminal :: "'s \<Rightarrow> bool"
    and same :: "'op \<Rightarrow> 'op \<Rightarrow> bool"
    and good :: "'s \<Rightarrow> bool"
  assumes stays: "good s \<Longrightarrow> step op s = Inr (moved, s') \<Longrightarrow> good s'"
    and still: "good s \<Longrightarrow> step op s = Inr (False, s') \<Longrightarrow> s' = s"
    and ended: "good s \<Longrightarrow> terminal s \<Longrightarrow> step op s = Inr (moved, s') \<Longrightarrow> \<not> moved"
    and repeat: "good s \<Longrightarrow> same op op' \<Longrightarrow> step op s = Inr (True, s') \<Longrightarrow> step op' s' = Inr (False, s')"
begin

lemma attempt_good: "good s \<Longrightarrow> good (attempt step op s)"
  by (auto simp: attempt_def split: sum.splits prod.splits dest: stays)

lemma history_good: "good s \<Longrightarrow> good (history step ops s)"
  unfolding history_def by (induction ops arbitrary: s) (auto intro: attempt_good)

lemma attempt_ended: "good s \<Longrightarrow> terminal s \<Longrightarrow> attempt step op s = s"
  by (auto simp: attempt_def split: sum.splits prod.splits) (metis ended still)

lemma ended_for_good: "good s \<Longrightarrow> terminal s \<Longrightarrow> history step ops s = s"
  unfolding history_def by (induction ops) (simp_all add: attempt_ended)

lemma repeat_harmless: "good s \<Longrightarrow> same op op' \<Longrightarrow> step op s = Inr (True, s') \<Longrightarrow> attempt step op' s' = s'"
  by (simp add: attempt_def repeat)

lemma repeat_idem:
  assumes g: "good s" and "same op op"
  shows "attempt step op (attempt step op s) = attempt step op s"
proof (cases "step op s")
  case (Inr r)
  obtain moved s' where r: "r = (moved, s')" by (cases r)
  with Inr have st: "step op s = Inr (moved, s')" by simp
  show ?thesis
  proof (cases moved)
    case True
    with repeat [OF g assms(2)] st have "step op s' = Inr (False, s')" by simp
    with st show ?thesis by (simp add: attempt_def)
  next
    case False
    with still [OF g] st have "s' = s" by simp
    with st show ?thesis by (simp add: attempt_def)
  qed
qed (simp add: attempt_def)

lemma ended_history:
  "good s \<Longrightarrow> terminal (history step ops s) \<Longrightarrow> history step (ops @ later) s = history step ops s"
  using ended_for_good [of "history step ops s" later] history_good [of s ops] by (simp add: history_def)

end

text \<open>The contract on every state.\<close>

locale lifecycle =
  fixes step :: "'op \<Rightarrow> 's \<Rightarrow> err + bool \<times> 's"
    and terminal :: "'s \<Rightarrow> bool"
    and same :: "'op \<Rightarrow> 'op \<Rightarrow> bool"
  assumes quiet: "step op s = Inr (False, s') \<Longrightarrow> s' = s"
    and final: "terminal s \<Longrightarrow> step op s = Inr (moved, s') \<Longrightarrow> \<not> moved"
    and again: "same op op' \<Longrightarrow> step op s = Inr (True, s') \<Longrightarrow> step op' s' = Inr (False, s')"

sublocale lifecycle \<subseteq> every: lifecycle_on step terminal same "\<lambda>_. True"
  by unfold_locales (auto dest: quiet final again)

context lifecycle
begin

lemma attempt_terminal: "terminal s \<Longrightarrow> attempt step op s = s"
  by (rule every.attempt_ended) simp_all

lemma terminal_for_good: "terminal s \<Longrightarrow> history step ops s = s"
  by (rule every.ended_for_good) simp_all

lemma retry_harmless: "same op op' \<Longrightarrow> step op s = Inr (True, s') \<Longrightarrow> attempt step op' s' = s'"
  by (rule every.repeat_harmless) simp_all

lemma retry_idem: "same op op \<Longrightarrow> attempt step op (attempt step op s) = attempt step op s"
  by (rule every.repeat_idem) simp_all

lemma settled_history: "terminal (history step ops s) \<Longrightarrow> history step (ops @ later) s = history step ops s"
  by (rule every.ended_history) simp_all

end

end
