(* ===== verification/World.thy ===== *)
theory World
  imports Errorx
begin

text \<open>
  The world a use case runs in and \<open>pkg/txmanager\<close>. A world holds the service's own
  database, whatever its gateways reach, and the schedule of what happens to each round trip to
  the database or to a gateway: it is done, it fails before it takes effect, or it takes effect
  and the answer is lost. An empty schedule is a run without faults. Every operation is a
  function from a world to a result and the world it leaves, so a theorem about all schedules
  is a theorem about all ways the infrastructure can fail.
\<close>

datatype outcome = Done | Failed | Lost

record ('d, 'w) world =
  w_db :: 'd
  w_ext :: 'w
  w_sched :: "outcome list"
  w_tx :: bool

type_synonym ('d, 'w, 'a) op = "('d, 'w) world \<Rightarrow> (err + 'a) \<times> ('d, 'w) world"

subsection \<open>Sequencing\<close>

definition ret :: "'a \<Rightarrow> ('d, 'w, 'a) op" where
  "ret x = (\<lambda>s. (Inr x, s))"

definition fail :: "err \<Rightarrow> ('d, 'w, 'a) op" where
  "fail e = (\<lambda>s. (Inl e, s))"

definition pure_op :: "err + 'a \<Rightarrow> ('d, 'w, 'a) op" where
  "pure_op r = (\<lambda>s. (r, s))"

definition withResult :: "('d, 'w, 'a) op \<Rightarrow> (err + 'a \<Rightarrow> ('d, 'w, 'b) op) \<Rightarrow> ('d, 'w, 'b) op" where
  "withResult m k = (\<lambda>s. case m s of (r, s') \<Rightarrow> k r s')"

definition andThen :: "('d, 'w, 'a) op \<Rightarrow> ('a \<Rightarrow> ('d, 'w, 'b) op) \<Rightarrow> ('d, 'w, 'b) op" where
  "andThen m f = withResult m (\<lambda>r. case r of Inl e \<Rightarrow> fail e | Inr x \<Rightarrow> f x)"

definition mapErr :: "(err \<Rightarrow> err) \<Rightarrow> ('d, 'w, 'a) op \<Rightarrow> ('d, 'w, 'a) op" where
  "mapErr h m = withResult m (\<lambda>r. case r of Inl e \<Rightarrow> fail (h e) | Inr x \<Rightarrow> ret x)"

text \<open>Go's \<open>for _, x := range xs\<close> with an early return on an error.\<close>

fun for_each :: "('a \<Rightarrow> ('d, 'w, unit) op) \<Rightarrow> 'a list \<Rightarrow> ('d, 'w, unit) op" where
  "for_each f [] = ret ()"
| "for_each f (x # xs) = andThen (f x) (\<lambda>_. for_each f xs)"

fun map_each :: "('a \<Rightarrow> ('d, 'w, 'b) op) \<Rightarrow> 'a list \<Rightarrow> ('d, 'w, 'b list) op" where
  "map_each f [] = ret []"
| "map_each f (x # xs) = andThen (f x) (\<lambda>y. andThen (map_each f xs) (\<lambda>ys. ret (y # ys)))"

text \<open>The same over a pure function that can refuse.\<close>

fun map_res :: "('a \<Rightarrow> err + 'b) \<Rightarrow> 'a list \<Rightarrow> err + 'b list" where
  "map_res f [] = Inr []"
| "map_res f (x # xs) =
     (case f x of Inl e \<Rightarrow> Inl e
      | Inr y \<Rightarrow> (case map_res f xs of Inl e \<Rightarrow> Inl e | Inr ys \<Rightarrow> Inr (y # ys)))"

lemma map_res_Inr: "map_res f xs = Inr ys \<longleftrightarrow> list_all2 (\<lambda>x y. f x = Inr y) xs ys"
proof (induction xs arbitrary: ys)
  case (Cons x xs)
  show ?case
  proof (cases ys)
    case (Cons z zs)
    then show ?thesis using Cons.IH [of zs] by (auto split: sum.splits)
  qed (auto split: sum.splits)
qed auto

lemma map_res_map:
  "map_res f xs = Inr ys \<longleftrightarrow> (\<forall>x \<in> set xs. \<exists>y. f x = Inr y) \<and> ys = map (\<lambda>x. projr (f x)) xs"
proof (induction xs arbitrary: ys)
  case (Cons x xs)
  show ?case using Cons.IH [of "map (\<lambda>x. projr (f x)) xs"] Cons.IH [of "tl ys"]
    by (auto split: sum.splits)
qed auto

lemma map_res_mset:
  assumes "map_res f xs = Inr ys" and "mset xs' = mset xs"
  obtains ys' where "map_res f xs' = Inr ys'" "mset ys' = mset ys"
proof -
  from assms(2) have "set xs' = set xs" by (rule mset_eq_setD)
  with assms that [of "map (\<lambda>x. projr (f x)) xs'"] show ?thesis by (auto simp: map_res_map)
qed

lemma map_res_Inl: "map_res f xs = Inl e \<Longrightarrow> \<exists>x \<in> set xs. f x = Inl e"
  by (induction xs) (auto split: sum.splits)

lemma ret_simps [op_inv]: "ret x s = (r, s') \<longleftrightarrow> r = Inr x \<and> s' = s"
  by (auto simp: ret_def)

lemma fail_simps [op_inv]: "fail e s = (r, s') \<longleftrightarrow> r = Inl e \<and> s' = s"
  by (auto simp: fail_def)

lemma pure_op_simps [op_inv]: "pure_op r s = (r', s') \<longleftrightarrow> r = r' \<and> s' = s"
  by (auto simp: pure_op_def)

lemma andThen_Inr [op_inv]:
  "andThen m f s = (Inr y, s') \<longleftrightarrow> (\<exists>x s1. m s = (Inr x, s1) \<and> f x s1 = (Inr y, s'))"
  by (auto simp: andThen_def withResult_def fail_def split: prod.splits sum.splits)

lemma andThen_Inl:
  "andThen m f s = (Inl e, s') \<longleftrightarrow>
     m s = (Inl e, s') \<or> (\<exists>x s1. m s = (Inr x, s1) \<and> f x s1 = (Inl e, s'))"
  by (auto simp: andThen_def withResult_def fail_def split: prod.splits sum.splits)

lemma mapErr_Inr [op_inv]: "mapErr h m s = (Inr y, s') \<longleftrightarrow> m s = (Inr y, s')"
  by (auto simp: mapErr_def withResult_def fail_def ret_def split: prod.splits sum.splits)

lemma mapErr_Inl: "mapErr h m s = (Inl e, s') \<longleftrightarrow> (\<exists>e0. m s = (Inl e0, s') \<and> e = h e0)"
  by (auto simp: mapErr_def withResult_def fail_def ret_def split: prod.splits sum.splits)

lemma withResult_eq:
  "withResult m k s = (r, s') \<longleftrightarrow> (\<exists>r1 s1. m s = (r1, s1) \<and> k r1 s1 = (r, s'))"
  by (auto simp: withResult_def split: prod.splits)

lemma withResult_cases [op_inv]:
  "withResult m (\<lambda>r. case r of Inl e \<Rightarrow> f e | Inr x \<Rightarrow> g x) s = (r, s') \<longleftrightarrow>
     (\<exists>e s1. m s = (Inl e, s1) \<and> f e s1 = (r, s')) \<or> (\<exists>x s1. m s = (Inr x, s1) \<and> g x s1 = (r, s'))"
  by (auto simp: withResult_eq split: sum.splits) (metis sum.exhaust)+

lemma if_op [op_inv]:
  "(if b then m else n) s = (r, s') \<longleftrightarrow> (b \<and> m s = (r, s')) \<or> (\<not> b \<and> n s = (r, s'))"
  by simp

text \<open>The same as rewriting rules, for runs that are evaluated step by step.\<close>

named_theorems runs \<open>what an operation does to a given world\<close>

lemma op_runs [runs]:
  "ret x s = (Inr x, s)" "fail e s = (Inl e, s)" "pure_op r s = (r, s)"
  "withResult m k s = (case m s of (r, s') \<Rightarrow> k r s')"
  "andThen m f s = (case m s of (r, s') \<Rightarrow> (case r of Inl e \<Rightarrow> (Inl e, s') | Inr x \<Rightarrow> f x s'))"
  "mapErr h m s = (case m s of (r, s') \<Rightarrow> (case r of Inl e \<Rightarrow> (Inl (h e), s') | Inr x \<Rightarrow> (Inr x, s')))"
  by (simp_all add: ret_def fail_def pure_op_def withResult_def andThen_def mapErr_def split: prod.splits sum.splits)

subsection \<open>Round trips\<close>

definition next_outcome :: "('d, 'w) world \<Rightarrow> outcome \<times> ('d, 'w) world" where
  "next_outcome s = (case w_sched s of [] \<Rightarrow> (Done, s) | q # qs \<Rightarrow> (q, s\<lparr>w_sched := qs\<rparr>))"

definition conn_err :: err where "conn_err = PlainErr ''failed to reach the database''"

definition unavailable :: err where
  "unavailable = StatusErr \<lparr>st_code = Unavailable, st_message = ''connection refused'', st_info = None\<rparr>"

definition timed_out :: err where
  "timed_out = StatusErr \<lparr>st_code = DeadlineExceeded, st_message = ''deadline exceeded'', st_info = None\<rparr>"

text \<open>A statement on the database: a function from the database to a result and the database
  it leaves.\<close>

definition sql :: "('d \<Rightarrow> (err + 'a) \<times> 'd) \<Rightarrow> ('d, 'w, 'a) op" where
  "sql q = (\<lambda>s0. case next_outcome s0 of (what, s) \<Rightarrow>
     (case what of
        Done \<Rightarrow> (case q (w_db s) of (r, d) \<Rightarrow> (r, s\<lparr>w_db := d\<rparr>))
      | Failed \<Rightarrow> (Inl conn_err, s)
      | Lost \<Rightarrow> (Inl conn_err, s\<lparr>w_db := snd (q (w_db s))\<rparr>)))"

text \<open>A call on a gateway, which runs on whatever is at the other end.\<close>

definition rpc :: "('w \<Rightarrow> (err + 'a) \<times> 'w) \<Rightarrow> ('d, 'w, 'a) op" where
  "rpc q = (\<lambda>s0. case next_outcome s0 of (what, s) \<Rightarrow>
     (case what of
        Done \<Rightarrow> (case q (w_ext s) of (r, w) \<Rightarrow> (r, s\<lparr>w_ext := w\<rparr>))
      | Failed \<Rightarrow> (Inl unavailable, s)
      | Lost \<Rightarrow> (Inl timed_out, s\<lparr>w_ext := snd (q (w_ext s))\<rparr>)))"

lemma next_outcome_frame:
  "next_outcome s = (what, s') \<Longrightarrow> w_db s' = w_db s \<and> w_ext s' = w_ext s \<and> w_tx s' = w_tx s"
  by (auto simp: next_outcome_def split: list.splits)

lemma sql_Inr:
  "sql q s = (Inr x, s') \<longleftrightarrow>
     (\<exists>s1 d. next_outcome s = (Done, s1) \<and> q (w_db s1) = (Inr x, d) \<and> s' = s1\<lparr>w_db := d\<rparr>)"
  by (auto simp: sql_def split: prod.splits outcome.splits)

lemma sql_success:
  "sql q s = (Inr x, s') \<Longrightarrow>
   q (w_db s) = (Inr x, w_db s') \<and> w_ext s' = w_ext s \<and> w_tx s' = w_tx s"
  by (auto simp: sql_Inr dest!: next_outcome_frame)

lemma sql_frame: "sql q s = (r, s') \<Longrightarrow> w_ext s' = w_ext s \<and> w_tx s' = w_tx s"
  by (auto simp: sql_def split: prod.splits outcome.splits dest!: next_outcome_frame)

lemma sql_db:
  "sql q s = (r, s') \<Longrightarrow> w_db s' = w_db s \<or> w_db s' = snd (q (w_db s))"
  by (auto simp: sql_def split: prod.splits outcome.splits dest!: next_outcome_frame)

text \<open>A statement that fails changes nothing.\<close>

definition stmt_ok :: "('d \<Rightarrow> (err + 'a) \<times> 'd) \<Rightarrow> bool" where
  "stmt_ok q \<longleftrightarrow> (\<forall>d e d'. q d = (Inl e, d') \<longrightarrow> d' = d)"

lemma sql_effect:
  assumes "stmt_ok q" and "sql q s = (r, s')"
  shows "w_db s' = w_db s \<or> (\<exists>x. q (w_db s) = (Inr x, w_db s'))"
proof (cases "q (w_db s)")
  case (Pair r0 d)
  with assms sql_db [OF assms(2)] show ?thesis by (cases r0) (auto simp: stmt_ok_def)
qed

lemma sql_refused:
  assumes "stmt_ok q" and "sql q s = (Inl e, s')" and "e \<noteq> conn_err"
  shows "q (w_db s) = (Inl e, w_db s) \<and> w_db s' = w_db s \<and> w_ext s' = w_ext s \<and> w_tx s' = w_tx s"
proof -
  obtain what s1 where n: "next_outcome s = (what, s1)" by (cases "next_outcome s")
  obtain r d where q: "q (w_db s1) = (r, d)" by (cases "q (w_db s1)")
  from n next_outcome_frame have f: "w_db s1 = w_db s" "w_ext s1 = w_ext s" "w_tx s1 = w_tx s" by blast+
  from assms(2,3) n q have "what = Done" "r = Inl e" "s' = s1\<lparr>w_db := d\<rparr>"
    by (auto simp: sql_def split: outcome.splits)
  with q f assms(1) show ?thesis by (auto simp: stmt_ok_def)
qed

lemma sql_no_fault: "w_sched s = [] \<Longrightarrow> sql q s = (fst (q (w_db s)), s\<lparr>w_db := snd (q (w_db s))\<rparr>)"
  by (simp add: sql_def next_outcome_def split: prod.splits)

lemma rpc_no_fault: "w_sched s = [] \<Longrightarrow> rpc q s = (fst (q (w_ext s)), s\<lparr>w_ext := snd (q (w_ext s))\<rparr>)"
  by (simp add: rpc_def next_outcome_def split: prod.splits)

lemma rpc_frame: "rpc q s = (r, s') \<Longrightarrow> w_db s' = w_db s \<and> w_tx s' = w_tx s"
  by (auto simp: rpc_def split: prod.splits outcome.splits dest!: next_outcome_frame)

lemma rpc_success:
  "rpc q s = (Inr x, s') \<Longrightarrow>
   q (w_ext s) = (Inr x, w_ext s') \<and> w_db s' = w_db s \<and> w_tx s' = w_tx s"
  by (auto simp: rpc_def split: prod.splits outcome.splits dest!: next_outcome_frame)

lemma rpc_success_ext: "rpc q s = (Inr x, s') \<Longrightarrow> w_ext s' = snd (q (w_ext s))"
  using rpc_success [of q s x s'] by simp

lemma sql_success_db: "sql q s = (Inr x, s') \<Longrightarrow> w_db s' = snd (q (w_db s))"
  using sql_success [of q s x s'] by simp

lemma rpc_ext:
  "rpc q s = (r, s') \<Longrightarrow> w_ext s' = w_ext s \<or> w_ext s' = snd (q (w_ext s))"
  by (auto simp: rpc_def split: prod.splits outcome.splits dest!: next_outcome_frame)

text \<open>Operations that leave the database alone.\<close>

definition read_only :: "('d, 'w, 'a) op \<Rightarrow> bool" where
  "read_only m \<longleftrightarrow> (\<forall>s r s'. m s = (r, s') \<longrightarrow> w_db s' = w_db s)"

lemma read_onlyD: "read_only m \<Longrightarrow> m s = (r, s') \<Longrightarrow> w_db s' = w_db s"
  by (auto simp: read_only_def)

lemma read_only_basic [simp]:
  "read_only (ret x)" "read_only (fail e)" "read_only (pure_op r)"
  by (auto simp: read_only_def ret_def fail_def pure_op_def)

lemma read_only_sql [intro]: "(\<And>d. snd (q d) = d) \<Longrightarrow> read_only (sql q)"
  by (auto simp: read_only_def dest!: sql_db)

lemma read_only_withResult [intro]:
  "read_only m \<Longrightarrow> (\<And>r. read_only (k r)) \<Longrightarrow> read_only (withResult m k)"
  by (fastforce simp: read_only_def withResult_eq)

lemma read_only_andThen [intro]:
  "read_only m \<Longrightarrow> (\<And>x. read_only (f x)) \<Longrightarrow> read_only (andThen m f)"
  unfolding andThen_def by (rule read_only_withResult) (auto split: sum.splits)

lemma read_only_rpc [intro]: "read_only (rpc q)"
  by (auto simp: read_only_def dest!: rpc_frame)

lemma read_only_mapErr [intro]: "read_only m \<Longrightarrow> read_only (mapErr h m)"
  unfolding mapErr_def by (rule read_only_withResult) (auto split: sum.splits)

subsection \<open>What the services call of google/uuid\<close>

text \<open>\<open>uuid_Parse\<close> answers the canonical text of the value it parsed. What is relied on:
  a valid text of 36 bytes in lower case is the canonical one, and what it answers has the
  canonical form and is parsed as itself.\<close>

record uuid_lib =
  uuid_Validate :: "gostring \<Rightarrow> bool"
  uuid_Parse :: "gostring \<Rightarrow> err + gostring"

definition hex_digit :: "char \<Rightarrow> bool" where
  "hex_digit c \<longleftrightarrow> digit c \<or> (CHR ''a'' \<le> c \<and> c \<le> CHR ''f'')"

definition canonical_uuid :: "gostring \<Rightarrow> bool" where
  "canonical_uuid s \<longleftrightarrow> length s = 36 \<and>
     list_all (\<lambda>i. if i \<in> set [8, 13, 18, 23] then s ! i = CHR ''-'' else hex_digit (s ! i)) [0..<36]"

definition uuid_ok :: "uuid_lib \<Rightarrow> bool" where
  "uuid_ok U \<longleftrightarrow>
     (\<forall>s. length s = 36 \<and> ToLower s = s \<and> uuid_Validate U s \<longrightarrow> uuid_Parse U s = Inr s) \<and>
     (\<forall>s u. uuid_Parse U s = Inr u \<longrightarrow> uuid_Parse U u = Inr u \<and> canonical_uuid u)"

definition canonical_uuids :: uuid_lib where
  "canonical_uuids =
     \<lparr>uuid_Validate = canonical_uuid,
      uuid_Parse = (\<lambda>s. if canonical_uuid s then Inr s else Inl (PlainErr ''invalid UUID format''))\<rparr>"

lemma uuid_ok_canonical: "uuid_ok canonical_uuids"
  by (simp add: uuid_ok_def canonical_uuids_def)

lemma canonical_uuid_trim:
  assumes "canonical_uuid s"
  shows "TrimSpace s = s" "length s = 36"
proof -
  from assms show len: "length s = 36" by (simp add: canonical_uuid_def)
  have "graphic (s ! i)" if "i < 36" for i
  proof -
    from that have "i \<in> set [0..<36]" unfolding set_upt by simp
    with assms have "if i \<in> set [8, 13, 18, 23] then s ! i = CHR ''-'' else hex_digit (s ! i)"
      unfolding canonical_uuid_def list_all_iff by blast
    then have "s ! i = CHR ''-'' \<or> hex_digit (s ! i)" by metis
    then show ?thesis unfolding hex_digit_def digit_def graphic_def less_eq_char_def by auto
  qed
  then have "\<forall>c \<in> set s. graphic c" using len by (auto simp: in_set_conv_nth)
  then show "TrimSpace s = s" by (rule TrimSpace_graphic)
qed

lemma uuid_ok_Parse:
  "uuid_ok U \<Longrightarrow> uuid_Parse U s = Inr u \<Longrightarrow> uuid_Parse U u = Inr u \<and> TrimSpace u = u \<and> length u = 36"
  unfolding uuid_ok_def using canonical_uuid_trim by blast

subsection \<open>Transactions\<close>

fun is_panic :: "err \<Rightarrow> bool" where
  "is_panic (PanicErr _) = True"
| "is_panic _ = False"

text \<open>
  \<open>Manager.Do\<close>: a nested call joins the transaction that is open; otherwise begin, run
  the function, and commit, or roll back what the database holds (not what gateways did) when
  the function returns an error or panics. A commit whose answer is lost has happened.
\<close>

definition Do :: "('d, 'w, 'a) op \<Rightarrow> ('d, 'w, 'a) op" where
  "Do fn = (\<lambda>s. if w_tx s then fn s else
     (case next_outcome s of (began, s1) \<Rightarrow>
       if began \<noteq> Done then (Inl (WrapErr ''txmanager: begin: '' conn_err []), s1)
       else (case fn (s1\<lparr>w_tx := True\<rparr>) of
           (Inl e, s2) \<Rightarrow>
             (case next_outcome s2 of (rolled, s3) \<Rightarrow>
               (Inl (if is_panic e then e
                     else if rolled = Done then JoinErr [e]
                     else JoinErr [e, WrapErr ''txmanager: rollback: '' conn_err []]),
                s3\<lparr>w_db := w_db s, w_tx := False\<rparr>))
         | (Inr x, s2) \<Rightarrow>
             (case next_outcome s2 of (committed, s3) \<Rightarrow>
               (case committed of
                  Done \<Rightarrow> (Inr x, s3\<lparr>w_tx := False\<rparr>)
                | Failed \<Rightarrow> (Inl (WrapErr ''txmanager: commit: '' conn_err []),
                     s3\<lparr>w_db := w_db s, w_tx := False\<rparr>)
                | Lost \<Rightarrow> (Inl (WrapErr ''txmanager: commit: '' conn_err []),
                     s3\<lparr>w_tx := False\<rparr>))))))"

lemma Do_success:
  assumes "Do fn s = (Inr x, s')" and "\<not> w_tx s"
  obtains s1 s2 where "fn s1 = (Inr x, s2)" "w_db s1 = w_db s" "w_ext s1 = w_ext s" "w_tx s1"
    "w_db s' = w_db s2" "w_ext s' = w_ext s2" "\<not> w_tx s'"
  using assms
  by (auto simp: Do_def split: prod.splits sum.splits if_splits outcome.splits
      dest!: next_outcome_frame)

lemma Do_error:
  assumes "Do fn s = (Inl e, s')" and "\<not> w_tx s"
  obtains (unchanged) "w_db s' = w_db s" "\<not> w_tx s'"
  | (lost) x s1 s2 where "fn s1 = (Inr x, s2)" "w_db s1 = w_db s" "w_ext s1 = w_ext s" "w_tx s1"
      "w_db s' = w_db s2" "\<not> w_tx s'"
  using assms
  by (auto simp: Do_def split: prod.splits sum.splits if_splits outcome.splits
      dest!: next_outcome_frame)

text \<open>Where a transaction leaves both the database and whatever the gateways reach: rolling
  back does not undo a call.\<close>

lemma Do_cases:
  assumes "Do fn s = (r, s')" and "\<not> w_tx s"
  obtains (not_begun) "w_db s' = w_db s" "w_ext s' = w_ext s" "\<not> w_tx s'" "isl r"
  | (undone) r1 s1 s2 where "fn s1 = (r1, s2)" "w_db s1 = w_db s" "w_ext s1 = w_ext s" "w_tx s1"
      "w_db s' = w_db s" "w_ext s' = w_ext s2" "\<not> w_tx s'" "isl r"
  | (kept) x s1 s2 where "fn s1 = (Inr x, s2)" "w_db s1 = w_db s" "w_ext s1 = w_ext s" "w_tx s1"
      "w_db s' = w_db s2" "w_ext s' = w_ext s2" "\<not> w_tx s'" "r = Inr x \<or> isl r"
  using assms
  by (auto simp: Do_def split: prod.splits sum.splits if_splits outcome.splits
      dest!: next_outcome_frame)

text \<open>What the ports require of the thing a use case hands its transactional work to: all of
  the work or none of it, whatever the schedule.\<close>

locale tx_manager =
  fixes run_tx :: "('d, 'w, 'a) op \<Rightarrow> ('d, 'w, 'a) op"
  assumes all: "run_tx fn s = (Inr x, s') \<Longrightarrow> \<not> w_tx s \<Longrightarrow>
      \<exists>s1 s2. fn s1 = (Inr x, s2) \<and> w_db s1 = w_db s \<and> w_ext s1 = w_ext s \<and> w_tx s1 \<and>
        w_db s' = w_db s2 \<and> w_ext s' = w_ext s2 \<and> \<not> w_tx s'"
    and unchanged: "run_tx fn s = (Inl e, s') \<Longrightarrow> \<not> w_tx s \<Longrightarrow>
      (w_db s' = w_db s \<or>
       (\<exists>x s1 s2. fn s1 = (Inr x, s2) \<and> w_db s1 = w_db s \<and> w_ext s1 = w_ext s \<and> w_tx s1 \<and>
          w_db s' = w_db s2)) \<and> \<not> w_tx s'"
begin

lemma atomic:
  assumes "\<not> w_tx s" and "run_tx fn s = (r, s')"
  shows "w_db s' = w_db s \<or>
    (\<exists>x s1 s2. fn s1 = (Inr x, s2) \<and> w_db s1 = w_db s \<and> w_ext s1 = w_ext s \<and> w_tx s1 \<and>
       w_db s' = w_db s2)"
proof (cases r)
  case (Inl e)
  with assms have "run_tx fn s = (Inl e, s')" by simp
  from unchanged [OF this assms(1)] show ?thesis by simp
next
  case (Inr x)
  with assms have "run_tx fn s = (Inr x, s')" by simp
  from all [OF this assms(1)] show ?thesis by blast
qed

lemma closes:
  assumes "\<not> w_tx s" and "run_tx fn s = (r, s')"
  shows "\<not> w_tx s'"
proof (cases r)
  case (Inl e)
  with assms have "run_tx fn s = (Inl e, s')" by simp
  from unchanged [OF this assms(1)] show ?thesis by simp
next
  case (Inr x)
  with assms have "run_tx fn s = (Inr x, s')" by simp
  from all [OF this assms(1)] show ?thesis by blast
qed

lemma invariant:
  assumes keep: "\<And>s x s'. I (w_db s) \<Longrightarrow> w_tx s \<Longrightarrow> fn s = (Inr x, s') \<Longrightarrow> I (w_db s')"
    and start: "I (w_db s)" and "\<not> w_tx s" and "run_tx fn s = (r, s')"
  shows "I (w_db s')"
  using atomic [OF assms(3,4)]
proof (elim disjE exE conjE)
  assume "w_db s' = w_db s"
  with start show ?thesis by simp
next
  fix x s1 s2
  assume "fn s1 = (Inr x, s2)" "w_db s1 = w_db s" "w_tx s1" "w_db s' = w_db s2"
  with keep [of s1 x s2] start show ?thesis by simp
qed

end

interpretation txm: tx_manager Do
  by unfold_locales (metis Do_success, metis Do_error)

lemma Do_no_fault:
  assumes "w_sched s = []" and "\<not> w_tx s" and "fn (s\<lparr>w_tx := True\<rparr>) = (r, s2)" and "w_sched s2 = []"
  shows "Do fn s = (case r of
      Inl e \<Rightarrow> (Inl (if is_panic e then e else JoinErr [e]), s2\<lparr>w_db := w_db s, w_tx := False\<rparr>)
    | Inr x \<Rightarrow> (Inr x, s2\<lparr>w_tx := False\<rparr>))"
  using assms by (cases r) (simp_all add: Do_def next_outcome_def)

subsection \<open>Operations that leave the transaction as they found it\<close>

named_theorems keeps \<open>every operation closes the transaction it opened\<close>

definition keeps_tx :: "('d, 'w, 'a) op \<Rightarrow> bool" where
  "keeps_tx m \<longleftrightarrow> (\<forall>s r s'. m s = (r, s') \<longrightarrow> w_tx s' = w_tx s)"

lemma keeps_txD: "keeps_tx m \<Longrightarrow> w_tx (snd (m s)) = w_tx s"
  by (cases "m s") (simp add: keeps_tx_def)

lemma keeps_basic [keeps]:
  "keeps_tx (ret x)" "keeps_tx (fail e)" "keeps_tx (pure_op r)" "keeps_tx (sql q)" "keeps_tx (rpc w)"
  by (auto simp: keeps_tx_def ret_def fail_def pure_op_def dest: sql_frame rpc_frame)

lemma keeps_withResult [keeps]: "keeps_tx m \<Longrightarrow> (\<And>r. keeps_tx (k r)) \<Longrightarrow> keeps_tx (withResult m k)"
  unfolding keeps_tx_def withResult_eq by metis

lemma keeps_case_sum [keeps]:
  "(\<And>e. keeps_tx (f e)) \<Longrightarrow> (\<And>x. keeps_tx (g x)) \<Longrightarrow> keeps_tx (case r of Inl e \<Rightarrow> f e | Inr x \<Rightarrow> g x)"
  by (simp split: sum.splits)

lemma keeps_andThen [keeps]: "keeps_tx m \<Longrightarrow> (\<And>x. keeps_tx (f x)) \<Longrightarrow> keeps_tx (andThen m f)"
  unfolding andThen_def by (intro keeps)

lemma keeps_mapErr [keeps]: "keeps_tx m \<Longrightarrow> keeps_tx (mapErr h m)"
  unfolding mapErr_def by (intro keeps)

lemma keeps_case_prod [keeps]: "(\<And>x y. keeps_tx (f x y)) \<Longrightarrow> keeps_tx (case p of (x, y) \<Rightarrow> f x y)"
  by (simp split: prod.splits)

lemma keeps_case_option [keeps]:
  "keeps_tx m \<Longrightarrow> (\<And>x. keeps_tx (f x)) \<Longrightarrow> keeps_tx (case r of None \<Rightarrow> m | Some x \<Rightarrow> f x)"
  by (simp split: option.splits)

lemma keeps_if [keeps]: "keeps_tx m \<Longrightarrow> keeps_tx n \<Longrightarrow> keeps_tx (if b then m else n)"
  by simp

lemma keeps_Let [keeps]: "(\<And>x. keeps_tx (f x)) \<Longrightarrow> keeps_tx (let x = t in f x)"
  by simp

lemma keeps_for_each [keeps]: "(\<And>x. keeps_tx (f x)) \<Longrightarrow> keeps_tx (for_each f xs)"
  by (induction xs) (auto intro!: keeps)

lemma keeps_map_each [keeps]: "(\<And>x. keeps_tx (f x)) \<Longrightarrow> keeps_tx (map_each f xs)"
  by (induction xs) (auto intro!: keeps)

lemma Do_joins: "w_tx s \<Longrightarrow> Do fn s = fn s"
  by (simp add: Do_def)

lemma keeps_Do [keeps]:
  assumes "keeps_tx fn"
  shows "keeps_tx (Do fn)"
  unfolding keeps_tx_def
proof (intro allI impI)
  fix s r s'
  assume run: "Do fn s = (r, s')"
  show "w_tx s' = w_tx s"
  proof (cases "w_tx s")
    case True
    with run assms show ?thesis by (auto simp: Do_joins keeps_tx_def)
  next
    case False
    with txm.closes [OF False run] show ?thesis by simp
  qed
qed

text \<open>Operations that call no gateway.\<close>

named_theorems quiets \<open>operations that leave whatever the gateways reach alone\<close>

definition quiet :: "('d, 'w, 'a) op \<Rightarrow> bool" where
  "quiet m \<longleftrightarrow> (\<forall>s r s'. m s = (r, s') \<longrightarrow> w_ext s' = w_ext s)"

lemma quietD: "quiet m \<Longrightarrow> m s = (r, s') \<Longrightarrow> w_ext s' = w_ext s"
  by (simp add: quiet_def)

lemma quiet_basic [quiets]:
  "quiet (ret x)" "quiet (fail e)" "quiet (pure_op r)" "quiet (sql q)"
  by (auto simp: quiet_def ret_def fail_def pure_op_def dest: sql_frame)

lemma quiet_withResult [quiets]: "quiet m \<Longrightarrow> (\<And>r. quiet (k r)) \<Longrightarrow> quiet (withResult m k)"
  unfolding quiet_def withResult_eq by metis

lemma quiet_cases [quiets]:
  "(\<And>e. quiet (f e)) \<Longrightarrow> (\<And>x. quiet (g x)) \<Longrightarrow> quiet (case r of Inl e \<Rightarrow> f e | Inr x \<Rightarrow> g x)"
  "(\<And>x y. quiet (h x y)) \<Longrightarrow> quiet (case p of (x, y) \<Rightarrow> h x y)"
  "quiet m \<Longrightarrow> (\<And>x. quiet (l x)) \<Longrightarrow> quiet (case o' of None \<Rightarrow> m | Some x \<Rightarrow> l x)"
  "quiet m \<Longrightarrow> quiet n \<Longrightarrow> quiet (if b then m else n)"
  by (simp_all split: sum.splits prod.splits option.splits)

lemma quiet_andThen [quiets]: "quiet m \<Longrightarrow> (\<And>x. quiet (f x)) \<Longrightarrow> quiet (andThen m f)"
  unfolding andThen_def by (intro quiets)

lemma quiet_mapErr [quiets]: "quiet m \<Longrightarrow> quiet (mapErr h m)"
  unfolding mapErr_def by (intro quiets)

lemma quiet_each [quiets]:
  "(\<And>x. quiet (f x)) \<Longrightarrow> quiet (for_each f xs)" "(\<And>x. quiet (g x)) \<Longrightarrow> quiet (map_each g ys)"
proof -
  show "(\<And>x. quiet (f x)) \<Longrightarrow> quiet (for_each f xs)" by (induction xs) (auto intro!: quiets)
  show "(\<And>x. quiet (g x)) \<Longrightarrow> quiet (map_each g ys)" by (induction ys) (auto intro!: quiets)
qed

lemma quiet_Do [quiets]: "quiet fn \<Longrightarrow> quiet (Do fn)"
  unfolding quiet_def Do_def
  by (auto split: prod.splits sum.splits if_splits outcome.splits dest!: next_outcome_frame)

text \<open>What a transaction makes of an invariant of its body, for an operation that may start
  with checks of its arguments.\<close>

lemma pure_then: "andThen (pure_op r) f s = (case r of Inl e \<Rightarrow> (Inl e, s) | Inr x \<Rightarrow> f x s)"
  by (auto simp: andThen_def withResult_def pure_op_def fail_def split: sum.splits)

lemma Do_keeps:
  assumes "\<And>s x s'. I (w_db s) \<Longrightarrow> fn s = (Inr x, s') \<Longrightarrow> I (w_db s')"
    and "I (w_db s)" and "\<not> w_tx s"
  shows "I (w_db (snd (Do fn s)))"
  using txm.invariant [of I fn s "fst (Do fn s)" "snd (Do fn s)"] assms by auto

lemma Do_relates:
  assumes "\<And>s1 x s2. w_db s1 = w_db s \<Longrightarrow> fn s1 = (Inr x, s2) \<Longrightarrow> R (w_db s2)"
    and "R (w_db s)" and "\<not> w_tx s"
  shows "R (w_db (snd (Do fn s)))"
  using txm.atomic [of s fn "fst (Do fn s)" "snd (Do fn s)"] assms by auto

text \<open>The error a transaction answers with is the one its body failed with, or has no reason
  of its own.\<close>

lemma Do_reason:
  assumes "Do fn s = (Inl e', s')" and "\<not> w_tx s"
  obtains "first_Error e' = None"
  | e s1 s2 where "fn s1 = (Inl e, s2)" "w_db s1 = w_db s" "first_Error e' = first_Error e"
  using assms
  by (auto simp: Do_def conn_err_def split: prod.splits sum.splits if_splits outcome.splits
      dest!: next_outcome_frame)

end
