(* ===== verification/OrdDomain.thy ===== *)
theory OrdDomain
  imports Lifecycle World
begin

text \<open>
  \<open>services/order/internal/domain\<close>: identifiers, SKUs, money, order lines, the order
  aggregate, its state machine and the events it raises. \<open>uuid.Parse\<close> is a field of the
  argument \<open>U\<close>, and a minted identifier is an argument. A method that changes the aggregate
  answers whether it moved, and the aggregate.
\<close>

subsection \<open>Errors and identifiers\<close>

definition ErrOrderNotFound :: err where
  "ErrOrderNotFound = SentinelErr ''order does not exist'' ''not_found''"

definition ErrOrderCancelled :: err where
  "ErrOrderCancelled = SentinelErr ''order was cancelled'' ''conflict''"

definition ErrOrderPaid :: err where
  "ErrOrderPaid = SentinelErr ''order was already paid'' ''conflict''"

definition ErrOrderNotExpired :: err where
  "ErrOrderNotExpired = SentinelErr ''order's payment window has not run out'' ''conflict''"

definition ErrTotalOutOfRange :: err where
  "ErrTotalOutOfRange = SentinelErr ''order total is out of range'' ''invalid_input''"

lemmas ord_sentinels = ErrOrderNotFound_def ErrOrderCancelled_def ErrOrderPaid_def
  ErrOrderNotExpired_def ErrTotalOutOfRange_def

definition ord_parseUUID :: "uuid_lib \<Rightarrow> string \<Rightarrow> gostring \<Rightarrow> err + gostring" where
  "ord_parseUUID U field s0 =
     (let s = TrimSpace s0 in
      if s = [] then Inl (ValidationErr field ''is required'')
      else if length s \<noteq> 36 then Inl (ValidationErr field ''is not a canonical UUID'')
      else (case uuid_Parse U s of
              Inl _ \<Rightarrow> Inl (ValidationErr field ''is not a UUID'')
            | Inr u \<Rightarrow> Inr u))"

definition ord_ParseOrderID :: "uuid_lib \<Rightarrow> gostring \<Rightarrow> err + gostring" where
  "ord_ParseOrderID U s = ord_parseUUID U ''id'' s"

definition ord_ParseUserID :: "uuid_lib \<Rightarrow> gostring \<Rightarrow> err + gostring" where
  "ord_ParseUserID U s = ord_parseUUID U ''user_id'' s"

definition ord_ParseReservationID :: "uuid_lib \<Rightarrow> gostring \<Rightarrow> err + gostring" where
  "ord_ParseReservationID U s = ord_parseUUID U ''reservation_id'' s"

lemma ord_parseUUID_Inr:
  "ord_parseUUID U field s = Inr u \<Longrightarrow> uuid_ok U \<Longrightarrow> uuid_Parse U u = Inr u"
  by (auto simp: ord_parseUUID_def Let_def uuid_ok_def split: if_splits sum.splits)

subsection \<open>SKUs and money\<close>

definition ord_NewSKU :: "gostring \<Rightarrow> err + gostring" where
  "ord_NewSKU s0 =
     (let s = ToUpper (TrimSpace s0);
          invalid = ValidationErr ''sku'' ''must be 3 to 64 characters of A-Z, 0-9, and hyphens''
      in if length s < 3 \<or> length s > 64 then Inl invalid
         else if list_all (\<lambda>i. upper_alnum (s ! i) \<or> (s ! i = CHR ''-'' \<and> i > 0)) [0..<length s]
         then Inr s else Inl invalid)"

lemma ord_NewSKU_chars:
  "ord_NewSKU s = Inr sku \<Longrightarrow> c \<in> set sku \<Longrightarrow> upper_alnum c \<or> c = CHR ''-''"
  by (auto simp: ord_NewSKU_def Let_def list_all_iff in_set_conv_nth split: if_splits)

lemma ord_NewSKU_nonempty: "ord_NewSKU s = Inr sku \<Longrightarrow> sku \<noteq> []"
  by (auto simp: ord_NewSKU_def Let_def split: if_splits)

text \<open>Go's \<open>Money\<close>: an amount in minor units and a currency.\<close>

record Money =
  amountMinor :: int
  currency :: gostring

definition NewCurrencyCode :: "string \<Rightarrow> gostring \<Rightarrow> err + gostring" where
  "NewCurrencyCode field s0 =
     (let s = ToUpper (TrimSpace s0);
          invalid = ValidationErr field ''is not a three-letter ISO 4217 code''
      in if length s \<noteq> 3 then Inl invalid
         else if list_all (\<lambda>i. \<not> (s ! i < CHR ''A'' \<or> s ! i > CHR ''Z'')) [0..<length s]
         then Inr s else Inl invalid)"

definition ord_NewCurrencyCode :: "gostring \<Rightarrow> err + gostring" where
  "ord_NewCurrencyCode = NewCurrencyCode ''currency_code''"

definition ord_NewMoney :: "int \<Rightarrow> gostring \<Rightarrow> err + Money" where
  "ord_NewMoney amount cur =
     (if cur = [] then Inl (ValidationErr ''currency_code'' ''is required'')
      else if amount < 0 then Inl (ValidationErr ''amount_minor'' ''is negative'')
      else Inr \<lparr>amountMinor = amount, currency = cur\<rparr>)"

definition money_IsZero :: "Money \<Rightarrow> bool" where
  "money_IsZero m \<longleftrightarrow> amountMinor m = 0 \<and> currency m = []"

subsection \<open>Order lines\<close>

record OrderLine =
  oln_sku :: gostring
  oln_quantity :: int
  oln_unitPrice :: Money

definition maxQuantity :: int where "maxQuantity = 10000"

definition NewOrderLine :: "gostring \<Rightarrow> int \<Rightarrow> Money \<Rightarrow> err + OrderLine" where
  "NewOrderLine sku quantity unitPrice =
     (if sku = [] then Inl (ValidationErr ''sku'' ''is required'')
      else if quantity \<le> 0 then Inl (ValidationErr ''quantity'' ''must be greater than zero'')
      else if quantity > maxQuantity then Inl (ValidationErr ''quantity'' ''is above the per-line maximum'')
      else if money_IsZero unitPrice then Inl (ValidationErr ''unit_price'' ''is required'')
      else Inr \<lparr>oln_sku = sku, oln_quantity = quantity, oln_unitPrice = unitPrice\<rparr>)"

text \<open>Dividing by a zero quantity panics; the product is an \<open>int64\<close>.\<close>

definition Subtotal :: "OrderLine \<Rightarrow> err + Money" where
  "Subtotal l =
     (if oln_quantity l = 0 then Inl (PanicErr ''runtime error: integer divide by zero'')
      else if amountMinor (oln_unitPrice l) > quot MaxInt64 (oln_quantity l) then Inl ErrTotalOutOfRange
      else Inr \<lparr>amountMinor = wrap64 (amountMinor (oln_unitPrice l) * oln_quantity l),
                currency = currency (oln_unitPrice l)\<rparr>)"

text \<open>The loop of \<open>sum\<close>, with the currency of the first line and the amount so far.\<close>

fun ord_sum_from :: "gostring \<Rightarrow> int \<Rightarrow> OrderLine list \<Rightarrow> err + int" where
  "ord_sum_from cur amount [] = Inr amount"
| "ord_sum_from cur amount (l # ls) =
     (if currency (oln_unitPrice l) \<noteq> cur
      then Inl (ValidationErr ''lines'' ''are priced in more than one currency'')
      else (case Subtotal l of
              Inl e \<Rightarrow> Inl e
            | Inr subtotal \<Rightarrow>
                if amount > wrap64 (MaxInt64 - amountMinor subtotal) then Inl ErrTotalOutOfRange
                else ord_sum_from cur (wrap64 (amount + amountMinor subtotal)) ls))"

definition ord_sum :: "OrderLine list \<Rightarrow> err + Money" where
  "ord_sum ls =
     (if ls = [] then Inl (PanicErr ''runtime error: index out of range'')
      else let cur = currency (oln_unitPrice (hd ls)) in
        (case ord_sum_from cur 0 ls of
           Inl e \<Rightarrow> Inl e
         | Inr amount \<Rightarrow> Inr \<lparr>amountMinor = amount, currency = cur\<rparr>))"

subsection \<open>Orders\<close>

datatype OrderStatus = PendingPayment | Paid | Cancelled | StatusUnknown string

fun ord_status_text :: "OrderStatus \<Rightarrow> string" where
  "ord_status_text PendingPayment = ''pending_payment''"
| "ord_status_text Paid = ''paid''"
| "ord_status_text Cancelled = ''cancelled''"
| "ord_status_text (StatusUnknown s) = s"

definition OrderStatus_of :: "string \<Rightarrow> OrderStatus" where
  "OrderStatus_of s =
     (if s = ''pending_payment'' then PendingPayment else if s = ''paid'' then Paid
      else if s = ''cancelled'' then Cancelled else StatusUnknown s)"

datatype OrderEvent =
  OrderPlaced gostring gostring gostring "OrderLine list" Money
| OrderPaid gostring gostring gostring Money
| OrderCancelled gostring gostring gostring

fun ord_EventName :: "OrderEvent \<Rightarrow> string" where
  "ord_EventName (OrderPlaced _ _ _ _ _) = ''OrderPlaced''"
| "ord_EventName (OrderPaid _ _ _ _) = ''OrderPaid''"
| "ord_EventName (OrderCancelled _ _ _) = ''OrderCancelled''"

record Order =
  ord_id :: gostring
  ord_userID :: gostring
  ord_status :: OrderStatus
  ord_lines :: "OrderLine list"
  ord_total :: Money
  ord_reservationID :: gostring
  ord_createdAt :: gotime
  ord_updatedAt :: gotime
  ord_version :: int
  ord_events :: "OrderEvent list"

definition maxLines :: nat where "maxLines = 100"

fun names_twice :: "gostring list \<Rightarrow> OrderLine list \<Rightarrow> bool" where
  "names_twice seen [] = False"
| "names_twice seen (l # ls) =
     (if oln_sku l \<in> set seen then True else names_twice (oln_sku l # seen) ls)"

definition NewOrder ::
  "gostring \<Rightarrow> gostring \<Rightarrow> gostring \<Rightarrow> OrderLine list \<Rightarrow> err + Order" where
  "NewOrder oid userID reservationID ls =
     (if oid = [] then Inl (ValidationErr ''id'' ''is required'')
      else if userID = [] then Inl (ValidationErr ''user_id'' ''is required'')
      else if reservationID = [] then Inl (ValidationErr ''reservation_id'' ''is required'')
      else if ls = [] then Inl (ValidationErr ''lines'' ''an order has at least one line'')
      else if length ls > maxLines then Inl (ValidationErr ''lines'' ''is above the per-order maximum'')
      else if names_twice [] ls then Inl (ValidationErr ''lines'' ''names the same sku twice'')
      else (case ord_sum ls of
              Inl e \<Rightarrow> Inl e
            | Inr tot \<Rightarrow> Inr
                \<lparr>ord_id = oid, ord_userID = userID, ord_status = PendingPayment, ord_lines = ls,
                 ord_total = tot, ord_reservationID = reservationID, ord_createdAt = 0,
                 ord_updatedAt = 0, ord_version = 1,
                 ord_events = [OrderPlaced oid userID reservationID ls tot]\<rparr>))"

definition ord_MarkPaid :: "Order \<Rightarrow> err + bool \<times> Order" where
  "ord_MarkPaid o' =
     (case ord_status o' of
        Paid \<Rightarrow> Inr (False, o')
      | Cancelled \<Rightarrow> Inl ErrOrderCancelled
      | _ \<Rightarrow> Inr (True, o'\<lparr>ord_status := Paid,
               ord_events := ord_events o' @
                 [OrderPaid (ord_id o') (ord_userID o') (ord_reservationID o') (ord_total o')]\<rparr>))"

definition ord_Cancel :: "Order \<Rightarrow> err + bool \<times> Order" where
  "ord_Cancel o' =
     (case ord_status o' of
        Cancelled \<Rightarrow> Inr (False, o')
      | Paid \<Rightarrow> Inl ErrOrderPaid
      | _ \<Rightarrow> Inr (True, o'\<lparr>ord_status := Cancelled,
               ord_events := ord_events o' @
                 [OrderCancelled (ord_id o') (ord_userID o') (ord_reservationID o')]\<rparr>))"

definition ord_Expire :: "gotime \<Rightarrow> int \<Rightarrow> Order \<Rightarrow> err + bool \<times> Order" where
  "ord_Expire now window o' =
     (if window \<le> 0 then Inl (ValidationErr ''window'' ''is not a positive duration'')
      else (case ord_status o' of
          Cancelled \<Rightarrow> Inr (False, o')
        | Paid \<Rightarrow> Inl ErrOrderPaid
        | _ \<Rightarrow>
            if now < ord_createdAt o' + window then Inl ErrOrderNotExpired
            else Inr (True, o'\<lparr>ord_status := Cancelled,
               ord_events := ord_events o' @
                 [OrderCancelled (ord_id o') (ord_userID o') (ord_reservationID o')]\<rparr>)))"

definition PullEvents :: "Order \<Rightarrow> OrderEvent list \<times> Order" where
  "PullEvents o' = (ord_events o', o'\<lparr>ord_events := []\<rparr>)"

record OrderSnapshot =
  os_ID :: gostring
  os_UserID :: gostring
  os_Status :: OrderStatus
  os_Lines :: "OrderLine list"
  os_Total :: Money
  os_ReservationID :: gostring
  os_CreatedAt :: gotime
  os_UpdatedAt :: gotime
  os_Version :: int

definition ord_Snapshot :: "Order \<Rightarrow> OrderSnapshot" where
  "ord_Snapshot o' =
     \<lparr>os_ID = ord_id o', os_UserID = ord_userID o', os_Status = ord_status o', os_Lines = ord_lines o',
      os_Total = ord_total o', os_ReservationID = ord_reservationID o', os_CreatedAt = ord_createdAt o',
      os_UpdatedAt = ord_updatedAt o', os_Version = ord_version o'\<rparr>"

definition ReconstituteOrder :: "OrderSnapshot \<Rightarrow> Order" where
  "ReconstituteOrder s =
     \<lparr>ord_id = os_ID s, ord_userID = os_UserID s, ord_status = os_Status s, ord_lines = os_Lines s,
      ord_total = os_Total s, ord_reservationID = os_ReservationID s, ord_createdAt = os_CreatedAt s,
      ord_updatedAt = os_UpdatedAt s, ord_version = os_Version s, ord_events = []\<rparr>"

subsection \<open>What the constructors accept\<close>

lemma names_twice_iff: "names_twice seen ls \<longleftrightarrow> \<not> (distinct (map oln_sku ls) \<and> set seen \<inter> oln_sku ` set ls = {})"
  by (induction seen ls rule: names_twice.induct) auto

text \<open>A line the code built: quantity positive, price not negative and an \<open>int64\<close>.\<close>

definition sound_line :: "OrderLine \<Rightarrow> bool" where
  "sound_line l \<longleftrightarrow> 0 < oln_quantity l \<and> 0 \<le> amountMinor (oln_unitPrice l)"

definition line_value :: "OrderLine \<Rightarrow> int" where
  "line_value l = amountMinor (oln_unitPrice l) * oln_quantity l"

definition lines_value :: "OrderLine list \<Rightarrow> int" where
  "lines_value ls = sum_list (map line_value ls)"

lemma Subtotal_sound:
  assumes "sound_line l"
  shows "Subtotal l = (if line_value l \<le> MaxInt64
     then Inr \<lparr>amountMinor = line_value l, currency = currency (oln_unitPrice l)\<rparr>
     else Inl ErrTotalOutOfRange)"
proof -
  from assms have q: "0 < oln_quantity l" and p: "0 \<le> amountMinor (oln_unitPrice l)"
    by (auto simp: sound_line_def)
  have "amountMinor (oln_unitPrice l) \<le> quot MaxInt64 (oln_quantity l) \<longleftrightarrow> line_value l \<le> MaxInt64"
    using le_quot_iff [of MaxInt64 "oln_quantity l" "amountMinor (oln_unitPrice l)"] q
    by (simp add: MaxInt64_def line_value_def)
  moreover have "0 \<le> line_value l" using q p by (simp add: line_value_def)
  ultimately show ?thesis
    using q by (auto simp: Subtotal_def not_less line_value_def int8_def)
qed

lemma line_value_nonneg: "sound_line l \<Longrightarrow> 0 \<le> line_value l"
  by (simp add: sound_line_def line_value_def)

lemma lines_value_nonneg: "\<forall>l \<in> set ls. sound_line l \<Longrightarrow> 0 \<le> lines_value ls"
  unfolding lines_value_def by (induction ls) (auto intro: add_nonneg_nonneg line_value_nonneg)

lemma ord_sum_from_exact:
  assumes "\<forall>l \<in> set ls. sound_line l" and "0 \<le> a" "a \<le> MaxInt64"
  shows "(ord_sum_from cur a ls = Inr v) =
    ((\<forall>l \<in> set ls. currency (oln_unitPrice l) = cur) \<and> a + lines_value ls \<le> MaxInt64 \<and> v = a + lines_value ls)"
  using assms
proof (induction ls arbitrary: a)
  case (Cons l ls)
  have s: "sound_line l" and rest: "\<forall>l \<in> set ls. sound_line l" using Cons.prems(1) by auto
  note st = Subtotal_sound [OF s] and nn = line_value_nonneg [OF s] lines_value_nonneg [OF rest]
  have lv: "lines_value (l # ls) = line_value l + lines_value ls" by (simp add: lines_value_def)
  show ?case
  proof (cases "line_value l \<le> MaxInt64")
    case big: False
    have "\<not> a + lines_value (l # ls) \<le> MaxInt64" using big nn Cons.prems(2) unfolding lv by linarith
    with big st show ?thesis by simp
  next
    case True
    with nn have w: "wrap64 (MaxInt64 - line_value l) = MaxInt64 - line_value l"
      by (intro wrap64_id) (simp add: int8_def)
    show ?thesis
    proof (cases "a \<le> MaxInt64 - line_value l")
      case fits: True
      then have w2: "wrap64 (a + line_value l) = a + line_value l"
        using nn Cons.prems(2) by (intro wrap64_id) (simp add: int8_def)
      have "0 \<le> a + line_value l" "a + line_value l \<le> MaxInt64" using fits nn Cons.prems(2) by auto
      from Cons.IH [OF rest this] show ?thesis
        using True st w w2 fits unfolding lv by (auto simp: algebra_simps)
    next
      case False
      then have "\<not> a + lines_value (l # ls) \<le> MaxInt64" using nn unfolding lv by linarith
      with True st w False show ?thesis by simp
    qed
  qed
qed (auto simp: lines_value_def)

lemma ord_sum_exact:
  assumes "ls \<noteq> []" and "\<forall>l \<in> set ls. sound_line l"
  shows "ord_sum ls = Inr m \<longleftrightarrow>
    (\<forall>l \<in> set ls. currency (oln_unitPrice l) = currency m) \<and> lines_value ls \<le> MaxInt64 \<and>
    amountMinor m = lines_value ls"
proof -
  let ?cur = "currency (oln_unitPrice (hd ls))"
  have "ord_sum ls = Inr m \<longleftrightarrow> (\<exists>a. ord_sum_from ?cur 0 ls = Inr a \<and> m = \<lparr>amountMinor = a, currency = ?cur\<rparr>)"
    using assms(1) by (auto simp: ord_sum_def Let_def split: sum.splits)
  also have "\<dots> \<longleftrightarrow> (\<forall>l \<in> set ls. currency (oln_unitPrice l) = ?cur) \<and> lines_value ls \<le> MaxInt64 \<and>
      m = \<lparr>amountMinor = lines_value ls, currency = ?cur\<rparr>"
    using ord_sum_from_exact [OF assms(2), of 0] by (auto simp: MaxInt64_def)
  also have "\<dots> \<longleftrightarrow> (\<forall>l \<in> set ls. currency (oln_unitPrice l) = currency m) \<and> lines_value ls \<le> MaxInt64 \<and>
      amountMinor m = lines_value ls"
    using assms(1) hd_in_set [of ls] by (cases m) auto
  finally show ?thesis .
qed

lemma NewOrder_Inr:
  assumes "NewOrder oid uid rid ls = Inr o'"
  shows "ord_id o' = oid" "ord_userID o' = uid" "ord_reservationID o' = rid" "ord_lines o' = ls"
    "ord_status o' = PendingPayment" "ord_version o' = 1"
    "ord_events o' = [OrderPlaced oid uid rid ls (ord_total o')]"
    "distinct (map oln_sku ls)" "ls \<noteq> []" "length ls \<le> 100" "ord_sum ls = Inr (ord_total o')"
    "oid \<noteq> []" "uid \<noteq> []" "rid \<noteq> []"
  using assms by (auto simp: NewOrder_def names_twice_iff maxLines_def split: if_splits sum.splits)

subsection \<open>The life of an order\<close>

datatype ord_cmd = MarkPaidCmd | CancelCmd | ExpireCmd gotime int

fun ord_step :: "ord_cmd \<Rightarrow> Order \<Rightarrow> err + bool \<times> Order" where
  "ord_step MarkPaidCmd o' = ord_MarkPaid o'"
| "ord_step CancelCmd o' = ord_Cancel o'"
| "ord_step (ExpireCmd now window) o' = ord_Expire now window o'"

definition ord_settled :: "Order \<Rightarrow> bool" where
  "ord_settled o' \<longleftrightarrow> ord_status o' = Paid \<or> ord_status o' = Cancelled"

fun same_ord_cmd :: "ord_cmd \<Rightarrow> ord_cmd \<Rightarrow> bool" where
  "same_ord_cmd MarkPaidCmd c \<longleftrightarrow> c = MarkPaidCmd"
| "same_ord_cmd _ CancelCmd = True"
| "same_ord_cmd _ (ExpireCmd _ w) \<longleftrightarrow> 0 < w"
| "same_ord_cmd _ MarkPaidCmd = False"

lemmas ord_moves = ord_MarkPaid_def ord_Cancel_def ord_Expire_def

interpretation order: lifecycle ord_step ord_settled same_ord_cmd
proof
  fix op s s'
  show "ord_step op s = Inr (False, s') \<Longrightarrow> s' = s"
    by (cases op) (auto simp: ord_moves split: OrderStatus.splits if_splits)
next
  fix s op s' and moved :: bool
  show "ord_settled s \<Longrightarrow> ord_step op s = Inr (moved, s') \<Longrightarrow> \<not> moved"
    by (cases op) (auto simp: ord_moves ord_settled_def split: OrderStatus.splits if_splits)
next
  fix op op' s s'
  show "same_ord_cmd op op' \<Longrightarrow> ord_step op s = Inr (True, s') \<Longrightarrow> ord_step op' s' = Inr (False, s')"
    by (cases op; cases op') (auto simp: ord_moves split: OrderStatus.splits if_splits)
qed

text \<open>What an order has said, given the status it is in.\<close>

fun ord_outcome :: "Order \<Rightarrow> OrderEvent list" where
  "ord_outcome o' =
     (case ord_status o' of
        Paid \<Rightarrow> [OrderPaid (ord_id o') (ord_userID o') (ord_reservationID o') (ord_total o')]
      | Cancelled \<Rightarrow> [OrderCancelled (ord_id o') (ord_userID o') (ord_reservationID o')]
      | _ \<Rightarrow> [])"

definition same_order :: "Order \<Rightarrow> Order \<Rightarrow> bool" where
  "same_order a b \<longleftrightarrow> ord_id a = ord_id b \<and> ord_userID a = ord_userID b \<and> ord_lines a = ord_lines b \<and>
     ord_total a = ord_total b \<and> ord_reservationID a = ord_reservationID b \<and>
     ord_createdAt a = ord_createdAt b \<and> ord_version a = ord_version b"

lemma ord_step_story:
  assumes "ord_step c o' = Inr (moved, o'')" and "ord_events o' = said @ ord_outcome o'"
    and "ord_status o' \<in> {PendingPayment, Paid, Cancelled}"
  shows "ord_events o'' = said @ ord_outcome o'' \<and> same_order o'' o' \<and>
    ord_status o'' \<in> {PendingPayment, Paid, Cancelled}"
  using assms by (cases c) (auto simp: ord_moves same_order_def split: OrderStatus.splits if_splits)

lemma ord_history_story:
  assumes "NewOrder oid uid rid ls = Inr o'"
  shows "ord_events (history ord_step cs o') = ord_events o' @ ord_outcome (history ord_step cs o') \<and>
    same_order (history ord_step cs o') o' \<and>
    ord_status (history ord_step cs o') \<in> {PendingPayment, Paid, Cancelled}"
proof (induction cs rule: rev_induct)
  case Nil
  from NewOrder_Inr [OF assms] show ?case by (simp add: history_def same_order_def)
next
  case (snoc c cs)
  let ?h = "history ord_step cs o'"
  have h: "history ord_step (cs @ [c]) o' = attempt ord_step c ?h" by (simp add: history_def)
  show ?case
  proof (cases "ord_step c ?h")
    case (Inl e)
    with snoc h show ?thesis by (simp add: attempt_def)
  next
    case (Inr r)
    obtain moved o'' where r: "r = (moved, o'')" by (cases r)
    with Inr have st: "ord_step c ?h = Inr (moved, o'')" by simp
    from ord_step_story [OF st] snoc have "ord_events o'' = ord_events o' @ ord_outcome o''"
      "same_order o'' ?h" "ord_status o'' \<in> {PendingPayment, Paid, Cancelled}" by blast+
    with snoc h st show ?thesis by (auto simp: attempt_def same_order_def)
  qed
qed

subsection \<open>Properties\<close>

text \<open>C9. The total of an order is the mathematical sum of its lines, or there is no order: from
  lines the constructor built over prices that are not negative, \<open>NewOrder\<close> makes an order with
  a total exactly when there are 1 to 100 lines, no SKU twice, one currency, and the exact sum of
  price times quantity fits an \<open>int64\<close>; nothing wraps.\<close>

theorem order_total_exact:
  assumes "\<forall>l \<in> set ls. \<exists>sku q p. NewOrderLine sku q p = Inr l \<and> 0 \<le> amountMinor p"
    and "oid \<noteq> []" and "uid \<noteq> []" and "rid \<noteq> []"
  shows "(\<exists>o'. NewOrder oid uid rid ls = Inr o' \<and> ord_total o' = m) \<longleftrightarrow>
    ls \<noteq> [] \<and> length ls \<le> 100 \<and> distinct (map oln_sku ls) \<and>
    (\<forall>l \<in> set ls. currency (oln_unitPrice l) = currency m) \<and>
    amountMinor m = (\<Sum>l\<leftarrow>ls. amountMinor (oln_unitPrice l) * oln_quantity l) \<and>
    amountMinor m \<le> MaxInt64"
proof -
  have "sound_line l" if "l \<in> set ls" for l
  proof -
    from that assms(1) obtain sku q p where "NewOrderLine sku q p = Inr l" "0 \<le> amountMinor p" by blast
    then show ?thesis by (auto simp: NewOrderLine_def sound_line_def split: if_splits)
  qed
  then have sound: "\<forall>l \<in> set ls. sound_line l" by blast
  have val: "(\<Sum>l\<leftarrow>ls. amountMinor (oln_unitPrice l) * oln_quantity l) = lines_value ls"
    by (simp add: lines_value_def line_value_def [abs_def])
  have "(\<exists>o'. NewOrder oid uid rid ls = Inr o' \<and> ord_total o' = m) \<longleftrightarrow>
      ls \<noteq> [] \<and> length ls \<le> 100 \<and> distinct (map oln_sku ls) \<and> ord_sum ls = Inr m"
    using assms(2-4) by (auto simp: NewOrder_def names_twice_iff maxLines_def split: sum.splits)
  then show ?thesis using ord_sum_exact [OF _ sound, of m] unfolding val by auto
qed

theorem order_total_exact_witness:
  "\<exists>o'. NewOrder ''o'' ''u'' ''r''
      [\<lparr>oln_sku = ''TEE'', oln_quantity = 3, oln_unitPrice = \<lparr>amountMinor = 1050, currency = ''THB''\<rparr>\<rparr>,
       \<lparr>oln_sku = ''CAP'', oln_quantity = 1, oln_unitPrice = \<lparr>amountMinor = 9223372036854772657, currency = ''THB''\<rparr>\<rparr>] = Inr o' \<and>
    ord_total o' = \<lparr>amountMinor = 9223372036854775807, currency = ''THB''\<rparr>"
proof -
  let ?a = "\<lparr>oln_sku = ''TEE'', oln_quantity = 3, oln_unitPrice = \<lparr>amountMinor = 1050, currency = ''THB''\<rparr>\<rparr>"
  let ?b = "\<lparr>oln_sku = ''CAP'', oln_quantity = 1, oln_unitPrice = \<lparr>amountMinor = 9223372036854772657, currency = ''THB''\<rparr>\<rparr>"
  have "NewOrderLine (oln_sku ?a) (oln_quantity ?a) (oln_unitPrice ?a) = Inr ?a"
      "NewOrderLine (oln_sku ?b) (oln_quantity ?b) (oln_unitPrice ?b) = Inr ?b"
    by (simp_all add: NewOrderLine_def maxQuantity_def money_IsZero_def)
  then have l: "\<forall>l \<in> set [?a, ?b]. \<exists>sku q p. NewOrderLine sku q p = Inr l \<and> 0 \<le> amountMinor p" by fastforce
  show ?thesis
    using order_total_exact [OF l, of "''o''" "''u''" "''r''" "\<lparr>amountMinor = 9223372036854775807, currency = ''THB''\<rparr>"]
    by (simp add: MaxInt64_def)
qed

text \<open>C10. An order is paid or cancelled, never both, and says which exactly once: whatever
  commands a new order receives, in any order and however often, the events it raises are its
  \<open>OrderPlaced\<close> followed by one \<open>OrderPaid\<close> when it ends up paid, one \<open>OrderCancelled\<close> when it ends up
  cancelled, and nothing when it is still waiting; and once it is settled no later command changes
  it.\<close>

theorem order_one_outcome:
  assumes "NewOrder oid uid rid ls = Inr o'"
  shows "let h = history ord_step cs o' in
    (ord_status h = PendingPayment \<and> ord_events h = [OrderPlaced oid uid rid ls (ord_total o')] \<or>
     ord_status h = Paid \<and> ord_events h = [OrderPlaced oid uid rid ls (ord_total o'), OrderPaid oid uid rid (ord_total o')] \<or>
     ord_status h = Cancelled \<and> ord_events h = [OrderPlaced oid uid rid ls (ord_total o'), OrderCancelled oid uid rid]) \<and>
    (ord_settled h \<longrightarrow> history ord_step (cs @ later) o' = h)"
proof -
  note n = NewOrder_Inr [OF assms] and st = ord_history_story [OF assms, of cs]
  have "ord_settled (history ord_step cs o') \<longrightarrow> history ord_step (cs @ later) o' = history ord_step cs o'"
    using order.settled_history by blast
  with n st show ?thesis by (auto simp: Let_def same_order_def)
qed

theorem order_one_outcome_witness:
  "\<exists>o'. NewOrder ''o'' ''u'' ''r''
      [\<lparr>oln_sku = ''TEE'', oln_quantity = 3, oln_unitPrice = \<lparr>amountMinor = 1050, currency = ''THB''\<rparr>\<rparr>] = Inr o' \<and>
    ord_status (history ord_step [MarkPaidCmd, CancelCmd, MarkPaidCmd] o') = Paid \<and>
    ord_events (history ord_step [MarkPaidCmd, CancelCmd, MarkPaidCmd] o') =
      [OrderPlaced ''o'' ''u'' ''r''
        [\<lparr>oln_sku = ''TEE'', oln_quantity = 3, oln_unitPrice = \<lparr>amountMinor = 1050, currency = ''THB''\<rparr>\<rparr>]
        (ord_total o'), OrderPaid ''o'' ''u'' ''r'' (ord_total o')]"
proof -
  let ?ls = "[\<lparr>oln_sku = ''TEE'', oln_quantity = 3, oln_unitPrice = \<lparr>amountMinor = 1050, currency = ''THB''\<rparr>\<rparr>]"
  have "\<not> isl (NewOrder ''o'' ''u'' ''r'' ?ls)" by code_simp
  then obtain o' where o': "NewOrder ''o'' ''u'' ''r'' ?ls = Inr o'" by (metis sum.collapse(2))
  have "ord_status (history ord_step [MarkPaidCmd, CancelCmd, MarkPaidCmd] o') = Paid"
    using NewOrder_Inr(5) [OF o'] by (simp add: history_def attempt_def ord_moves)
  with order_one_outcome [OF o', of "[MarkPaidCmd, CancelCmd, MarkPaidCmd]" "[]"] o' show ?thesis
    by (auto simp: Let_def)
qed

end
