(* ===== verification/Tables.thy ===== *)
theory Tables
  imports World
begin

text \<open>
  What the statements of every service share: PostgreSQL's errors and \<open>timestamptz\<close>, an
  \<open>UPDATE ... WHERE ... RETURNING\<close> that a unique key limits to one row, and how such an
  update changes the sums the invariants speak of. A table is the list of its rows in insertion
  order, a statement a function from the database to its result and the database it leaves.
\<close>

subsection \<open>Errors of the server\<close>

fun first_pg :: "err \<Rightarrow> (string \<times> string) option" where
  "first_pg (PgErr state con _) = Some (state, con)"
| "first_pg (WrapErr _ e _) = first_pg e"
| "first_pg (JoinErr es) = first_some (map first_pg es)"
| "first_pg (GrpcErr _ c) = first_pg c"
| "first_pg (XErr _ _ _ _ (Some c)) = first_pg c"
| "first_pg _ = None"

definition uniqueViolation :: string where "uniqueViolation = ''23505''"

definition isConstraintViolation :: "err \<Rightarrow> string \<Rightarrow> bool" where
  "isConstraintViolation e con =
     (case first_pg e of None \<Rightarrow> False | Some (state, name) \<Rightarrow> state = uniqueViolation \<and> name = con)"

definition unique_violation :: "string \<Rightarrow> err" where
  "unique_violation con = PgErr uniqueViolation con ''duplicate key value violates unique constraint''"

definition check_violation :: "string \<Rightarrow> err" where
  "check_violation con = PgErr ''23514'' con ''new row violates check constraint''"

definition fk_violation :: "string \<Rightarrow> err" where
  "fk_violation con = PgErr ''23503'' con ''insert violates foreign key constraint''"

definition out_of_range :: err where
  "out_of_range = PgErr ''22003'' [] ''integer out of range''"

lemma isConstraintViolation_unique [simp]:
  "isConstraintViolation (unique_violation con) con' \<longleftrightarrow> con = con'"
  by (simp add: isConstraintViolation_def unique_violation_def)

lemma isConstraintViolation_others [simp]:
  "\<not> isConstraintViolation conn_err con" "\<not> isConstraintViolation NoRows con"
  "\<not> isConstraintViolation out_of_range con" "\<not> isConstraintViolation (check_violation c) con"
  "\<not> isConstraintViolation (fk_violation c) con"
  by (simp_all add: isConstraintViolation_def conn_err_def out_of_range_def check_violation_def
      fk_violation_def uniqueViolation_def)

definition is_NoRows :: "err \<Rightarrow> bool" where
  "is_NoRows e = errors_Is e NoRows"

lemma is_NoRows_simps [simp]:
  "is_NoRows NoRows" "\<not> is_NoRows conn_err" "\<not> is_NoRows out_of_range"
  "\<not> is_NoRows (unique_violation c)" "\<not> is_NoRows (check_violation c)"
  "\<not> is_NoRows (fk_violation c)"
  by (simp_all add: is_NoRows_def conn_err_def out_of_range_def unique_violation_def
      check_violation_def fk_violation_def)

lemma not_NoRows [simp]:
  "conn_err \<noteq> NoRows" "out_of_range \<noteq> NoRows" "unique_violation c \<noteq> NoRows"
  "check_violation c \<noteq> NoRows" "fk_violation c \<noteq> NoRows"
  by (simp_all add: conn_err_def out_of_range_def unique_violation_def check_violation_def fk_violation_def)

text \<open>A \<open>timestamptz\<close> holds microseconds.\<close>

definition pg_time :: "gotime \<Rightarrow> gotime" where
  "pg_time t = (t div 1000) * 1000"

lemma pg_time_le: "pg_time t \<le> t"
proof -
  have "t = t div 1000 * 1000 + t mod 1000" by simp
  moreover have "0 \<le> t mod 1000" by simp
  ultimately show ?thesis unfolding pg_time_def by linarith
qed

lemma pg_time_close: "t < pg_time t + 1000"
proof -
  have "t = t div 1000 * 1000 + t mod 1000" by simp
  moreover have "t mod 1000 < 1000" by simp
  ultimately show ?thesis unfolding pg_time_def by linarith
qed

lemma pg_time_idem [simp]: "pg_time (pg_time t) = pg_time t"
  by (simp add: pg_time_def)

lemma sort_key_constant: "\<forall>x \<in> set xs. f x = c \<Longrightarrow> sort_key f xs = xs"
proof (induction xs)
  case (Cons x xs)
  then show ?case by (cases xs) auto
qed simp

lemma distinct_map_sort [simp]: "distinct (map f (sort_key g xs)) \<longleftrightarrow> distinct (map f xs)"
  by (rule mset_eq_imp_distinct_iff) simp

lemma short_take: "ys = take n xs \<Longrightarrow> length ys < n \<Longrightarrow> ys = xs"
  by (simp add: min_def split: if_splits)

subsection \<open>Updating the one row a key selects\<close>

definition update_one ::
  "('r \<Rightarrow> bool) \<Rightarrow> ('r \<Rightarrow> err + 'r) \<Rightarrow> 'r list \<Rightarrow> err + 'r \<times> 'r list" where
  "update_one P f t =
     (case List.find P t of
        None \<Rightarrow> Inl NoRows
      | Some r \<Rightarrow> (case f r of Inl e \<Rightarrow> Inl e | Inr r' \<Rightarrow> Inr (r', set_where P (\<lambda>_. r') t)))"

lemma update_one_Inr:
  "update_one P f t = Inr (r', t') \<longleftrightarrow>
     (\<exists>r. List.find P t = Some r \<and> f r = Inr r' \<and> t' = set_where P (\<lambda>_. r') t)"
  by (auto simp: update_one_def split: option.splits sum.splits)

lemma update_one_Inl:
  "update_one P f t = Inl e \<longleftrightarrow>
     (List.find P t = None \<and> e = NoRows) \<or> (\<exists>r. List.find P t = Some r \<and> f r = Inl e)"
  by (auto simp: update_one_def split: option.splits sum.splits)

text \<open>The row replaced, given a key that no two rows share and that the predicate fixes.\<close>

definition one_row :: "('r \<Rightarrow> 'k) \<Rightarrow> ('r \<Rightarrow> bool) \<Rightarrow> 'r list \<Rightarrow> bool" where
  "one_row k P t \<longleftrightarrow> distinct (map k t) \<and> (\<exists>v. \<forall>r. P r \<longrightarrow> k r = v)"

lemma one_rowI: "distinct (map k t) \<Longrightarrow> (\<And>r. P r \<Longrightarrow> k r = v) \<Longrightarrow> one_row k P t"
  by (auto simp: one_row_def)

lemma one_row_split:
  assumes "one_row k P t" and "r \<in> set t" and "P r"
  obtains a b where "t = a @ r # b" "\<And>x. x \<in> set a \<union> set b \<Longrightarrow> \<not> P x" "\<And>x. x \<in> set a \<union> set b \<Longrightarrow> k x \<noteq> k r"
proof -
  from assms(2) obtain a b where t: "t = a @ r # b" by (meson split_list)
  from assms(1) t have "\<And>x. x \<in> set a \<union> set b \<Longrightarrow> k x \<noteq> k r"
    by (auto simp: one_row_def image_iff)
  moreover from assms(1,3) have "\<And>x. P x \<Longrightarrow> k x = k r" by (metis one_row_def)
  ultimately show ?thesis using t that by blast
qed

lemma set_where_one:
  assumes "one_row k P t" and "r \<in> set t" and "P r"
  obtains a b where "t = a @ r # b" "set_where P (\<lambda>_. r') t = a @ r' # b"
    "\<And>x. x \<in> set a \<union> set b \<Longrightarrow> k x \<noteq> k r"
proof -
  obtain a b where t: "t = a @ r # b" and no: "\<And>x. x \<in> set a \<union> set b \<Longrightarrow> \<not> P x"
    and k: "\<And>x. x \<in> set a \<union> set b \<Longrightarrow> k x \<noteq> k r"
    using one_row_split [OF assms] by blast
  have "set_where P (\<lambda>_. r') t = set_where P (\<lambda>_. r') a @ r' # set_where P (\<lambda>_. r') b"
    using t assms(3) by (simp add: set_where_def)
  also have "\<dots> = a @ r' # b" using no by (simp add: set_where_none)
  finally show ?thesis using t k that by blast
qed

lemma find_mem: "List.find P t = Some r \<Longrightarrow> r \<in> set t \<and> P r"
  by (induction t) (auto split: if_splits)

lemma update_one_split:
  assumes "one_row k P t" and "update_one P f t = Inr (r', t')"
  obtains r a b where "P r" "f r = Inr r'" "t = a @ r # b" "t' = a @ r' # b"
    "\<forall>x \<in> set a \<union> set b. k x \<noteq> k r"
proof -
  from assms(2) obtain r where f: "List.find P t = Some r" "f r = Inr r'" "t' = set_where P (\<lambda>_. r') t"
    by (auto simp: update_one_Inr)
  from find_mem [OF f(1)] have r: "r \<in> set t" "P r" by auto
  obtain a b where "t = a @ r # b" "set_where P (\<lambda>_. r') t = a @ r' # b"
      "\<And>x. x \<in> set a \<union> set b \<Longrightarrow> k x \<noteq> k r"
    using set_where_one [OF assms(1) r] by blast
  with f r that show ?thesis by blast
qed

lemma update_one_found:
  assumes "one_row k P t" and "r \<in> set t" and "P r"
  shows "List.find P t = Some r"
proof -
  obtain a b where t: "t = a @ r # b" and no: "\<And>x. x \<in> set a \<union> set b \<Longrightarrow> \<not> P x"
    and k: "\<And>x. x \<in> set a \<union> set b \<Longrightarrow> k x \<noteq> k r"
    using one_row_split [OF assms] by blast
  have "List.find P (a @ r # b) = Some r" using no assms(3) by (induction a) auto
  with t show ?thesis by simp
qed

end
