(* ===== verification/Messaging.thy ===== *)
theory Messaging
  imports Tables
begin

text \<open>
  \<open>pkg/inbox\<close>, \<open>pkg/outbox\<close>, \<open>pkg/events\<close> and \<open>pkg/kafkax\<close>: how a service
  announces what it did and how it refuses to act on one delivery twice. The two tables are the
  first fields of every service's database, so each statement here works on any extension of
  \<open>msg_db\<close>. A protobuf message is the record or constructor of its fields; protobuf's wire
  format, an \<open>Any\<close> inside it included, is the argument \<open>codec\<close>. What the broker does is
  an argument too: a function on whatever the gateways reach.
\<close>

subsection \<open>The tables\<close>

record outbox_row =
  ob_ID :: int
  ob_AggregateType :: gostring
  ob_AggregateID :: gostring
  ob_EventType :: gostring
  ob_Topic :: gostring
  ob_Payload :: gostring
  ob_Headers :: "(gostring \<times> gostring) list"
  ob_CreatedAt :: gotime
  ob_PublishedAt :: "gotime option"

record inbox_row =
  pe_ConsumerGroup :: gostring
  pe_EventID :: gostring
  pe_ProcessedAt :: gotime

record msg_db =
  outbox :: "outbox_row list"
  outbox_next :: int
  processed_events :: "inbox_row list"
  db_now :: gotime

subsection \<open>The inbox\<close>

definition ErrIncompleteClaim :: err where
  "ErrIncompleteClaim = PlainErr ''inbox: incomplete claim''"

definition inbox_validate :: "gostring \<Rightarrow> gostring \<Rightarrow> err + unit" where
  "inbox_validate grp event_id =
     (let missing = (if grp = [] then [''consumer group''] else []) @
                    (if event_id = [] then [''event ID''] else [])
      in if missing \<noteq> [] then Inl (WrapErr [] ErrIncompleteClaim ('': '' @ join_sep '', '' missing))
         else Inr ())"

text \<open>\<open>INSERT ... ON CONFLICT DO NOTHING\<close>, answering the number of rows it wrote.\<close>

definition sql_ClaimEvent :: "gostring \<Rightarrow> gostring \<Rightarrow> 'z msg_db_scheme \<Rightarrow> (err + int) \<times> 'z msg_db_scheme" where
  "sql_ClaimEvent grp event_id db =
     (if (grp, event_id) \<in> set (map (\<lambda>r. (pe_ConsumerGroup r, pe_EventID r)) (processed_events db))
      then (Inr 0, db)
      else (Inr 1, db\<lparr>processed_events := processed_events db @
              [\<lparr>pe_ConsumerGroup = grp, pe_EventID = event_id, pe_ProcessedAt = db_now db\<rparr>]\<rparr>))"

definition inbox_Claim :: "gostring \<Rightarrow> gostring \<Rightarrow> ('z msg_db_scheme, 'w, bool) op" where
  "inbox_Claim grp event_id =
     andThen (pure_op (inbox_validate grp event_id)) (\<lambda>_.
     andThen (mapErr (\<lambda>e. WrapErr (''inbox: claim event '' @ event_id @ '' for '' @ grp @ '': '') e [])
               (sql (sql_ClaimEvent grp event_id)))
       (\<lambda>affected. ret (affected = 1)))"

definition claimed_by :: "'z msg_db_scheme \<Rightarrow> gostring \<Rightarrow> gostring \<Rightarrow> bool" where
  "claimed_by db grp event_id \<longleftrightarrow>
     (grp, event_id) \<in> set (map (\<lambda>r. (pe_ConsumerGroup r, pe_EventID r)) (processed_events db))"

lemma inbox_Claim_Inr:
  assumes "inbox_Claim grp event_id s = (Inr took, s')"
  shows "took = (\<not> claimed_by (w_db s) grp event_id)" "claimed_by (w_db s') grp event_id"
    "w_db s' = (w_db s)\<lparr>processed_events := processed_events (w_db s')\<rparr>"
    "\<not> took \<Longrightarrow> w_db s' = w_db s" "w_ext s' = w_ext s" "w_tx s' = w_tx s"
proof -
  from assms have "\<exists>n. sql (sql_ClaimEvent grp event_id) s = (Inr n, s') \<and> took = (n = 1)"
    by (auto simp: inbox_Claim_def op_inv)
  then obtain n where n: "sql (sql_ClaimEvent grp event_id) s = (Inr n, s')" "took = (n = 1)" by blast
  from sql_success [OF n(1)] have
    st: "sql_ClaimEvent grp event_id (w_db s) = (Inr n, w_db s')" "w_ext s' = w_ext s" "w_tx s' = w_tx s"
    by auto
  from st(1) have r: "Inr n = fst (sql_ClaimEvent grp event_id (w_db s))"
    and d: "w_db s' = snd (sql_ClaimEvent grp event_id (w_db s))" by simp_all
  show "took = (\<not> claimed_by (w_db s) grp event_id)"
    using r n(2) by (auto simp: sql_ClaimEvent_def claimed_by_def split: if_splits)
  show "claimed_by (w_db s') grp event_id"
    unfolding d by (auto simp: sql_ClaimEvent_def claimed_by_def)
  show "w_db s' = (w_db s)\<lparr>processed_events := processed_events (w_db s')\<rparr>"
    unfolding d by (auto simp: sql_ClaimEvent_def)
  show "\<not> took \<Longrightarrow> w_db s' = w_db s"
    using r n(2) unfolding d by (auto simp: sql_ClaimEvent_def split: if_splits)
  show "w_ext s' = w_ext s" "w_tx s' = w_tx s" by (fact st)+
qed

lemma keeps_inbox [keeps]: "keeps_tx (inbox_Claim g e)"
  unfolding inbox_Claim_def by (intro keeps)

subsection \<open>Writing to the outbox\<close>

definition ErrIncompleteRecord :: err where
  "ErrIncompleteRecord = PlainErr ''outbox: incomplete record''"

record OutboxRecord =
  rec_AggregateType :: gostring
  rec_AggregateID :: gostring
  rec_EventType :: gostring
  rec_Topic :: gostring
  rec_Payload :: gostring
  rec_Headers :: "(gostring \<times> gostring) list"

definition rec_validate :: "OutboxRecord \<Rightarrow> err + unit" where
  "rec_validate r =
     (let missing = map fst (filter snd
        [(''AggregateType'', rec_AggregateType r = []), (''AggregateID'', rec_AggregateID r = []),
         (''EventType'', rec_EventType r = []), (''Topic'', rec_Topic r = []),
         (''Payload'', rec_Payload r = [])])
      in if missing \<noteq> [] then Inl (WrapErr [] ErrIncompleteRecord ('': '' @ join_sep '', '' missing))
         else Inr ())"

text \<open>The loop that builds the statement: it stops at the first record that does not validate.
  Marshalling a map of strings to JSON does not fail, and the \<open>jsonb\<close> column holds the map.\<close>

fun validate_records :: "nat \<Rightarrow> OutboxRecord list \<Rightarrow> err + unit" where
  "validate_records i [] = Inr ()"
| "validate_records i (r # rs) =
     (case rec_validate r of
        Inl e \<Rightarrow> Inl (WrapErr (''outbox: record '' @ show_nat i @ '': '') e [])
      | Inr _ \<Rightarrow> validate_records (i + 1) rs)"

definition outbox_row_of :: "gotime \<Rightarrow> int \<Rightarrow> OutboxRecord \<Rightarrow> outbox_row" where
  "outbox_row_of now i r =
     \<lparr>ob_ID = i, ob_AggregateType = rec_AggregateType r, ob_AggregateID = rec_AggregateID r,
      ob_EventType = rec_EventType r, ob_Topic = rec_Topic r, ob_Payload = rec_Payload r,
      ob_Headers = rec_Headers r, ob_CreatedAt = now, ob_PublishedAt = None\<rparr>"

text \<open>One \<open>INSERT\<close> of every record; the identity column numbers the rows in order.\<close>

definition sql_WriteOutbox :: "OutboxRecord list \<Rightarrow> 'z msg_db_scheme \<Rightarrow> (err + unit) \<times> 'z msg_db_scheme" where
  "sql_WriteOutbox rs db =
     (Inr (), db\<lparr>outbox := outbox db @
        map (\<lambda>(i, r). outbox_row_of (db_now db) (outbox_next db + int i) r) (enumerate 0 rs),
        outbox_next := outbox_next db + int (length rs)\<rparr>)"

definition outbox_Write :: "OutboxRecord list \<Rightarrow> ('z msg_db_scheme, 'w, unit) op" where
  "outbox_Write rs =
     (if rs = [] then ret ()
      else andThen (pure_op (validate_records 0 rs)) (\<lambda>_.
        mapErr (\<lambda>e. WrapErr (''outbox: write '' @ show_int (int (length rs)) @ '' record(s): '') e [])
          (sql (sql_WriteOutbox rs))))"

lemma outbox_Write_Inr:
  assumes "outbox_Write rs s = (Inr u, s')"
  shows "w_db s' = (if rs = [] then w_db s else snd (sql_WriteOutbox rs (w_db s)))"
    "w_ext s' = w_ext s" "w_tx s' = w_tx s"
  using assms
  by (auto simp: outbox_Write_def op_inv sql_WriteOutbox_def split: if_splits dest!: sql_success)

lemma keeps_outbox [keeps]: "keeps_tx (outbox_Write rs)"
  unfolding outbox_Write_def by (intro keeps)

subsection \<open>Events\<close>

record pb_Money =
  mny_AmountMinor :: int
  mny_CurrencyCode :: gostring

record pb_EventLine =
  evl_Sku :: gostring
  evl_Quantity :: int
  evl_UnitPrice :: pb_Money

datatype pb_event =
  PbOrderPlaced gostring gostring gostring "pb_EventLine list" pb_Money gotime
| PbOrderPaid gostring gostring gostring pb_Money gotime
| PbOrderCancelled gostring gostring gostring gotime
| PbPaymentSucceeded gostring gostring gostring pb_Money gostring gotime
| PbPaymentFailed gostring gostring gostring pb_Money gostring gotime
| PbUserRegistered gostring gostring "gostring list" gotime

record Envelope =
  env_EventId :: gostring
  env_EventType :: gostring
  env_AggregateId :: gostring
  env_Version :: int
  env_OccurredAt :: gotime
  env_CorrelationId :: gostring
  env_Traceparent :: gostring
  env_Payload :: "pb_event option"

record codec =
  cd_Marshal :: "Envelope \<Rightarrow> err + gostring"
  cd_Unmarshal :: "gostring \<Rightarrow> err + Envelope"

text \<open>What protobuf documents: what it marshalled, it unmarshals to the same message.\<close>

definition codec_ok :: "codec \<Rightarrow> bool" where
  "codec_ok C \<longleftrightarrow> (\<forall>e b. cd_Marshal C e = Inr b \<longrightarrow> cd_Unmarshal C b = Inr e)"

text \<open>A codec that knows the messages of a list.\<close>

definition table_codec :: "Envelope list \<Rightarrow> codec" where
  "table_codec es =
     \<lparr>cd_Marshal = (\<lambda>e. if e \<in> set es then Inr (show_nat (length (takeWhile (\<lambda>x. x \<noteq> e) es)))
                        else Inl (PlainErr ''proto: invalid UTF-8'')),
      cd_Unmarshal = (\<lambda>b. if read_nat b < length es then Inr (es ! read_nat b)
                          else Inl (PlainErr ''proto: cannot parse''))\<rparr>"

lemma table_codec_ok: "codec_ok (table_codec es)"
proof -
  have "length (takeWhile (\<lambda>x. x \<noteq> e) es) < length es \<and> es ! length (takeWhile (\<lambda>x. x \<noteq> e) es) = e"
    if "e \<in> set es" for e
    using that by (induction es) auto
  then show ?thesis
    by (auto simp: codec_ok_def table_codec_def read_show_nat simp del: read_nat.simps split: if_splits)
qed

definition ErrIncompleteFact :: err where
  "ErrIncompleteFact = PlainErr ''events: incomplete fact''"

record Fact =
  fact_AggregateType :: gostring
  fact_AggregateID :: gostring
  fact_EventType :: gostring
  fact_Topic :: gostring
  fact_Version :: int
  fact_OccurredAt :: gotime
  fact_Payload :: "pb_event option"

definition fact_validate :: "Fact \<Rightarrow> err + unit" where
  "fact_validate f =
     (let missing = map fst (filter snd
        [(''AggregateType'', fact_AggregateType f = []), (''AggregateID'', fact_AggregateID f = []),
         (''EventType'', fact_EventType f = []), (''Topic'', fact_Topic f = []),
         (''OccurredAt'', fact_OccurredAt f = 0), (''Payload'', fact_Payload f = None)])
      in if missing \<noteq> [] then Inl (WrapErr [] ErrIncompleteFact ('': '' @ join_sep '', '' missing))
         else Inr ())"

text \<open>\<open>carry\<close> reads the headers off the context: the map it answers is an argument, and so
  is the event id that is minted.\<close>

definition header :: "(gostring \<times> gostring) list \<Rightarrow> gostring \<Rightarrow> gostring" where
  "header hs k = (case map_of hs k of None \<Rightarrow> [] | Some v \<Rightarrow> v)"

definition events_Record ::
  "codec \<Rightarrow> (gostring \<times> gostring) list \<Rightarrow> gostring \<Rightarrow> Fact \<Rightarrow> err + OutboxRecord" where
  "events_Record C headers event_id f =
     (case fact_validate f of
        Inl e \<Rightarrow> Inl e
      | Inr _ \<Rightarrow>
          (case cd_Marshal C
             \<lparr>env_EventId = event_id, env_EventType = fact_EventType f,
              env_AggregateId = fact_AggregateID f, env_Version = fact_Version f,
              env_OccurredAt = fact_OccurredAt f, env_CorrelationId = header headers ''correlation_id'',
              env_Traceparent = header headers ''traceparent'', env_Payload = fact_Payload f\<rparr> of
             Inl e \<Rightarrow> Inl (WrapErr (''events: marshal '' @ fact_EventType f @ '' envelope: '') e [])
           | Inr encoded \<Rightarrow> Inr
               \<lparr>rec_AggregateType = fact_AggregateType f, rec_AggregateID = fact_AggregateID f,
                rec_EventType = fact_EventType f, rec_Topic = fact_Topic f, rec_Payload = encoded,
                rec_Headers = headers\<rparr>))"

definition events_Decode :: "codec \<Rightarrow> gostring \<Rightarrow> err + Envelope" where
  "events_Decode C payload =
     (case cd_Unmarshal C payload of
        Inl e \<Rightarrow> Inl (WrapErr ''events: unmarshal envelope: '' e [])
      | Inr env \<Rightarrow> Inr env)"

lemma events_Record_Inr:
  assumes "codec_ok C" and "events_Record C hs event_id f = Inr r"
  obtains env where "events_Decode C (rec_Payload r) = Inr env" "env_EventId env = event_id"
    "env_EventType env = fact_EventType f" "env_AggregateId env = fact_AggregateID f"
    "env_Version env = fact_Version f" "env_Payload env = fact_Payload f"
    "rec_AggregateID r = fact_AggregateID f" "rec_EventType r = fact_EventType f" "rec_Topic r = fact_Topic f"
  using assms
  by (auto simp: events_Record_def events_Decode_def codec_ok_def split: sum.splits)

end
