(* ===== verification/OrdStore.thy ===== *)
theory OrdStore
  imports OrdDomain Messaging
begin

text \<open>
  \<open>services/order/internal/adapter/out/postgres\<close> and the statements of
  \<open>services/order/db\<close> it runs: the tables of the order service with their constraints, one
  function per statement, and the three stores over them. The outbox and the inbox are the
  tables of \<open>Messaging\<close>. What a call takes from its surroundings, the uuid library, the
  protobuf codec, the headers carried for tracing and the identifiers it mints, is a record.
\<close>

subsection \<open>The tables\<close>

record ord_row =
  or_ID :: gostring
  or_UserID :: gostring
  or_Status :: string
  or_TotalAmountMinor :: int
  or_TotalCurrency :: gostring
  or_ReservationID :: gostring
  or_CreatedAt :: gotime
  or_UpdatedAt :: gotime
  or_Version :: int

record oline_row =
  ol_ID :: gostring
  ol_OrderID :: gostring
  ol_Sku :: gostring
  ol_Quantity :: int
  ol_UnitPriceAmountMinor :: int
  ol_UnitPriceCurrency :: gostring
  ol_CreatedAt :: gotime

record idem_row =
  ik_UserID :: gostring
  ik_Key :: gostring
  ik_RequestHash :: gostring
  ik_OrderID :: gostring
  ik_CreatedAt :: gotime

record ord_db = msg_db +
  orders :: "ord_row list"
  order_lines :: "oline_row list"
  idempotency_keys :: "idem_row list"
  ord_collate :: "gostring \<Rightarrow> gostring"

type_synonym 'a ord_stmt = "ord_db \<Rightarrow> (err + 'a) \<times> ord_db"

definition known_ord_status :: "string \<Rightarrow> bool" where
  "known_ord_status s \<longleftrightarrow> s \<in> {''pending_payment'', ''paid'', ''cancelled''}"

definition currency_text :: "gostring \<Rightarrow> bool" where
  "currency_text s \<longleftrightarrow> length s = 3 \<and> list_all is_upper s"

subsection \<open>Statements on orders\<close>

definition sql_CreateOrder ::
  "gostring \<Rightarrow> gostring \<Rightarrow> string \<Rightarrow> int \<Rightarrow> gostring \<Rightarrow> gostring \<Rightarrow> ord_row ord_stmt" where
  "sql_CreateOrder uid userID status amount cur reservationID db =
     (if \<not> known_ord_status status then (Inl (check_violation ''orders_status_check''), db)
      else if amount < 0 then (Inl (check_violation ''orders_total_amount_minor_check''), db)
      else if \<not> currency_text cur then (Inl (check_violation ''orders_total_currency_check''), db)
      else if uid \<in> set (map or_ID (orders db)) then (Inl (unique_violation ''orders_pkey''), db)
      else if reservationID \<in> set (map or_ReservationID (orders db))
      then (Inl (unique_violation ''orders_reservation_idx''), db)
      else let r = \<lparr>or_ID = uid, or_UserID = userID, or_Status = status, or_TotalAmountMinor = amount,
                    or_TotalCurrency = cur, or_ReservationID = reservationID, or_CreatedAt = db_now db,
                    or_UpdatedAt = db_now db, or_Version = 1\<rparr>
           in (Inr r, db\<lparr>orders := orders db @ [r]\<rparr>))"

definition sql_CreateOrderLine ::
  "gostring \<Rightarrow> gostring \<Rightarrow> gostring \<Rightarrow> int \<Rightarrow> int \<Rightarrow> gostring \<Rightarrow> oline_row ord_stmt" where
  "sql_CreateOrderLine uid orderID sku quantity amount cur db =
     (if ToUpper sku \<noteq> sku then (Inl (check_violation ''order_lines_sku_check''), db)
      else if quantity \<le> 0 then (Inl (check_violation ''order_lines_quantity_check''), db)
      else if amount < 0 then (Inl (check_violation ''order_lines_unit_price_amount_minor_check''), db)
      else if \<not> currency_text cur
      then (Inl (check_violation ''order_lines_unit_price_currency_check''), db)
      else if uid \<in> set (map ol_ID (order_lines db)) then (Inl (unique_violation ''order_lines_pkey''), db)
      else if (orderID, sku) \<in> set (map (\<lambda>l. (ol_OrderID l, ol_Sku l)) (order_lines db))
      then (Inl (unique_violation ''order_lines_order_id_sku_key''), db)
      else if orderID \<notin> set (map or_ID (orders db))
      then (Inl (fk_violation ''order_lines_order_id_fkey''), db)
      else let l = \<lparr>ol_ID = uid, ol_OrderID = orderID, ol_Sku = sku, ol_Quantity = quantity,
                    ol_UnitPriceAmountMinor = amount, ol_UnitPriceCurrency = cur,
                    ol_CreatedAt = db_now db\<rparr>
           in (Inr l, db\<lparr>order_lines := order_lines db @ [l]\<rparr>))"

definition sql_GetOrder :: "gostring \<Rightarrow> ord_row ord_stmt" where
  "sql_GetOrder uid db =
     (case List.find (\<lambda>r. or_ID r = uid) (orders db) of
        None \<Rightarrow> (Inl NoRows, db) | Some r \<Rightarrow> (Inr r, db))"

text \<open>\<open>FOR UPDATE\<close> reads the row and keeps it locked until the transaction ends.\<close>

definition sql_GetOrderForUpdate :: "gostring \<Rightarrow> ord_row ord_stmt" where
  "sql_GetOrderForUpdate uid db =
     (case List.find (\<lambda>r. or_ID r = uid) (orders db) of
        None \<Rightarrow> (Inl NoRows, db) | Some r \<Rightarrow> (Inr r, db))"

definition sql_GetOrderLines :: "gostring \<Rightarrow> oline_row list ord_stmt" where
  "sql_GetOrderLines orderID db =
     (Inr (sort_key (\<lambda>l. ord_collate db (ol_Sku l))
        (filter (\<lambda>l. ol_OrderID l = orderID) (order_lines db))), db)"

definition sql_GetOrderLinesByOrderIDs :: "gostring list \<Rightarrow> oline_row list ord_stmt" where
  "sql_GetOrderLinesByOrderIDs ids db =
     (Inr (sort_key ol_OrderID (sort_key (\<lambda>l. ord_collate db (ol_Sku l))
        (filter (\<lambda>l. ol_OrderID l \<in> set ids) (order_lines db)))), db)"

text \<open>The row comparison \<open>(created_at, id) < (cursor)\<close>, and no cursor as the largest pair.\<close>

definition before_cursor :: "(gotime \<times> gostring) option \<Rightarrow> ord_row \<Rightarrow> bool" where
  "before_cursor cur r =
     (case cur of None \<Rightarrow> True
      | Some (t, i) \<Rightarrow> or_CreatedAt r < pg_time t \<or> (or_CreatedAt r = pg_time t \<and> or_ID r < i))"

definition sql_ListOrdersByUser ::
  "gostring \<Rightarrow> (gotime \<times> gostring) option \<Rightarrow> int \<Rightarrow> ord_row list ord_stmt" where
  "sql_ListOrdersByUser userID cur row_limit db =
     (Inr (take (nat row_limit) (rev (sort_key or_CreatedAt (sort_key or_ID
        (filter (\<lambda>r. or_UserID r = userID \<and> before_cursor cur r) (orders db)))))), db)"

text \<open>\<open>SKIP LOCKED\<close>: the rows other transactions hold locked are an argument.\<close>

definition sql_ClaimStaleOrders :: "gostring list \<Rightarrow> gotime \<Rightarrow> int \<Rightarrow> ord_row list ord_stmt" where
  "sql_ClaimStaleOrders locked createdBefore row_limit db =
     (Inr (take (nat row_limit) (sort_key or_CreatedAt
        (filter (\<lambda>r. or_Status r = ''pending_payment'' \<and> or_CreatedAt r \<le> pg_time createdBefore \<and>
            or_ID r \<notin> set locked) (orders db)))), db)"

definition sql_UpdateOrderStatus :: "gostring \<Rightarrow> int \<Rightarrow> string \<Rightarrow> ord_row ord_stmt" where
  "sql_UpdateOrderStatus uid version status db =
     (case update_one (\<lambda>r. or_ID r = uid \<and> or_Version r = version)
        (\<lambda>r. if \<not> int4 (or_Version r + 1) then Inl out_of_range
             else if \<not> known_ord_status status then Inl (check_violation ''orders_status_check'')
             else Inr (r\<lparr>or_Status := status, or_UpdatedAt := db_now db, or_Version := or_Version r + 1\<rparr>))
        (orders db) of
        Inl e \<Rightarrow> (Inl e, db)
      | Inr (r, t) \<Rightarrow> (Inr r, db\<lparr>orders := t\<rparr>))"

subsection \<open>Statements on idempotency keys\<close>

definition sql_ClaimIdempotencyKey ::
  "gostring \<Rightarrow> gostring \<Rightarrow> gostring \<Rightarrow> gostring \<Rightarrow> idem_row ord_stmt" where
  "sql_ClaimIdempotencyKey userID key hash orderID db =
     (if (userID, key) \<in> set (map (\<lambda>k. (ik_UserID k, ik_Key k)) (idempotency_keys db))
      then (Inl NoRows, db)
      else let k = \<lparr>ik_UserID = userID, ik_Key = key, ik_RequestHash = hash, ik_OrderID = orderID,
                    ik_CreatedAt = db_now db\<rparr>
           in (Inr k, db\<lparr>idempotency_keys := idempotency_keys db @ [k]\<rparr>))"

definition sql_GetIdempotencyKey :: "gostring \<Rightarrow> gostring \<Rightarrow> idem_row ord_stmt" where
  "sql_GetIdempotencyKey userID key db =
     (case List.find (\<lambda>k. (ik_UserID k, ik_Key k) = (userID, key)) (idempotency_keys db) of
        None \<Rightarrow> (Inl NoRows, db) | Some k \<Rightarrow> (Inr k, db))"

definition sql_DeleteExpiredIdempotencyKeys :: "gotime \<Rightarrow> int ord_stmt" where
  "sql_DeleteExpiredIdempotencyKeys t db =
     (Inr (int (length (filter (\<lambda>k. ik_CreatedAt k < pg_time t) (idempotency_keys db)))),
      db\<lparr>idempotency_keys := filter (\<lambda>k. \<not> ik_CreatedAt k < pg_time t) (idempotency_keys db)\<rparr>)"

subsection \<open>The idempotency store\<close>

type_synonym ('w, 'a) ord_op = "(ord_db, 'w, 'a) op"

text \<open>What the process mints: the id of the \<open>i\<close>-th line of an order, and of the \<open>i\<close>-th event that
  a version of an order raises.\<close>

record ord_env =
  oe_U :: uuid_lib
  oe_C :: codec
  oe_headers :: "(gostring \<times> gostring) list"
  oe_event_id :: "gostring \<Rightarrow> int \<Rightarrow> nat \<Rightarrow> gostring"
  oe_line_id :: "gostring \<Rightarrow> nat \<Rightarrow> gostring"

definition ord_parseID :: "uuid_lib \<Rightarrow> string \<Rightarrow> gostring \<Rightarrow> err + gostring" where
  "ord_parseID U what s =
     (case uuid_Parse U s of
        Inl e \<Rightarrow> Inl (wrap e KindInternal (''parse '' @ what))
      | Inr u \<Rightarrow> Inr u)"

record Claim =
  cl_RequestHash :: gostring
  cl_OrderID :: gostring

definition claimOf :: "idem_row \<Rightarrow> Claim" where
  "claimOf k = \<lparr>cl_RequestHash = ik_RequestHash k, cl_OrderID = ik_OrderID k\<rparr>"

definition idem_Find :: "uuid_lib \<Rightarrow> gostring \<Rightarrow> gostring \<Rightarrow> ('w, Claim option) ord_op" where
  "idem_Find U userID key =
     andThen (pure_op (ord_parseID U ''user id'' userID)) (\<lambda>uid.
     withResult (sql (sql_GetIdempotencyKey uid key)) (\<lambda>r. case r of
        Inr k \<Rightarrow> ret (Some (claimOf k))
      | Inl e \<Rightarrow> if is_NoRows e then ret None
                 else fail (wrap e KindInternal ''read idempotency key'')))"

definition idem_Claim ::
  "uuid_lib \<Rightarrow> gostring \<Rightarrow> gostring \<Rightarrow> gostring \<Rightarrow> gostring \<Rightarrow> ('w, Claim \<times> bool) ord_op" where
  "idem_Claim U userID key hash orderID =
     andThen (pure_op (ord_parseID U ''user id'' userID)) (\<lambda>user.
     andThen (pure_op (ord_parseID U ''order id'' orderID)) (\<lambda>ord.
     withResult (sql (sql_ClaimIdempotencyKey user key hash ord)) (\<lambda>r. case r of
        Inr k \<Rightarrow> ret (claimOf k, True)
      | Inl e \<Rightarrow>
          if \<not> is_NoRows e then fail (wrap e KindInternal ''claim idempotency key'')
          else withResult (sql (sql_GetIdempotencyKey user key)) (\<lambda>r. case r of
              Inl e \<Rightarrow> fail (wrap e KindInternal ''read the claim that won'')
            | Inr existing \<Rightarrow> ret (claimOf existing, False)))))"

definition ord_inbox_Claim :: "gostring \<Rightarrow> gostring \<Rightarrow> ('w, bool) ord_op" where
  "ord_inbox_Claim grp event_id =
     mapErr (\<lambda>e. wrap e KindInternal ''claim event'') (inbox_Claim grp event_id)"

subsection \<open>The order repository\<close>

definition ord_toDomain :: "ord_row \<Rightarrow> oline_row list \<Rightarrow> Order" where
  "ord_toDomain row ls =
     ReconstituteOrder
       \<lparr>os_ID = or_ID row, os_UserID = or_UserID row, os_Status = OrderStatus_of (or_Status row),
        os_Lines = map (\<lambda>l. \<lparr>oln_sku = ol_Sku l, oln_quantity = ol_Quantity l,
           oln_unitPrice = \<lparr>amountMinor = ol_UnitPriceAmountMinor l, currency = ol_UnitPriceCurrency l\<rparr>\<rparr>) ls,
        os_Total = \<lparr>amountMinor = or_TotalAmountMinor row, currency = or_TotalCurrency row\<rparr>,
        os_ReservationID = or_ReservationID row, os_CreatedAt = or_CreatedAt row,
        os_UpdatedAt = or_UpdatedAt row, os_Version = or_Version row\<rparr>"

definition pb_money :: "Money \<Rightarrow> pb_Money" where
  "pb_money m = \<lparr>mny_AmountMinor = amountMinor m, mny_CurrencyCode = currency m\<rparr>"

fun ord_toPayload :: "OrderEvent \<Rightarrow> ord_row \<Rightarrow> pb_event" where
  "ord_toPayload (OrderPlaced oid uid rid ls tot) row =
     PbOrderPlaced oid uid rid
       (map (\<lambda>l. \<lparr>evl_Sku = oln_sku l, evl_Quantity = clamp32 (oln_quantity l),
                  evl_UnitPrice = pb_money (oln_unitPrice l)\<rparr>) ls) (pb_money tot) (or_CreatedAt row)"
| "ord_toPayload (OrderPaid oid uid rid tot) row = PbOrderPaid oid uid rid (pb_money tot) (or_UpdatedAt row)"
| "ord_toPayload (OrderCancelled oid uid rid) row = PbOrderCancelled oid uid rid (or_UpdatedAt row)"

definition ord_fact :: "ord_row \<Rightarrow> OrderEvent \<Rightarrow> Fact" where
  "ord_fact row e =
     \<lparr>fact_AggregateType = ''order'', fact_AggregateID = or_ID row, fact_EventType = ord_EventName e,
      fact_Topic = ''ecommerce.order.events.v1'', fact_Version = or_Version row,
      fact_OccurredAt = or_UpdatedAt row, fact_Payload = Some (ord_toPayload e row)\<rparr>"

definition ord_record :: "ord_env \<Rightarrow> ord_row \<Rightarrow> nat \<times> OrderEvent \<Rightarrow> err + OutboxRecord" where
  "ord_record E row ie =
     (case events_Record (oe_C E) (oe_headers E) (oe_event_id E (or_ID row) (or_Version row) (fst ie)) (ord_fact row (snd ie)) of
        Inl e \<Rightarrow> Inl (wrap e KindInternal (''build '' @ ord_EventName (snd ie) @ '' event''))
      | Inr r \<Rightarrow> Inr r)"

definition ord_writeEvents :: "ord_env \<Rightarrow> Order \<Rightarrow> ord_row \<Rightarrow> ('w, unit) ord_op" where
  "ord_writeEvents E o' row =
     (let pulled = fst (PullEvents o') in
      if pulled = [] then ret ()
      else andThen (pure_op (map_res (ord_record E row) (enumerate 0 pulled))) (\<lambda>records.
        mapErr (\<lambda>e. wrap e KindInternal ''write events to the outbox'') (outbox_Write records)))"

definition orders_Create :: "ord_env \<Rightarrow> Order \<Rightarrow> ('w, Order) ord_op" where
  "orders_Create E o' =
     (let snap = ord_Snapshot o'; U = oe_U E in
      andThen (pure_op (ord_parseID U ''order id'' (os_ID snap))) (\<lambda>uid.
      andThen (pure_op (ord_parseID U ''user id'' (os_UserID snap))) (\<lambda>userID.
      andThen (pure_op (ord_parseID U ''reservation id'' (os_ReservationID snap))) (\<lambda>reservationID.
      andThen (mapErr (\<lambda>e. wrap e KindInternal ''create order'')
        (sql (sql_CreateOrder uid userID (ord_status_text (os_Status snap))
           (amountMinor (os_Total snap)) (currency (os_Total snap)) reservationID))) (\<lambda>row.
      andThen (map_each (\<lambda>(i, line).
          mapErr (\<lambda>e. wrap e KindInternal ''create order line'')
            (sql (sql_CreateOrderLine (oe_line_id E uid i) uid (oln_sku line) (clamp32 (oln_quantity line))
               (amountMinor (oln_unitPrice line)) (currency (oln_unitPrice line)))))
          (enumerate 0 (os_Lines snap))) (\<lambda>ls.
      andThen (ord_writeEvents E o' row) (\<lambda>_. ret (ord_toDomain row ls))))))))"

definition orders_Update :: "ord_env \<Rightarrow> Order \<Rightarrow> ('w, Order) ord_op" where
  "orders_Update E o' =
     (let snap = ord_Snapshot o' in
      andThen (pure_op (ord_parseID (oe_U E) ''order id'' (os_ID snap))) (\<lambda>uid.
      withResult (sql (sql_UpdateOrderStatus uid (clamp32 (os_Version snap)) (ord_status_text (os_Status snap))))
        (\<lambda>r. case r of
           Inl e \<Rightarrow>
             if is_NoRows e
             then fail (WithReason (wrap e KindConflict ''order was modified concurrently'') ''ORDER_MODIFIED'')
             else fail (wrap e KindInternal ''update order'')
         | Inr row \<Rightarrow>
             andThen (ord_writeEvents E o' row) (\<lambda>_.
             andThen (mapErr (\<lambda>e. wrap e KindInternal ''get order lines'') (sql (sql_GetOrderLines uid)))
               (\<lambda>ls. ret (ord_toDomain row ls))))))"

definition orders_FindByID :: "uuid_lib \<Rightarrow> gostring \<Rightarrow> ('w, Order) ord_op" where
  "orders_FindByID U oid =
     andThen (pure_op (ord_parseID U ''order id'' oid)) (\<lambda>uid.
     withResult (sql (sql_GetOrder uid)) (\<lambda>r. case r of
        Inl e \<Rightarrow> if is_NoRows e then fail ErrOrderNotFound else fail (wrap e KindInternal ''get order'')
      | Inr row \<Rightarrow>
          andThen (mapErr (\<lambda>e. wrap e KindInternal ''get order lines'') (sql (sql_GetOrderLines uid)))
            (\<lambda>ls. ret (ord_toDomain row ls))))"

definition orders_FindByIDForUpdate :: "uuid_lib \<Rightarrow> gostring \<Rightarrow> ('w, Order) ord_op" where
  "orders_FindByIDForUpdate U oid =
     andThen (pure_op (ord_parseID U ''order id'' oid)) (\<lambda>uid.
     withResult (sql (sql_GetOrderForUpdate uid)) (\<lambda>r. case r of
        Inl e \<Rightarrow> if is_NoRows e then fail ErrOrderNotFound else fail (wrap e KindInternal ''lock order'')
      | Inr row \<Rightarrow>
          andThen (mapErr (\<lambda>e. wrap e KindInternal ''get order lines'') (sql (sql_GetOrderLines uid)))
            (\<lambda>ls. ret (ord_toDomain row ls))))"

record OrderCursor =
  oc_CreatedAt :: gotime
  oc_ID :: gostring

definition ord_cursor :: "uuid_lib \<Rightarrow> OrderCursor option \<Rightarrow> (gotime \<times> gostring) option" where
  "ord_cursor U after =
     (case after of
        None \<Rightarrow> None
      | Some c \<Rightarrow> (case uuid_Parse U (oc_ID c) of Inl _ \<Rightarrow> None | Inr u \<Rightarrow> Some (oc_CreatedAt c, u)))"

text \<open>The Go map from order to lines, in the order of the rows.\<close>

definition lines_by_order :: "string \<Rightarrow> ord_row list \<Rightarrow> ('w, Order list) ord_op" where
  "lines_by_order what rows =
     (if rows = [] then ret []
      else andThen (mapErr (\<lambda>e. wrap e KindInternal what)
             (sql (sql_GetOrderLinesByOrderIDs (map or_ID rows))))
        (\<lambda>ls. ret (map (\<lambda>row. ord_toDomain row (filter (\<lambda>l. ol_OrderID l = or_ID row) ls)) rows)))"

definition orders_List :: "uuid_lib \<Rightarrow> gostring \<Rightarrow> OrderCursor option \<Rightarrow> int \<Rightarrow> ('w, Order list) ord_op" where
  "orders_List U userID after limit =
     andThen (pure_op (ord_parseID U ''user id'' userID)) (\<lambda>user.
     andThen (mapErr (\<lambda>e. wrap e KindInternal ''list orders'')
        (sql (sql_ListOrdersByUser user (ord_cursor U after) (clamp32 limit))))
       (lines_by_order ''list order lines''))"

definition orders_ClaimStaleOrders :: "gostring list \<Rightarrow> gotime \<Rightarrow> int \<Rightarrow> ('w, Order list) ord_op" where
  "orders_ClaimStaleOrders locked createdBefore limit =
     andThen (mapErr (\<lambda>e. wrap e KindInternal ''claim stale orders'')
        (sql (sql_ClaimStaleOrders locked createdBefore (clamp32 limit))))
       (lines_by_order ''get the claimed orders' lines'')"

end
