(* ===== verification/InvDomain.thy ===== *)
theory InvDomain
  imports Lifecycle World "HOL-Library.AList"
begin

text \<open>
  \<open>services/inventory/internal/domain\<close>: identifiers, SKUs, quantities, stock items and the
  reservation aggregate with its state machine. \<open>uuid.Validate\<close> is the argument
  \<open>valid_uuid\<close> of the parsers, and an identifier the aggregate mints is an argument of its
  constructor.
\<close>

subsection \<open>Errors and identifiers\<close>

definition ErrInsufficientStock :: err where
  "ErrInsufficientStock = SentinelErr ''not enough stock to reserve'' ''conflict''"

definition ErrStockItemNotFound :: err where
  "ErrStockItemNotFound = SentinelErr ''sku is not tracked'' ''not_found''"

definition ErrReservationNotFound :: err where
  "ErrReservationNotFound = SentinelErr ''reservation does not exist'' ''not_found''"

definition ErrReservationExpired :: err where
  "ErrReservationExpired = SentinelErr ''reservation has expired'' ''conflict''"

definition ErrReservationCommitted :: err where
  "ErrReservationCommitted = SentinelErr ''reservation was already committed'' ''conflict''"

definition ErrReservationReleased :: err where
  "ErrReservationReleased = SentinelErr ''reservation was already released'' ''conflict''"

definition ErrReservationNotExpired :: err where
  "ErrReservationNotExpired = SentinelErr ''reservation has not expired'' ''conflict''"

lemmas inv_sentinels = ErrInsufficientStock_def ErrStockItemNotFound_def ErrReservationNotFound_def
  ErrReservationExpired_def ErrReservationCommitted_def ErrReservationReleased_def
  ErrReservationNotExpired_def

definition inv_parseUUID :: "(string \<Rightarrow> bool) \<Rightarrow> string \<Rightarrow> gostring \<Rightarrow> err + gostring" where
  "inv_parseUUID valid_uuid field s =
     (if length s \<noteq> 36 then Inl (ValidationErr field ''not a UUID'')
      else let s = ToLower s in
        if \<not> valid_uuid s then Inl (ValidationErr field ''not a UUID'') else Inr s)"

definition ParseReservationID :: "(string \<Rightarrow> bool) \<Rightarrow> gostring \<Rightarrow> err + gostring" where
  "ParseReservationID valid_uuid s = inv_parseUUID valid_uuid ''id'' s"

definition inv_ParseOrderID :: "(string \<Rightarrow> bool) \<Rightarrow> gostring \<Rightarrow> err + gostring" where
  "inv_ParseOrderID valid_uuid s = inv_parseUUID valid_uuid ''order_id'' s"

subsection \<open>Quantities and SKUs\<close>

definition quantityMax :: int where "quantityMax = 1000000"

definition inv_NewQuantity :: "string \<Rightarrow> int \<Rightarrow> err + int" where
  "inv_NewQuantity field n =
     (if n < 0 \<or> n > quantityMax then Inl (ValidationErr field ''must be between 0 and 1000000'')
      else Inr n)"

definition NewAdjustment :: "int \<Rightarrow> err + int" where
  "NewAdjustment delta =
     (if delta = 0 then Inl (ValidationErr ''delta'' ''must not be zero'')
      else if delta < - quantityMax \<or> delta > quantityMax
      then Inl (ValidationErr ''delta'' ''must be between -1000000 and 1000000'')
      else Inr delta)"

definition skuMinLen :: nat where "skuMinLen = 3"
definition skuMaxLen :: nat where "skuMaxLen = 64"

definition inv_NewSKU :: "gostring \<Rightarrow> err + gostring" where
  "inv_NewSKU s0 =
     (let s = ToUpper (TrimSpace s0);
          invalid = ValidationErr ''sku'' ''must be 3 to 64 characters of A-Z, 0-9, and hyphens''
      in if length s < skuMinLen \<or> length s > skuMaxLen then Inl invalid
         else if list_all (\<lambda>i. upper_alnum (s ! i) \<or> (s ! i = CHR ''-'' \<and> i > 0)) [0..<length s]
         then Inr s else Inl invalid)"

lemma inv_NewSKU_Inr:
  "inv_NewSKU s = Inr sku \<longleftrightarrow>
     sku = ToUpper (TrimSpace s) \<and> 3 \<le> length sku \<and> length sku \<le> 64 \<and>
     upper_alnum (hd sku) \<and> (\<forall>c \<in> set sku. upper_alnum c \<or> c = CHR ''-'')"
  using head_and_rest [of "ToUpper (TrimSpace s)" upper_alnum "\<lambda>c. c = CHR ''-''"]
  by (cases "ToUpper (TrimSpace s) = []")
    (auto simp: inv_NewSKU_def Let_def skuMinLen_def skuMaxLen_def)

lemma sku_chars_graphic:
  "\<forall>c \<in> set sku. upper_alnum c \<or> c = CHR ''-'' \<Longrightarrow> \<forall>c \<in> set sku. graphic c"
  using graphic_classes(1) by (auto simp: graphic_def less_eq_char_def)

lemma sku_fixed:
  assumes "\<forall>c \<in> set sku. upper_alnum c \<or> c = CHR ''-''"
  shows "ToUpper (TrimSpace sku) = sku"
proof -
  note g = sku_chars_graphic [OF assms]
  have "map upper_byte sku = sku" using assms by (intro map_idI) auto
  with g show ?thesis by (simp add: TrimSpace_graphic ToUpper_graphic)
qed

lemma inv_NewSKU_idem: "inv_NewSKU s = Inr sku \<Longrightarrow> inv_NewSKU sku = Inr sku"
  using sku_fixed [of sku] by (auto simp: inv_NewSKU_Inr)

lemma inv_NewSKU_nonempty: "inv_NewSKU s = Inr sku \<Longrightarrow> sku \<noteq> []"
  by (auto simp: inv_NewSKU_Inr)

subsection \<open>Reservations\<close>

datatype ReservationStatus =
  StatusHeld | StatusCommitted | StatusReleased | StatusExpired | StatusOther string

text \<open>The text a status is stored as; \<open>StatusOther\<close> is any other Go string of the type.\<close>

fun res_status_text :: "ReservationStatus \<Rightarrow> string" where
  "res_status_text StatusHeld = ''held''"
| "res_status_text StatusCommitted = ''committed''"
| "res_status_text StatusReleased = ''released''"
| "res_status_text StatusExpired = ''expired''"
| "res_status_text (StatusOther s) = s"

definition ReservationStatus_of :: "string \<Rightarrow> ReservationStatus" where
  "ReservationStatus_of s =
     (if s = ''held'' then StatusHeld else if s = ''committed'' then StatusCommitted
      else if s = ''released'' then StatusReleased else if s = ''expired'' then StatusExpired
      else StatusOther s)"

record Line =
  ln_SKU :: gostring
  ln_Quantity :: int

record Reservation =
  res_id :: gostring
  res_orderID :: gostring
  res_lines :: "Line list"
  res_status :: ReservationStatus
  res_expiresAt :: gotime
  res_createdAt :: gotime
  res_updatedAt :: gotime
  res_version :: int

definition linesMax :: nat where "linesMax = 100"
definition lineQuantityMax :: int where "lineQuantityMax = 10000"

text \<open>\<open>canonicalLines\<close>: the sums are kept in a map from SKU to \<open>int32\<close>, here its
  association list; the sort makes the order in which Go walks the map irrelevant
  (\<open>canonical_any_order\<close>).\<close>

definition summed_at :: "(gostring \<times> int) list \<Rightarrow> gostring \<Rightarrow> int" where
  "summed_at m sku = (case map_of m sku of None \<Rightarrow> 0 | Some n \<Rightarrow> n)"

fun sum_lines :: "Line list \<Rightarrow> (gostring \<times> int) list \<Rightarrow> err + (gostring \<times> int) list" where
  "sum_lines [] m = Inr m"
| "sum_lines (l # ls) m =
     (if ln_SKU l = [] then Inl (ValidationErr ''sku'' ''is required'')
      else if ln_Quantity l \<le> 0 then Inl (ValidationErr ''quantity'' ''must be at least 1'')
      else if wrap32 (summed_at m (ln_SKU l) + ln_Quantity l) > lineQuantityMax
      then Inl (ValidationErr ''quantity'' ''totals more than 10000 for one sku'')
      else sum_lines ls
        (AList.update (ln_SKU l) (wrap32 (summed_at m (ln_SKU l) + ln_Quantity l)) m))"

definition to_lines :: "(gostring \<times> int) list \<Rightarrow> Line list" where
  "to_lines m = sort_key ln_SKU (map (\<lambda>(k, n). \<lparr>ln_SKU = k, ln_Quantity = n\<rparr>) m)"

definition canonicalLines :: "Line list \<Rightarrow> err + Line list" where
  "canonicalLines ls =
     (if ls = [] then Inl (ValidationErr ''lines'' ''is required'')
      else if length ls > linesMax then Inl (ValidationErr ''lines'' ''has more than 100 entries'')
      else (case sum_lines ls [] of Inl e \<Rightarrow> Inl e | Inr m \<Rightarrow> Inr (to_lines m)))"

definition NewReservation ::
  "gostring \<Rightarrow> gostring \<Rightarrow> Line list \<Rightarrow> gotime \<Rightarrow> int \<Rightarrow> err + Reservation" where
  "NewReservation new_id orderID ls now ttl =
     (if ttl \<le> 0 then Inl (ValidationErr ''ttl'' ''must be positive'')
      else (case canonicalLines ls of
              Inl e \<Rightarrow> Inl e
            | Inr canonical \<Rightarrow> Inr
                \<lparr>res_id = new_id, res_orderID = orderID, res_lines = canonical,
                 res_status = StatusHeld, res_expiresAt = now + ttl,
                 res_createdAt = 0, res_updatedAt = 0, res_version = 1\<rparr>))"

definition hasExpired :: "Reservation \<Rightarrow> gotime \<Rightarrow> bool" where
  "hasExpired r now = (\<not> now < res_expiresAt r)"

text \<open>A method that changes the aggregate answers whether it moved, and the aggregate.\<close>

definition res_Commit :: "gotime \<Rightarrow> Reservation \<Rightarrow> err + bool \<times> Reservation" where
  "res_Commit now r =
     (case res_status r of
        StatusCommitted \<Rightarrow> Inr (False, r)
      | StatusReleased \<Rightarrow> Inl ErrReservationReleased
      | StatusExpired \<Rightarrow> Inl ErrReservationExpired
      | StatusHeld \<Rightarrow>
          if hasExpired r now then Inl ErrReservationExpired
          else Inr (True, r\<lparr>res_status := StatusCommitted\<rparr>)
      | StatusOther _ \<Rightarrow> Inl ErrReservationNotFound)"

definition res_Release :: "Reservation \<Rightarrow> err + bool \<times> Reservation" where
  "res_Release r =
     (case res_status r of
        StatusReleased \<Rightarrow> Inr (False, r)
      | StatusExpired \<Rightarrow> Inr (False, r)
      | StatusCommitted \<Rightarrow> Inl ErrReservationCommitted
      | StatusHeld \<Rightarrow> Inr (True, r\<lparr>res_status := StatusReleased\<rparr>)
      | StatusOther _ \<Rightarrow> Inl ErrReservationNotFound)"

definition res_Expire :: "gotime \<Rightarrow> Reservation \<Rightarrow> err + bool \<times> Reservation" where
  "res_Expire now r =
     (if res_status r \<noteq> StatusHeld then Inr (False, r)
      else if \<not> hasExpired r now then Inl ErrReservationNotExpired
      else Inr (True, r\<lparr>res_status := StatusExpired\<rparr>))"

definition res_Matches :: "Reservation \<Rightarrow> Line list \<Rightarrow> bool" where
  "res_Matches r ls = (res_lines r = ls)"

record ReservationSnapshot =
  rs_ID :: gostring
  rs_OrderID :: gostring
  rs_Lines :: "Line list"
  rs_Status :: ReservationStatus
  rs_ExpiresAt :: gotime
  rs_CreatedAt :: gotime
  rs_UpdatedAt :: gotime
  rs_Version :: int

definition ReconstituteReservation :: "ReservationSnapshot \<Rightarrow> Reservation" where
  "ReconstituteReservation s =
     \<lparr>res_id = rs_ID s, res_orderID = rs_OrderID s, res_lines = rs_Lines s,
      res_status = rs_Status s, res_expiresAt = rs_ExpiresAt s,
      res_createdAt = rs_CreatedAt s, res_updatedAt = rs_UpdatedAt s, res_version = rs_Version s\<rparr>"

definition res_Snapshot :: "Reservation \<Rightarrow> ReservationSnapshot" where
  "res_Snapshot r =
     \<lparr>rs_ID = res_id r, rs_OrderID = res_orderID r, rs_Lines = res_lines r,
      rs_Status = res_status r, rs_ExpiresAt = res_expiresAt r,
      rs_CreatedAt = res_createdAt r, rs_UpdatedAt = res_updatedAt r, rs_Version = res_version r\<rparr>"

subsection \<open>Stock items\<close>

record StockItem =
  si_id :: gostring
  si_sku :: gostring
  si_available :: int
  si_reserved :: int
  si_createdAt :: gotime
  si_updatedAt :: gotime
  si_version :: int

definition NewStockItem :: "gostring \<Rightarrow> gostring \<Rightarrow> int \<Rightarrow> StockItem" where
  "NewStockItem new_id sku available =
     \<lparr>si_id = new_id, si_sku = sku, si_available = available, si_reserved = 0,
      si_createdAt = 0, si_updatedAt = 0, si_version = 1\<rparr>"

lemma res_status_text_of [simp]: "res_status_text (ReservationStatus_of s) = s"
  by (simp add: ReservationStatus_of_def)

lemma ReservationStatus_of_texts [simp]:
  "ReservationStatus_of ''held'' = StatusHeld"
  "ReservationStatus_of ''committed'' = StatusCommitted"
  "ReservationStatus_of ''released'' = StatusReleased"
  "ReservationStatus_of ''expired'' = StatusExpired"
  by (simp_all add: ReservationStatus_of_def)

lemma ReservationStatus_of_held: "ReservationStatus_of s = StatusHeld \<longleftrightarrow> s = ''held''"
  by (simp add: ReservationStatus_of_def)

lemma Reconstitute_Snapshot [simp]: "ReconstituteReservation (res_Snapshot r) = r"
  by (simp add: ReconstituteReservation_def res_Snapshot_def)

lemma res_Snapshot_simps [simp]:
  "rs_ID (res_Snapshot r) = res_id r" "rs_OrderID (res_Snapshot r) = res_orderID r"
  "rs_Lines (res_Snapshot r) = res_lines r" "rs_Status (res_Snapshot r) = res_status r"
  "rs_ExpiresAt (res_Snapshot r) = res_expiresAt r" "rs_Version (res_Snapshot r) = res_version r"
  by (simp_all add: res_Snapshot_def)

subsection \<open>Canonical lines\<close>

definition line_total :: "Line list \<Rightarrow> gostring \<Rightarrow> int" where
  "line_total ls sku = sum_by (\<lambda>l. ln_SKU l = sku) ln_Quantity ls"

text \<open>What \<open>canonicalLines\<close> promises: one line per SKU, in SKU order, with the total.\<close>

definition lines_of_totals :: "Line list \<Rightarrow> Line list" where
  "lines_of_totals ls =
     map (\<lambda>k. \<lparr>ln_SKU = k, ln_Quantity = line_total ls k\<rparr>) (sorted_list_of_set (ln_SKU ` set ls))"

lemma line_total_simps [simp]:
  "line_total [] sku = 0"
  "line_total (l # ls) sku = (if ln_SKU l = sku then ln_Quantity l else 0) + line_total ls sku"
  by (simp_all add: line_total_def)

lemma line_total_nonneg: "\<forall>l \<in> set ls. 0 < ln_Quantity l \<Longrightarrow> 0 \<le> line_total ls sku"
  unfolding line_total_def by (intro sum_by_nonneg) auto

lemma summed_at_update [simp]:
  "summed_at (AList.update k v m) sku = (if sku = k then v else summed_at m sku)"
  by (simp add: summed_at_def update_conv')

lemma summed_at_Nil [simp]: "summed_at [] sku = 0"
  by (simp add: summed_at_def)

lemma wrap32_small: "0 \<le> x \<Longrightarrow> x \<le> 1100000 \<Longrightarrow> wrap32 x = x"
  by (intro wrap32_id) (simp add: int4_def MaxInt32_def)

lemma sum_lines_Inr:
  assumes "sum_lines ls m = Inr m'"
    and "\<forall>l \<in> set ls. ln_Quantity l \<le> quantityMax"
    and "\<forall>sku. 0 \<le> summed_at m sku \<and> summed_at m sku \<le> lineQuantityMax"
    and "distinct (map fst m)"
  shows "distinct (map fst m') \<and> set (map fst m') = set (map fst m) \<union> ln_SKU ` set ls \<and>
    (\<forall>sku. summed_at m' sku = summed_at m sku + line_total ls sku) \<and>
    (\<forall>sku. summed_at m' sku \<le> lineQuantityMax) \<and>
    (\<forall>l \<in> set ls. ln_SKU l \<noteq> [] \<and> 0 < ln_Quantity l)"
  using assms
proof (induction ls arbitrary: m)
  case (Cons l ls)
  have w: "0 < ln_Quantity l \<Longrightarrow>
      wrap32 (summed_at m (ln_SKU l) + ln_Quantity l) = summed_at m (ln_SKU l) + ln_Quantity l"
    using Cons.prems(2,3) by (intro wrap32_small) (auto simp: quantityMax_def lineQuantityMax_def
        intro: order_trans [OF add_mono])
  from Cons.prems(1) have l: "ln_SKU l \<noteq> []" "0 < ln_Quantity l"
    "summed_at m (ln_SKU l) + ln_Quantity l \<le> lineQuantityMax"
    "sum_lines ls (AList.update (ln_SKU l) (summed_at m (ln_SKU l) + ln_Quantity l) m) = Inr m'"
    using w by (auto split: if_splits)
  let ?m = "AList.update (ln_SKU l) (summed_at m (ln_SKU l) + ln_Quantity l) m"
  have "0 \<le> summed_at m (ln_SKU l)" using Cons.prems(3) by simp
  with Cons.prems(3) l have p: "\<forall>sku. 0 \<le> summed_at ?m sku \<and> summed_at ?m sku \<le> lineQuantityMax"
    by simp
  have d: "distinct (map fst ?m)" using Cons.prems(4) by (rule distinct_update)
  have q: "\<forall>l \<in> set ls. ln_Quantity l \<le> quantityMax" using Cons.prems(2) by simp
  have keys: "set (map fst ?m) = insert (ln_SKU l) (set (map fst m))"
    by (simp add: dom_update)
  show ?case
    using Cons.IH [OF l(4) q p d] l(1,2) unfolding keys
    by (elim conjE, intro conjI) auto
qed auto

lemma sum_lines_Inl:
  assumes "sum_lines ls m = Inl e"
    and "\<forall>l \<in> set ls. ln_Quantity l \<le> quantityMax \<and> ln_SKU l \<noteq> [] \<and> 0 < ln_Quantity l"
    and "\<forall>sku. 0 \<le> summed_at m sku \<and> summed_at m sku \<le> lineQuantityMax"
  shows "\<exists>sku. summed_at m sku + line_total ls sku > lineQuantityMax"
  using assms
proof (induction ls arbitrary: m)
  case (Cons l ls)
  have w: "wrap32 (summed_at m (ln_SKU l) + ln_Quantity l) = summed_at m (ln_SKU l) + ln_Quantity l"
    using Cons.prems(2,3) by (intro wrap32_small) (auto simp: quantityMax_def lineQuantityMax_def
        intro: order_trans [OF add_mono])
  have t: "0 \<le> line_total ls (ln_SKU l)" using Cons.prems(2) by (intro line_total_nonneg) auto
  show ?case
  proof (cases "summed_at m (ln_SKU l) + ln_Quantity l > lineQuantityMax")
    case True
    with t show ?thesis by (intro exI [of _ "ln_SKU l"]) simp
  next
    case False
    let ?m = "AList.update (ln_SKU l) (summed_at m (ln_SKU l) + ln_Quantity l) m"
    have *: "0 \<le> summed_at m (ln_SKU l)" "0 < ln_Quantity l" using Cons.prems(2,3) by auto
    from False Cons.prems w have "sum_lines ls ?m = Inl e" by (auto split: if_splits)
    from Cons.IH [OF this] Cons.prems(2,3) False *
    obtain sku where "summed_at ?m sku + line_total ls sku > lineQuantityMax" by force
    then show ?thesis by (intro exI [of _ sku]) (auto split: if_splits)
  qed
qed auto

lemma map_of_summed: "distinct (map fst m) \<Longrightarrow> (k, n) \<in> set m \<Longrightarrow> summed_at m k = n"
  by (simp add: summed_at_def)

lemma to_lines_eq:
  assumes "distinct (map fst m)"
  shows "to_lines m =
    map (\<lambda>k. \<lparr>ln_SKU = k, ln_Quantity = summed_at m k\<rparr>) (sorted_list_of_set (set (map fst m)))"
proof -
  have skus: "map ln_SKU (to_lines m) = sorted_list_of_set (set (map fst m))"
  proof (rule sorted_distinct_set_unique)
    show "sorted (map ln_SKU (to_lines m))" by (simp add: to_lines_def)
    have "mset (map ln_SKU (to_lines m)) = mset (map fst m)"
      by (simp add: to_lines_def image_mset.compositionality comp_def case_prod_beta)
    then show "distinct (map ln_SKU (to_lines m))"
      using assms by (metis mset_eq_imp_distinct_iff)
    show "set (map ln_SKU (to_lines m)) = set (sorted_list_of_set (set (map fst m)))"
      by (simp add: to_lines_def image_image case_prod_beta)
  qed simp_all
  have "l = \<lparr>ln_SKU = ln_SKU l, ln_Quantity = summed_at m (ln_SKU l)\<rparr>" if "l \<in> set (to_lines m)" for l
    using that assms by (auto simp: to_lines_def map_of_summed)
  then have "map (\<lambda>k. \<lparr>ln_SKU = k, ln_Quantity = summed_at m k\<rparr>) (map ln_SKU (to_lines m)) = to_lines m"
    by (auto simp: comp_def intro!: map_idI)
  with skus show ?thesis by simp
qed

lemma canonical_any_order:
  "distinct (map fst m) \<Longrightarrow> mset m' = mset m \<Longrightarrow> to_lines m' = to_lines m"
proof -
  assume d: "distinct (map fst m)" and p: "mset m' = mset m"
  then have d': "distinct (map fst m')" by (metis mset_eq_imp_distinct_iff mset_map)
  from p have s: "set m' = set m" by (metis set_mset_mset)
  with d d' have "summed_at m' k = summed_at m k" for k
    unfolding summed_at_def by (metis map_of_inject_set)
  with s show ?thesis by (simp add: to_lines_eq [OF d] to_lines_eq [OF d'])
qed

lemma canonicalLines_spec:
  assumes "\<forall>l \<in> set ls. ln_Quantity l \<le> quantityMax"
  shows "canonicalLines ls = Inr cs \<longleftrightarrow>
    ls \<noteq> [] \<and> length ls \<le> 100 \<and> (\<forall>l \<in> set ls. ln_SKU l \<noteq> [] \<and> 1 \<le> ln_Quantity l) \<and>
    (\<forall>sku. line_total ls sku \<le> 10000) \<and> cs = lines_of_totals ls"
proof (cases "sum_lines ls []")
  case (Inl e)
  then have "canonicalLines ls \<noteq> Inr cs" by (simp add: canonicalLines_def)
  moreover have False
    if ok: "\<forall>l \<in> set ls. ln_SKU l \<noteq> [] \<and> 1 \<le> ln_Quantity l" "\<forall>sku. line_total ls sku \<le> 10000"
  proof -
    have "\<exists>sku. summed_at [] sku + line_total ls sku > lineQuantityMax"
      using ok(1) assms by (intro sum_lines_Inl [OF Inl]) (auto simp: lineQuantityMax_def)
    then obtain sku where "line_total ls sku > 10000" by (auto simp: lineQuantityMax_def)
    with ok(2) [rule_format, of sku] show False by linarith
  qed
  ultimately show ?thesis by blast
next
  case (Inr m)
  have "\<forall>sku. 0 \<le> summed_at [] sku \<and> summed_at [] sku \<le> lineQuantityMax"
    by (simp add: lineQuantityMax_def)
  from sum_lines_Inr [OF Inr assms this]
  have m: "distinct (map fst m)" "set (map fst m) = ln_SKU ` set ls"
    "\<And>sku. summed_at m sku = line_total ls sku"
    "\<forall>l \<in> set ls. ln_SKU l \<noteq> [] \<and> 0 < ln_Quantity l"
    "\<And>sku. line_total ls sku \<le> lineQuantityMax"
    by auto
  with to_lines_eq [OF m(1)] have "to_lines m = lines_of_totals ls"
    by (simp add: lines_of_totals_def)
  with Inr m(3-5) show ?thesis
    by (auto simp: canonicalLines_def linesMax_def lineQuantityMax_def)
qed

lemma canonicalLines_mset:
  assumes "canonicalLines ls = Inr cs" and "mset ls' = mset ls" and "\<forall>l \<in> set ls. ln_Quantity l \<le> quantityMax"
  shows "canonicalLines ls' = Inr cs"
proof -
  from assms(2) have s: "set ls' = set ls" "length ls' = length ls" "ls' = [] \<longleftrightarrow> ls = []"
    by (auto dest: mset_eq_setD mset_eq_length)
  have "line_total ls' k = line_total ls k" for k
    unfolding line_total_def using assms(2) by (rule sum_by_mset)
  moreover have "lines_of_totals ls' = lines_of_totals ls"
    by (simp add: lines_of_totals_def s calculation)
  ultimately show ?thesis using assms(1,3) s by (simp add: canonicalLines_spec)
qed

text \<open>C7. The lines a reservation holds are one per SKU, in the order row locks are taken,
  with the total the caller asked for: \<open>canonicalLines\<close> accepts a list exactly when every
  line is well formed and no SKU totals more than 10000, and then computes that normal form.
  The int32 sums it goes through never wrap on quantities \<open>NewQuantity\<close> accepted.\<close>

theorem canonicalLines_iff:
  assumes "\<forall>l \<in> set ls. ln_Quantity l \<le> quantityMax"
  shows "canonicalLines ls = Inr cs \<longleftrightarrow>
    ls \<noteq> [] \<and> length ls \<le> 100 \<and> (\<forall>l \<in> set ls. ln_SKU l \<noteq> [] \<and> 1 \<le> ln_Quantity l) \<and>
    (\<forall>sku. line_total ls sku \<le> 10000) \<and> cs = lines_of_totals ls"
  using assms by (rule canonicalLines_spec)

theorem canonicalLines_iff_witness:
  "canonicalLines
     [\<lparr>ln_SKU = ''MUG-RED'', ln_Quantity = 2\<rparr>, \<lparr>ln_SKU = ''CAP'', ln_Quantity = 1\<rparr>,
      \<lparr>ln_SKU = ''MUG-RED'', ln_Quantity = 3\<rparr>] =
   Inr [\<lparr>ln_SKU = ''CAP'', ln_Quantity = 1\<rparr>, \<lparr>ln_SKU = ''MUG-RED'', ln_Quantity = 5\<rparr>]"
proof -
  have "canonicalLines [\<lparr>ln_SKU = ''MUG-RED'', ln_Quantity = 2\<rparr>, \<lparr>ln_SKU = ''CAP'', ln_Quantity = 1\<rparr>,
      \<lparr>ln_SKU = ''MUG-RED'', ln_Quantity = 3\<rparr>] =
    Inr (lines_of_totals [\<lparr>ln_SKU = ''MUG-RED'', ln_Quantity = 2\<rparr>, \<lparr>ln_SKU = ''CAP'', ln_Quantity = 1\<rparr>,
      \<lparr>ln_SKU = ''MUG-RED'', ln_Quantity = 3\<rparr>])"
    by (subst canonicalLines_iff) (auto simp: quantityMax_def)
  moreover have "lines_of_totals [\<lparr>ln_SKU = ''MUG-RED'', ln_Quantity = 2\<rparr>, \<lparr>ln_SKU = ''CAP'', ln_Quantity = 1\<rparr>,
      \<lparr>ln_SKU = ''MUG-RED'', ln_Quantity = 3\<rparr>] =
    [\<lparr>ln_SKU = ''CAP'', ln_Quantity = 1\<rparr>, \<lparr>ln_SKU = ''MUG-RED'', ln_Quantity = 5\<rparr>]"
    by code_simp
  ultimately show ?thesis by simp
qed

lemma lines_of_totals_SKU [simp]: "map ln_SKU (lines_of_totals ls) = sorted_list_of_set (ln_SKU ` set ls)"
  by (simp add: lines_of_totals_def comp_def)

subsection \<open>The reservation's state machine\<close>

datatype res_op = CommitAt gotime | ReleaseNow | ExpireAt gotime

fun res_step :: "res_op \<Rightarrow> Reservation \<Rightarrow> err + bool \<times> Reservation" where
  "res_step (CommitAt now) r = res_Commit now r"
| "res_step ReleaseNow r = res_Release r"
| "res_step (ExpireAt now) r = res_Expire now r"

fun sells :: "res_op \<Rightarrow> bool" where
  "sells (CommitAt _) = True"
| "sells _ = False"

definition settled :: "Reservation \<Rightarrow> bool" where
  "settled r \<longleftrightarrow> res_status r \<noteq> StatusHeld"

lemmas res_steps = res_Commit_def res_Release_def res_Expire_def

lemma res_step_moved:
  "res_step op r = Inr (True, r') \<longleftrightarrow> res_status r = StatusHeld \<and>
     (case op of
        CommitAt now \<Rightarrow> now < res_expiresAt r \<and> r' = r\<lparr>res_status := StatusCommitted\<rparr>
      | ReleaseNow \<Rightarrow> r' = r\<lparr>res_status := StatusReleased\<rparr>
      | ExpireAt now \<Rightarrow> res_expiresAt r \<le> now \<and> r' = r\<lparr>res_status := StatusExpired\<rparr>)"
  by (cases op) (auto simp: res_steps hasExpired_def split: ReservationStatus.splits)

lemma res_step_quiet: "res_step op r = Inr (False, r') \<Longrightarrow> r' = r \<and> settled r"
  by (cases op) (auto simp: res_steps settled_def split: ReservationStatus.splits if_splits)

interpretation reservation: lifecycle res_step settled "\<lambda>op op'. sells op = sells op'"
proof
  fix op r r' moved
  assume "settled r" "res_step op r = Inr (moved, r')"
  then show "\<not> moved" by (cases moved) (simp_all only: res_step_moved settled_def simp_thms)
next
  fix op op' r r'
  assume s: "sells op = sells op'" "res_step op r = Inr (True, r')"
  from s(2) [unfolded res_step_moved] s(1) show "res_step op' r' = Inr (False, r')"
    by (cases op; cases op') (simp_all add: res_steps)
qed (simp add: res_step_quiet)

text \<open>C8. A reservation is settled once. Whatever commits, releases and sweeps follow the
  transition that settled it, at whatever times, it stays exactly as that transition left it;
  goods given back are never sold under the same reservation, and sold goods never given back.\<close>

theorem reservation_settles_once:
  assumes "res_step op r = Inr (True, r')"
  shows "history res_step ops r' = r'"
proof (rule reservation.terminal_for_good)
  show "settled r'" using assms unfolding res_step_moved settled_def by (auto split: res_op.splits)
qed

theorem reservation_settles_once_witness:
  "history res_step [ReleaseNow, ExpireAt 900, CommitAt 1]
     \<lparr>res_id = ''r'', res_orderID = ''o'', res_lines = [], res_status = StatusCommitted,
      res_expiresAt = 100, res_createdAt = 0, res_updatedAt = 0, res_version = 1\<rparr> =
     \<lparr>res_id = ''r'', res_orderID = ''o'', res_lines = [], res_status = StatusCommitted,
      res_expiresAt = 100, res_createdAt = 0, res_updatedAt = 0, res_version = 1\<rparr>"
  by (rule reservation_settles_once [of "CommitAt 50"
       "\<lparr>res_id = ''r'', res_orderID = ''o'', res_lines = [], res_status = StatusHeld,
         res_expiresAt = 100, res_createdAt = 0, res_updatedAt = 0, res_version = 1\<rparr>"])
    (simp add: res_steps hasExpired_def)

text \<open>C28. At any instant a held reservation can be committed or swept, and never both: the
  sweep and the sale split time at \<open>expires_at\<close> with no gap and no overlap.\<close>

theorem commit_xor_expire:
  assumes "res_status r = StatusHeld"
  shows "(\<exists>r'. res_Commit now r = Inr (True, r')) \<noteq> (\<exists>r'. res_Expire now r = Inr (True, r'))"
  using assms by (auto simp: res_steps hasExpired_def)

theorem commit_xor_expire_witness:
  "\<not> (\<exists>r'. res_Commit 100
      \<lparr>res_id = ''r'', res_orderID = ''o'', res_lines = [], res_status = StatusHeld,
       res_expiresAt = 100, res_createdAt = 0, res_updatedAt = 0, res_version = 1\<rparr> = Inr (True, r'))"
  using commit_xor_expire [of "\<lparr>res_id = ''r'', res_orderID = ''o'', res_lines = [],
      res_status = StatusHeld, res_expiresAt = 100, res_createdAt = 0, res_updatedAt = 0,
      res_version = 1\<rparr>" 100]
  by (simp add: res_Expire_def hasExpired_def)

end
