(* ===== verification/InvStore.thy ===== *)
theory InvStore
  imports InvDomain Tables
begin

text \<open>
  \<open>services/inventory/internal/adapter/out/postgres\<close> and the statements of
  \<open>services/inventory/db\<close> it runs: the three tables with their constraints, one pure function
  per statement, and the two repositories over them. A \<open>uuid\<close> column holds a canonical
  text; \<open>uuid.Parse\<close> is \<open>uuid_Parse\<close> of an argument. The collation that
  \<open>ORDER BY sku\<close> sorts by is a field of the database, for it is the server's and not the
  schema's choice.
\<close>

subsection \<open>The tables\<close>

record stock_row =
  sk_ID :: gostring
  sk_Sku :: gostring
  sk_Available :: int
  sk_Reserved :: int
  sk_CreatedAt :: gotime
  sk_UpdatedAt :: gotime
  sk_Version :: int

record res_row =
  rr_ID :: gostring
  rr_OrderID :: gostring
  rr_Status :: string
  rr_ExpiresAt :: gotime
  rr_CreatedAt :: gotime
  rr_UpdatedAt :: gotime
  rr_Version :: int

record line_row =
  rl_ID :: gostring
  rl_ReservationID :: gostring
  rl_Sku :: gostring
  rl_Quantity :: int
  rl_CreatedAt :: gotime

record inv_db =
  stock_items :: "stock_row list"
  reservations :: "res_row list"
  reservation_lines :: "line_row list"
  inv_now :: gotime
  inv_collate :: "gostring \<Rightarrow> gostring"

type_synonym 'a inv_stmt = "inv_db \<Rightarrow> (err + 'a) \<times> inv_db"

definition skuConstraint :: string where "skuConstraint = ''stock_items_sku_key''"
definition heldOrderConstraint :: string where "heldOrderConstraint = ''reservations_held_order_idx''"

definition held_row :: "res_row \<Rightarrow> bool" where
  "held_row r \<longleftrightarrow> rr_Status r = ''held''"

definition known_status :: "string \<Rightarrow> bool" where
  "known_status s \<longleftrightarrow> s \<in> {''held'', ''committed'', ''released'', ''expired''}"

text \<open>The columns of a row PostgreSQL computed: in range, then past the CHECK constraints.\<close>

definition checked_stock :: "stock_row \<Rightarrow> err + stock_row" where
  "checked_stock r =
     (if \<not> int4 (sk_Available r) \<or> \<not> int4 (sk_Reserved r) \<or> \<not> int4 (sk_Version r)
      then Inl out_of_range
      else if sk_Available r < 0 then Inl (check_violation ''stock_items_available_check'')
      else if sk_Reserved r < 0 then Inl (check_violation ''stock_items_reserved_check'')
      else if ToUpper (sk_Sku r) \<noteq> sk_Sku r then Inl (check_violation ''stock_items_sku_check'')
      else Inr r)"

subsection \<open>Statements on stock\<close>

definition sql_CreateStockItem :: "gostring \<Rightarrow> gostring \<Rightarrow> int \<Rightarrow> stock_row inv_stmt" where
  "sql_CreateStockItem uid sku available db =
     (case checked_stock
        \<lparr>sk_ID = uid, sk_Sku = sku, sk_Available = available, sk_Reserved = 0,
         sk_CreatedAt = inv_now db, sk_UpdatedAt = inv_now db, sk_Version = 1\<rparr> of
        Inl e \<Rightarrow> (Inl e, db)
      | Inr r \<Rightarrow>
          if uid \<in> set (map sk_ID (stock_items db)) then (Inl (unique_violation ''stock_items_pkey''), db)
          else if sku \<in> set (map sk_Sku (stock_items db)) then (Inl (unique_violation skuConstraint), db)
          else (Inr r, db\<lparr>stock_items := stock_items db @ [r]\<rparr>))"

definition sql_GetStockItemBySKU :: "gostring \<Rightarrow> stock_row inv_stmt" where
  "sql_GetStockItemBySKU sku db =
     (case List.find (\<lambda>r. sk_Sku r = sku) (stock_items db) of
        None \<Rightarrow> (Inl NoRows, db) | Some r \<Rightarrow> (Inr r, db))"

definition sql_GetStockItemsBySKUs :: "gostring list \<Rightarrow> stock_row list inv_stmt" where
  "sql_GetStockItemsBySKUs skus db =
     (Inr (filter (\<lambda>r. sk_Sku r \<in> set skus) (stock_items db)), db)"

definition update_stock ::
  "(stock_row \<Rightarrow> bool) \<Rightarrow> (stock_row \<Rightarrow> stock_row) \<Rightarrow> stock_row inv_stmt" where
  "update_stock P f db =
     (case update_one P (\<lambda>r. checked_stock (f r\<lparr>sk_UpdatedAt := inv_now db, sk_Version := sk_Version r + 1\<rparr>))
        (stock_items db) of
        Inl e \<Rightarrow> (Inl e, db)
      | Inr (r, t) \<Rightarrow> (Inr r, db\<lparr>stock_items := t\<rparr>))"

definition sql_ReserveStock :: "gostring \<Rightarrow> int \<Rightarrow> stock_row inv_stmt" where
  "sql_ReserveStock sku quantity =
     update_stock (\<lambda>r. sk_Sku r = sku \<and> sk_Available r \<ge> quantity)
       (\<lambda>r. r\<lparr>sk_Available := sk_Available r - quantity, sk_Reserved := sk_Reserved r + quantity\<rparr>)"

definition sql_ReleaseStock :: "gostring \<Rightarrow> int \<Rightarrow> stock_row inv_stmt" where
  "sql_ReleaseStock sku quantity =
     update_stock (\<lambda>r. sk_Sku r = sku \<and> sk_Reserved r \<ge> quantity)
       (\<lambda>r. r\<lparr>sk_Available := sk_Available r + quantity, sk_Reserved := sk_Reserved r - quantity\<rparr>)"

definition sql_CommitStock :: "gostring \<Rightarrow> int \<Rightarrow> stock_row inv_stmt" where
  "sql_CommitStock sku quantity =
     update_stock (\<lambda>r. sk_Sku r = sku \<and> sk_Reserved r \<ge> quantity)
       (\<lambda>r. r\<lparr>sk_Reserved := sk_Reserved r - quantity\<rparr>)"

text \<open>The predicate \<open>available + delta >= 0\<close> is itself an \<open>int4\<close> sum: out of range, the
  statement fails before it can match.\<close>

definition sql_AdjustStock :: "gostring \<Rightarrow> int \<Rightarrow> stock_row inv_stmt" where
  "sql_AdjustStock sku delta =
     (\<lambda>db. if \<exists>r \<in> set (stock_items db). sk_Sku r = sku \<and> \<not> int4 (sk_Available r + delta)
        then (Inl out_of_range, db)
        else update_stock (\<lambda>r. sk_Sku r = sku \<and> sk_Available r + delta \<ge> 0)
               (\<lambda>r. r\<lparr>sk_Available := sk_Available r + delta\<rparr>) db)"

subsection \<open>Statements on reservations\<close>

definition sql_CreateReservation ::
  "gostring \<Rightarrow> gostring \<Rightarrow> string \<Rightarrow> gotime \<Rightarrow> res_row inv_stmt" where
  "sql_CreateReservation uid orderID status expiresAt db =
     (if \<not> known_status status then (Inl (check_violation ''reservations_status_check''), db)
      else if uid \<in> set (map rr_ID (reservations db))
      then (Inl (unique_violation ''reservations_pkey''), db)
      else if status = ''held'' \<and> orderID \<in> set (map rr_OrderID (filter held_row (reservations db)))
      then (Inl (unique_violation heldOrderConstraint), db)
      else let r = \<lparr>rr_ID = uid, rr_OrderID = orderID, rr_Status = status,
                    rr_ExpiresAt = pg_time expiresAt, rr_CreatedAt = inv_now db,
                    rr_UpdatedAt = inv_now db, rr_Version = 1\<rparr>
           in (Inr r, db\<lparr>reservations := reservations db @ [r]\<rparr>))"

definition sql_CreateReservationLine ::
  "gostring \<Rightarrow> gostring \<Rightarrow> gostring \<Rightarrow> int \<Rightarrow> line_row inv_stmt" where
  "sql_CreateReservationLine uid resID sku quantity db =
     (if quantity \<le> 0 then (Inl (check_violation ''reservation_lines_quantity_check''), db)
      else if ToUpper sku \<noteq> sku then (Inl (check_violation ''reservation_lines_sku_check''), db)
      else if uid \<in> set (map rl_ID (reservation_lines db))
      then (Inl (unique_violation ''reservation_lines_pkey''), db)
      else if (resID, sku) \<in> set (map (\<lambda>l. (rl_ReservationID l, rl_Sku l)) (reservation_lines db))
      then (Inl (unique_violation ''reservation_lines_reservation_id_sku_key''), db)
      else if resID \<notin> set (map rr_ID (reservations db))
      then (Inl (fk_violation ''reservation_lines_reservation_id_fkey''), db)
      else let l = \<lparr>rl_ID = uid, rl_ReservationID = resID, rl_Sku = sku, rl_Quantity = quantity,
                    rl_CreatedAt = inv_now db\<rparr>
           in (Inr l, db\<lparr>reservation_lines := reservation_lines db @ [l]\<rparr>))"

definition sql_GetReservationByID :: "gostring \<Rightarrow> res_row inv_stmt" where
  "sql_GetReservationByID uid db =
     (case List.find (\<lambda>r. rr_ID r = uid) (reservations db) of
        None \<Rightarrow> (Inl NoRows, db) | Some r \<Rightarrow> (Inr r, db))"

definition sql_GetHeldReservationByOrderID :: "gostring \<Rightarrow> res_row inv_stmt" where
  "sql_GetHeldReservationByOrderID orderID db =
     (case List.find (\<lambda>r. rr_OrderID r = orderID \<and> held_row r) (reservations db) of
        None \<Rightarrow> (Inl NoRows, db) | Some r \<Rightarrow> (Inr r, db))"

text \<open>\<open>ORDER BY reservation_id, sku\<close> is a stable sort by the second key and then by the
  first.\<close>

definition sql_GetReservationLinesByReservationIDs :: "gostring list \<Rightarrow> line_row list inv_stmt" where
  "sql_GetReservationLinesByReservationIDs ids db =
     (Inr (sort_key rl_ReservationID (sort_key (\<lambda>l. inv_collate db (rl_Sku l))
        (filter (\<lambda>l. rl_ReservationID l \<in> set ids) (reservation_lines db)))), db)"

definition sql_UpdateReservationStatus :: "gostring \<Rightarrow> string \<Rightarrow> int \<Rightarrow> res_row inv_stmt" where
  "sql_UpdateReservationStatus uid status version db =
     (case update_one (\<lambda>r. rr_ID r = uid \<and> rr_Version r = version)
        (\<lambda>r. if \<not> int4 (rr_Version r + 1) then Inl out_of_range
             else if \<not> known_status status then Inl (check_violation ''reservations_status_check'')
             else if status = ''held'' \<and> rr_OrderID r \<in>
               set (map rr_OrderID (filter (\<lambda>r'. held_row r' \<and> rr_ID r' \<noteq> uid) (reservations db)))
             then Inl (unique_violation heldOrderConstraint)
             else Inr (r\<lparr>rr_Status := status, rr_UpdatedAt := inv_now db,
                        rr_Version := rr_Version r + 1\<rparr>))
        (reservations db) of
        Inl e \<Rightarrow> (Inl e, db)
      | Inr (r, t) \<Rightarrow> (Inr r, db\<lparr>reservations := t\<rparr>))"

text \<open>\<open>FOR UPDATE SKIP LOCKED\<close>: the rows other transactions hold locked are an argument.\<close>

definition sql_ClaimExpiredReservations ::
  "gostring list \<Rightarrow> gotime \<Rightarrow> int \<Rightarrow> res_row list inv_stmt" where
  "sql_ClaimExpiredReservations locked now row_limit db =
     (Inr (take (nat row_limit) (sort_key rr_ExpiresAt
        (filter (\<lambda>r. held_row r \<and> rr_ExpiresAt r \<le> pg_time now \<and> rr_ID r \<notin> set locked)
           (reservations db)))), db)"

subsection \<open>The stock repository\<close>

type_synonym ('w, 'a) inv_op = "(inv_db, 'w, 'a) op"

definition inv_repo_parseUUID :: "uuid_lib \<Rightarrow> string \<Rightarrow> gostring \<Rightarrow> err + gostring" where
  "inv_repo_parseUUID U what s =
     (case uuid_Parse U s of
        Inl e \<Rightarrow> Inl (wrap e KindInternal (''parse '' @ what))
      | Inr u \<Rightarrow> Inr u)"

definition toStockDomain :: "stock_row \<Rightarrow> StockItem" where
  "toStockDomain r =
     \<lparr>si_id = sk_ID r, si_sku = sk_Sku r, si_available = sk_Available r,
      si_reserved = sk_Reserved r, si_createdAt = sk_CreatedAt r, si_updatedAt = sk_UpdatedAt r,
      si_version = sk_Version r\<rparr>"

definition stock_explainMiss :: "gostring \<Rightarrow> err \<Rightarrow> ('w, 'a) inv_op" where
  "stock_explainMiss sku refused =
     withResult (sql (sql_GetStockItemBySKU sku))
       (\<lambda>r. case r of
          Inr _ \<Rightarrow> fail refused
        | Inl e \<Rightarrow>
            if is_NoRows e
            then fail (WithMetadata (WithReason
                   (wrap ErrStockItemNotFound KindNotFound (''sku '' @ sku @ '' is not tracked''))
                   ''SKU_NOT_TRACKED'') [(''sku'', sku)])
            else fail (wrap e KindInternal (''look up stock item '' @ sku)))"

definition stock_Create :: "uuid_lib \<Rightarrow> StockItem \<Rightarrow> ('w, StockItem) inv_op" where
  "stock_Create U item =
     andThen (pure_op (inv_repo_parseUUID U ''stock item id'' (si_id item)))
       (\<lambda>uid. withResult (sql (sql_CreateStockItem uid (si_sku item) (si_available item)))
         (\<lambda>r. case r of
            Inr row \<Rightarrow> ret (toStockDomain row)
          | Inl e \<Rightarrow>
              if isConstraintViolation e skuConstraint
              then fail (WithMetadata (WithReason (New KindConflict ''sku is already tracked'')
                     ''SKU_ALREADY_TRACKED'') [(''sku'', si_sku item)])
              else fail (wrap e KindInternal (''create stock item '' @ si_sku item))))"

definition stock_FindBySKUs :: "gostring list \<Rightarrow> ('w, StockItem list) inv_op" where
  "stock_FindBySKUs skus =
     (if skus = [] then ret []
      else withResult (sql (sql_GetStockItemsBySKUs skus))
        (\<lambda>r. case r of
           Inr rows \<Rightarrow> ret (map toStockDomain rows)
         | Inl e \<Rightarrow>
             fail (wrap e KindInternal (''get '' @ show_int (int (length skus)) @ '' stock item(s)''))))"

definition stock_Adjust :: "gostring \<Rightarrow> int \<Rightarrow> ('w, StockItem) inv_op" where
  "stock_Adjust sku delta =
     withResult (sql (sql_AdjustStock sku delta))
       (\<lambda>r. case r of
          Inr row \<Rightarrow> ret (toStockDomain row)
        | Inl e \<Rightarrow>
            if is_NoRows e
            then stock_explainMiss sku
              (WithMetadata (WithReason
                (New KindConflict
                  (''adjusting '' @ sku @ '' by '' @ show_int delta @ '' would take it below zero''))
                ''STOCK_WOULD_GO_NEGATIVE'') [(''sku'', sku)])
            else fail (wrap e KindInternal (''adjust stock for '' @ sku)))"

definition stock_Reserve :: "gostring \<Rightarrow> int \<Rightarrow> ('w, unit) inv_op" where
  "stock_Reserve sku quantity =
     withResult (sql (sql_ReserveStock sku quantity))
       (\<lambda>r. case r of
          Inr _ \<Rightarrow> ret ()
        | Inl e \<Rightarrow>
            if is_NoRows e
            then stock_explainMiss sku
              (WithMetadata (WithReason
                (wrap ErrInsufficientStock KindConflict
                  (''reserve '' @ show_int quantity @ '' of '' @ sku))
                ''OUT_OF_STOCK'') [(''sku'', sku)])
            else fail (wrap e KindInternal (''reserve '' @ show_int quantity @ '' of '' @ sku)))"

definition stock_movedHold ::
  "string \<Rightarrow> gostring \<Rightarrow> int \<Rightarrow> err + stock_row \<Rightarrow> ('w, unit) inv_op" where
  "stock_movedHold what sku quantity r =
     (case r of
        Inr _ \<Rightarrow> ret ()
      | Inl e \<Rightarrow>
          if is_NoRows e
          then stock_explainMiss sku
            (WithReason
              (New KindInternal
                (what @ '' '' @ show_int quantity @ '' of '' @ sku @ '': reserved is lower than the hold''))
              ''STOCK_INCONSISTENT'')
          else fail (wrap e KindInternal (what @ '' '' @ show_int quantity @ '' of '' @ sku)))"

definition stock_Release :: "gostring \<Rightarrow> int \<Rightarrow> ('w, unit) inv_op" where
  "stock_Release sku quantity =
     withResult (sql (sql_ReleaseStock sku quantity)) (stock_movedHold ''release'' sku quantity)"

definition stock_Commit :: "gostring \<Rightarrow> int \<Rightarrow> ('w, unit) inv_op" where
  "stock_Commit sku quantity =
     withResult (sql (sql_CommitStock sku quantity)) (stock_movedHold ''commit'' sku quantity)"

subsection \<open>The reservation repository\<close>

definition inv_notFound :: "string \<Rightarrow> err" where
  "inv_notFound m = WithReason (wrap ErrReservationNotFound KindNotFound m) ''RESERVATION_NOT_FOUND''"

definition toReservationDomain :: "res_row \<Rightarrow> line_row list \<Rightarrow> Reservation" where
  "toReservationDomain row ls =
     ReconstituteReservation
       \<lparr>rs_ID = rr_ID row, rs_OrderID = rr_OrderID row,
        rs_Lines = map (\<lambda>l. \<lparr>ln_SKU = rl_Sku l, ln_Quantity = rl_Quantity l\<rparr>) ls,
        rs_Status = ReservationStatus_of (rr_Status row), rs_ExpiresAt = rr_ExpiresAt row,
        rs_CreatedAt = rr_CreatedAt row, rs_UpdatedAt = rr_UpdatedAt row,
        rs_Version = rr_Version row\<rparr>"

text \<open>\<open>linesOf\<close> returns a Go map from reservation to its rows, in the order of the rows.\<close>

definition inv_linesOf :: "gostring list \<Rightarrow> ('w, gostring \<Rightarrow> line_row list) inv_op" where
  "inv_linesOf ids =
     withResult (sql (sql_GetReservationLinesByReservationIDs ids))
       (\<lambda>r. case r of
          Inr rows \<Rightarrow> ret (\<lambda>k. filter (\<lambda>l. rl_ReservationID l = k) rows)
        | Inl e \<Rightarrow>
            fail (wrap e KindInternal
              (''get lines for '' @ show_int (int (length ids)) @ '' reservation(s)'')))"

definition res_withLines :: "res_row \<Rightarrow> ('w, Reservation) inv_op" where
  "res_withLines row =
     andThen (inv_linesOf [rr_ID row]) (\<lambda>ls. ret (toReservationDomain row (ls (rr_ID row))))"

definition reservations_Create ::
  "uuid_lib \<Rightarrow> (nat \<Rightarrow> gostring) \<Rightarrow> Reservation \<Rightarrow> ('w, Reservation) inv_op" where
  "reservations_Create U new_line_id r =
     (let snap = res_Snapshot r in
      andThen (pure_op (inv_repo_parseUUID U ''reservation id'' (rs_ID snap))) (\<lambda>uid.
      andThen (pure_op (inv_repo_parseUUID U ''order id'' (rs_OrderID snap))) (\<lambda>orderID.
      withResult (sql (sql_CreateReservation uid orderID (res_status_text (rs_Status snap)) (rs_ExpiresAt snap)))
        (\<lambda>res. case res of
           Inl e \<Rightarrow>
             if isConstraintViolation e heldOrderConstraint
             then fail (WithMetadata (WithReason
                    (New KindConflict (''order '' @ rs_OrderID snap @ '' took a reservation concurrently''))
                    ''RESERVATION_IN_FLIGHT'') [(''order_id'', rs_OrderID snap)])
             else fail (wrap e KindInternal (''create reservation for order '' @ rs_OrderID snap))
         | Inr row \<Rightarrow>
             andThen (map_each (\<lambda>(i, line).
               andThen (pure_op (inv_repo_parseUUID U ''reservation line id'' (new_line_id i))) (\<lambda>lineID.
               mapErr (\<lambda>e. wrap e KindInternal (''create reservation line '' @ ln_SKU line))
                 (sql (sql_CreateReservationLine lineID uid (ln_SKU line) (ln_Quantity line)))))
               (enumerate 0 (rs_Lines snap)))
             (\<lambda>ls. ret (toReservationDomain row ls))))))"

definition reservations_Update :: "uuid_lib \<Rightarrow> Reservation \<Rightarrow> ('w, Reservation) inv_op" where
  "reservations_Update U r =
     (let snap = res_Snapshot r in
      andThen (pure_op (inv_repo_parseUUID U ''reservation id'' (rs_ID snap))) (\<lambda>uid.
      withResult (sql (sql_UpdateReservationStatus uid (res_status_text (rs_Status snap))
          (clamp32 (rs_Version snap))))
        (\<lambda>res. case res of
           Inl e \<Rightarrow>
             if is_NoRows e
             then fail (WithReason
                    (New KindConflict (''reservation '' @ rs_ID snap @ '' was modified concurrently''))
                    ''RESERVATION_MODIFIED'')
             else fail (wrap e KindInternal (''update reservation '' @ rs_ID snap))
         | Inr row \<Rightarrow>
             andThen (inv_linesOf [uid]) (\<lambda>ls. ret (toReservationDomain row (ls uid))))))"

definition reservations_FindByID :: "uuid_lib \<Rightarrow> gostring \<Rightarrow> ('w, Reservation) inv_op" where
  "reservations_FindByID U rid =
     andThen (pure_op (inv_repo_parseUUID U ''reservation id'' rid)) (\<lambda>uid.
     withResult (sql (sql_GetReservationByID uid))
       (\<lambda>res. case res of
          Inl e \<Rightarrow>
            if is_NoRows e then fail (inv_notFound (''reservation '' @ rid @ '' not found''))
            else fail (wrap e KindInternal (''get reservation '' @ rid))
        | Inr row \<Rightarrow> res_withLines row))"

definition reservations_FindHeldByOrderID :: "uuid_lib \<Rightarrow> gostring \<Rightarrow> ('w, Reservation) inv_op" where
  "reservations_FindHeldByOrderID U orderID =
     andThen (pure_op (inv_repo_parseUUID U ''order id'' orderID)) (\<lambda>uid.
     withResult (sql (sql_GetHeldReservationByOrderID uid))
       (\<lambda>res. case res of
          Inl e \<Rightarrow>
            if is_NoRows e then fail (inv_notFound (''order '' @ orderID @ '' holds no reservation''))
            else fail (wrap e KindInternal (''get reservation for order '' @ orderID))
        | Inr row \<Rightarrow> res_withLines row))"

definition reservations_ClaimExpired ::
  "gostring list \<Rightarrow> gotime \<Rightarrow> int \<Rightarrow> ('w, Reservation list) inv_op" where
  "reservations_ClaimExpired locked now limit =
     withResult (sql (sql_ClaimExpiredReservations locked now (clamp32 limit)))
       (\<lambda>res. case res of
          Inl e \<Rightarrow> fail (wrap e KindInternal ''claim expired reservations'')
        | Inr rows \<Rightarrow>
            if rows = [] then ret []
            else andThen (inv_linesOf (map rr_ID rows))
              (\<lambda>ls. ret (map (\<lambda>row. toReservationDomain row (ls (rr_ID row))) rows)))"

end
