(* ===== verification/InvApp.thy ===== *)
theory InvApp
  imports InvStore
begin

text \<open>
  \<open>services/inventory/internal/app\<close>: the use cases over the two repositories and the
  transaction manager. A policy is its reservation TTL and what \<open>Now\<close> reads during the
  call; an identifier a use case mints is an argument.
\<close>

record inv_policy =
  pol_ReservationTTL :: int
  pol_Now :: gotime

record NewLine =
  nl_SKU :: gostring
  nl_Quantity :: int

record ReserveStockCommand =
  rc_OrderID :: gostring
  rc_Lines :: "NewLine list"

definition defaultSweepLimit :: int where "defaultSweepLimit = 100"

definition inv_GetStockBySKUs :: "gostring list \<Rightarrow> ('w, StockItem list) inv_op" where
  "inv_GetStockBySKUs skus =
     andThen (pure_op (map_res inv_NewSKU skus)) stock_FindBySKUs"

definition inv_GetReservation :: "uuid_lib \<Rightarrow> gostring \<Rightarrow> ('w, Reservation) inv_op" where
  "inv_GetReservation U rid =
     andThen (pure_op (ParseReservationID (uuid_Validate U) rid)) (reservations_FindByID U)"

definition inv_CreateStockItem ::
  "uuid_lib \<Rightarrow> gostring \<Rightarrow> gostring \<Rightarrow> int \<Rightarrow> ('w, StockItem) inv_op" where
  "inv_CreateStockItem U new_id sku available =
     andThen (pure_op (inv_NewSKU sku)) (\<lambda>sku.
     andThen (pure_op (inv_NewQuantity ''available'' available)) (\<lambda>available.
       stock_Create U (NewStockItem new_id sku available)))"

definition inv_AdjustStock :: "gostring \<Rightarrow> int \<Rightarrow> ('w, StockItem) inv_op" where
  "inv_AdjustStock sku delta =
     andThen (pure_op (inv_NewSKU sku)) (\<lambda>sku.
     andThen (pure_op (NewAdjustment delta)) (\<lambda>delta. stock_Adjust sku delta))"

definition inv_parse_line :: "NewLine \<Rightarrow> err + Line" where
  "inv_parse_line l =
     (case inv_NewSKU (nl_SKU l) of
        Inl e \<Rightarrow> Inl e
      | Inr sku \<Rightarrow>
          (case inv_NewQuantity ''quantity'' (nl_Quantity l) of
             Inl e \<Rightarrow> Inl e
           | Inr q \<Rightarrow> Inr \<lparr>ln_SKU = sku, ln_Quantity = q\<rparr>))"

text \<open>The part of \<open>ReserveStock\<close> before the transaction: the hold the command describes.\<close>

definition inv_candidate ::
  "uuid_lib \<Rightarrow> inv_policy \<Rightarrow> gostring \<Rightarrow> ReserveStockCommand \<Rightarrow> err + Reservation" where
  "inv_candidate U pol new_id cmd =
     (case inv_ParseOrderID (uuid_Validate U) (rc_OrderID cmd) of
        Inl e \<Rightarrow> Inl e
      | Inr orderID \<Rightarrow>
          (case map_res inv_parse_line (rc_Lines cmd) of
             Inl e \<Rightarrow> Inl e
           | Inr ls \<Rightarrow> NewReservation new_id orderID ls (pol_Now pol) (pol_ReservationTTL pol)))"

definition stock_ReserveAll :: "Line list \<Rightarrow> ('w, unit) inv_op" where
  "stock_ReserveAll = for_each (\<lambda>l. stock_Reserve (ln_SKU l) (ln_Quantity l))"

definition inv_take_hold ::
  "uuid_lib \<Rightarrow> (nat \<Rightarrow> gostring) \<Rightarrow> Reservation \<Rightarrow> ('w, Reservation) inv_op" where
  "inv_take_hold U new_line_id candidate =
     withResult (reservations_FindHeldByOrderID U (res_orderID candidate))
       (\<lambda>r. case r of
          Inr existing \<Rightarrow>
            if \<not> res_Matches existing (res_lines candidate)
            then fail (WithMetadata (WithReason
                   (New KindConflict
                     (''order '' @ res_orderID candidate @ '' already holds a different reservation''))
                   ''RESERVATION_LINES_DIFFER'') [(''reservation_id'', res_id existing)])
            else ret existing
        | Inl e \<Rightarrow>
            if \<not> errors_Is e ErrReservationNotFound then fail e
            else andThen (stock_ReserveAll (res_lines candidate))
                   (\<lambda>_. reservations_Create U new_line_id candidate))"

definition inv_ReserveStock ::
  "uuid_lib \<Rightarrow> inv_policy \<Rightarrow> gostring \<Rightarrow> (nat \<Rightarrow> gostring) \<Rightarrow> ReserveStockCommand \<Rightarrow>
   ('w, Reservation) inv_op" where
  "inv_ReserveStock U pol new_id new_line_id cmd =
     andThen (pure_op (inv_candidate U pol new_id cmd))
       (\<lambda>candidate. Do (inv_take_hold U new_line_id candidate))"

definition inv_settle_tx ::
  "uuid_lib \<Rightarrow> gostring \<Rightarrow> (Reservation \<Rightarrow> err + bool \<times> Reservation) \<Rightarrow>
   (gostring \<Rightarrow> int \<Rightarrow> ('w, unit) inv_op) \<Rightarrow> ('w, Reservation) inv_op" where
  "inv_settle_tx U rid change move =
     andThen (reservations_FindByID U rid) (\<lambda>reservation.
     andThen (pure_op (change reservation)) (\<lambda>(moved, reservation).
       if \<not> moved then ret reservation
       else andThen (for_each (\<lambda>l. move (ln_SKU l) (ln_Quantity l)) (res_lines reservation))
              (\<lambda>_. reservations_Update U reservation)))"

definition inv_settle ::
  "uuid_lib \<Rightarrow> gostring \<Rightarrow> (Reservation \<Rightarrow> err + bool \<times> Reservation) \<Rightarrow>
   (gostring \<Rightarrow> int \<Rightarrow> ('w, unit) inv_op) \<Rightarrow> ('w, Reservation) inv_op" where
  "inv_settle U rid change move =
     andThen (pure_op (ParseReservationID (uuid_Validate U) rid))
       (\<lambda>rid. Do (inv_settle_tx U rid change move))"

definition inv_CommitReservation ::
  "uuid_lib \<Rightarrow> inv_policy \<Rightarrow> gostring \<Rightarrow> ('w, Reservation) inv_op" where
  "inv_CommitReservation U pol rid = inv_settle U rid (res_Commit (pol_Now pol)) stock_Commit"

definition inv_ReleaseReservation :: "uuid_lib \<Rightarrow> gostring \<Rightarrow> ('w, Reservation) inv_op" where
  "inv_ReleaseReservation U rid = inv_settle U rid res_Release stock_Release"

text \<open>The loop of \<open>ExpireReservations\<close> over what it claimed, with its counter.\<close>

fun inv_sweep :: "uuid_lib \<Rightarrow> gotime \<Rightarrow> Reservation list \<Rightarrow> int \<Rightarrow> ('w, int) inv_op" where
  "inv_sweep U now [] swept = ret swept"
| "inv_sweep U now (r # rs) swept =
     andThen (pure_op (res_Expire now r)) (\<lambda>(moved, r).
       if \<not> moved then inv_sweep U now rs swept
       else andThen (for_each (\<lambda>l. stock_Release (ln_SKU l) (ln_Quantity l)) (res_lines r)) (\<lambda>_.
            andThen (reservations_Update U r) (\<lambda>_. inv_sweep U now rs (swept + 1))))"

definition inv_ExpireReservations ::
  "uuid_lib \<Rightarrow> inv_policy \<Rightarrow> gostring list \<Rightarrow> int \<Rightarrow> ('w, int) inv_op" where
  "inv_ExpireReservations U pol locked limit =
     (let limit = (if limit \<le> 0 then defaultSweepLimit else limit); now = pol_Now pol
      in Do (andThen (reservations_ClaimExpired locked now limit)
               (\<lambda>claimed. inv_sweep U now claimed 0)))"

end
