(* ===== verification/InvBooks.thy ===== *)
theory InvBooks
  imports InvApp
begin

text \<open>
  The books of the warehouse: what the tables hold of each SKU, what live reservations hold of
  it, and the invariant that the two agree. Each statement that moves stock is a shift of the
  per-SKU counts; the use cases compose shifts with the change of a reservation's row.
\<close>

subsection \<open>Counts\<close>

definition available_of :: "inv_db \<Rightarrow> gostring \<Rightarrow> int" where
  "available_of db sku = sum_by (\<lambda>r. sk_Sku r = sku) sk_Available (stock_items db)"

definition reserved_of :: "inv_db \<Rightarrow> gostring \<Rightarrow> int" where
  "reserved_of db sku = sum_by (\<lambda>r. sk_Sku r = sku) sk_Reserved (stock_items db)"

definition held_ids :: "inv_db \<Rightarrow> gostring set" where
  "held_ids db = rr_ID ` {r \<in> set (reservations db). held_row r}"

definition hold_of :: "inv_db \<Rightarrow> gostring \<Rightarrow> gostring \<Rightarrow> int" where
  "hold_of db rid sku =
     sum_by (\<lambda>l. rl_Sku l = sku \<and> rl_ReservationID l = rid) rl_Quantity (reservation_lines db)"

definition held_total :: "inv_db \<Rightarrow> gostring \<Rightarrow> int" where
  "held_total db sku =
     sum_by (\<lambda>l. rl_Sku l = sku \<and> rl_ReservationID l \<in> held_ids db) rl_Quantity (reservation_lines db)"

definition inv_stock_ok :: "inv_db \<Rightarrow> bool" where
  "inv_stock_ok db \<longleftrightarrow> distinct (map sk_Sku (stock_items db)) \<and>
     (\<forall>r \<in> set (stock_items db). 0 \<le> sk_Available r \<and> 0 \<le> sk_Reserved r)"

definition inv_res_ok :: "inv_db \<Rightarrow> bool" where
  "inv_res_ok db \<longleftrightarrow> distinct (map rr_ID (reservations db)) \<and>
     distinct (map rr_OrderID (filter held_row (reservations db))) \<and>
     (\<forall>r \<in> set (reservations db). known_status (rr_Status r)) \<and>
     distinct (map (\<lambda>l. (rl_ReservationID l, rl_Sku l)) (reservation_lines db)) \<and>
     (\<forall>l \<in> set (reservation_lines db). 0 < rl_Quantity l \<and> rl_ReservationID l \<in> rr_ID ` set (reservations db))"

text \<open>A \<open>uuid\<close> column holds what \<open>uuid.Parse\<close> answered.\<close>

definition inv_typed :: "uuid_lib \<Rightarrow> inv_db \<Rightarrow> bool" where
  "inv_typed U db \<longleftrightarrow> (\<forall>r \<in> set (reservations db).
     uuid_Parse U (rr_ID r) = Inr (rr_ID r) \<and> uuid_Parse U (rr_OrderID r) = Inr (rr_OrderID r))"

definition inv_ok :: "uuid_lib \<Rightarrow> inv_db \<Rightarrow> bool" where
  "inv_ok U db \<longleftrightarrow> inv_stock_ok db \<and> inv_res_ok db \<and> inv_typed U db \<and>
     (\<forall>sku. reserved_of db sku = held_total db sku)"

text \<open>A change of the counts that leaves reservations alone.\<close>

definition shifted :: "(gostring \<Rightarrow> int) \<Rightarrow> (gostring \<Rightarrow> int) \<Rightarrow> inv_db \<Rightarrow> inv_db \<Rightarrow> bool" where
  "shifted a r db db' \<longleftrightarrow>
     reservations db' = reservations db \<and> reservation_lines db' = reservation_lines db \<and>
     inv_collate db' = inv_collate db \<and> inv_now db' = inv_now db \<and>
     map sk_Sku (stock_items db') = map sk_Sku (stock_items db) \<and>
     (\<forall>k. available_of db' k = available_of db k + a k) \<and>
     (\<forall>k. reserved_of db' k = reserved_of db k + r k) \<and>
     (inv_stock_ok db \<longrightarrow> inv_stock_ok db')"

lemma shifted_refl [simp]: "shifted (\<lambda>_. 0) (\<lambda>_. 0) db db"
  by (simp add: shifted_def)

lemma shifted_trans:
  "shifted a r db db1 \<Longrightarrow> shifted a' r' db1 db2 \<Longrightarrow>
   shifted (\<lambda>k. a k + a' k) (\<lambda>k. r k + r' k) db db2"
  by (simp add: shifted_def algebra_simps)

lemma shifted_cong: "shifted a r db db' \<Longrightarrow> a = a' \<Longrightarrow> r = r' \<Longrightarrow> shifted a' r' db db'"
  by simp

lemma held_total_reservations:
  "reservations db' = reservations db \<Longrightarrow> reservation_lines db' = reservation_lines db \<Longrightarrow>
   held_total db' k = held_total db k"
  by (simp add: held_total_def held_ids_def)

lemma inv_res_ok_frame:
  "reservations db' = reservations db \<Longrightarrow> reservation_lines db' = reservation_lines db \<Longrightarrow>
   inv_res_ok db' \<longleftrightarrow> inv_res_ok db"
  by (simp add: inv_res_ok_def)

lemma hold_of_frame: "reservation_lines db' = reservation_lines db \<Longrightarrow> hold_of db' = hold_of db"
  by (simp add: hold_of_def fun_eq_iff)

lemma held_ids_frame: "reservations db' = reservations db \<Longrightarrow> held_ids db' = held_ids db"
  by (simp add: held_ids_def)

lemma hold_nonneg: "inv_res_ok db \<Longrightarrow> 0 \<le> hold_of db rid sku"
  unfolding hold_of_def inv_res_ok_def by (intro sum_by_nonneg) fastforce

lemma held_total_split:
  assumes "rid \<in> held_ids db"
  shows "held_total db k = hold_of db rid k +
    sum_by (\<lambda>l. rl_Sku l = k \<and> rl_ReservationID l \<in> held_ids db - {rid}) rl_Quantity (reservation_lines db)"
  unfolding held_total_def hold_of_def
  using assms sum_by_split [of "\<lambda>l. rl_Sku l = k \<and> rl_ReservationID l \<in> held_ids db" rl_Quantity
      "reservation_lines db" "\<lambda>l. rl_ReservationID l = rid"]
  by (simp add: sum_by_def conj_commute conj_left_commute cong: conj_cong)

lemma hold_le_held: "inv_res_ok db \<Longrightarrow> rid \<in> held_ids db \<Longrightarrow> hold_of db rid k \<le> held_total db k"
  using held_total_split [of rid db k]
  by (simp add: sum_by_nonneg inv_res_ok_def less_imp_le)

subsection \<open>Moving stock\<close>

lemma update_stock_shifted:
  assumes "update_stock P f db = (Inr x, db')"
    and "inv_stock_ok db"
    and "\<And>r. P r \<Longrightarrow> sk_Sku r = sku"
    and "\<And>r. sk_Sku (f r) = sk_Sku r \<and> sk_Available (f r) = sk_Available r + a \<and>
      sk_Reserved (f r) = sk_Reserved r + d"
  shows "shifted (\<lambda>k. if k = sku then a else 0) (\<lambda>k. if k = sku then d else 0) db db'"
proof -
  let ?g = "\<lambda>r. checked_stock (f r\<lparr>sk_UpdatedAt := inv_now db, sk_Version := sk_Version r + 1\<rparr>)"
  from assms(1) obtain t where t: "update_one P ?g (stock_items db) = Inr (x, t)"
      "db' = db\<lparr>stock_items := t\<rparr>"
    by (auto simp: update_stock_def split: sum.splits prod.splits)
  have "one_row sk_Sku P (stock_items db)"
    using assms(2,3) by (intro one_rowI) (auto simp: inv_stock_ok_def)
  then obtain r p q where r: "P r" "?g r = Inr x"
      "stock_items db = p @ r # q" "t = p @ x # q"
      "\<forall>y \<in> set p \<union> set q. sk_Sku y \<noteq> sk_Sku r"
    by (rule update_one_split [OF _ t(1)])
  from r(2) assms(4) [of r] have x: "sk_Sku x = sk_Sku r" "sk_Available x = sk_Available r + a"
      "sk_Reserved x = sk_Reserved r + d" "0 \<le> sk_Available x" "0 \<le> sk_Reserved x"
    by (auto simp: checked_stock_def split: if_splits)
  have "sk_Sku r = sku" using assms(3) r(1) by simp
  with r t(2) x assms(2) show ?thesis
    by (auto simp: shifted_def available_of_def reserved_of_def inv_stock_ok_def)
qed

definition at_sku :: "gostring \<Rightarrow> int \<Rightarrow> gostring \<Rightarrow> int" where
  "at_sku sku n k = (if k = sku then n else 0)"

lemma sql_stock_shifted:
  assumes "inv_stock_ok db"
  shows "sql_ReserveStock sku n db = (Inr x, db') \<Longrightarrow> shifted (at_sku sku (- n)) (at_sku sku n) db db'"
    and "sql_ReleaseStock sku n db = (Inr x, db') \<Longrightarrow> shifted (at_sku sku n) (at_sku sku (- n)) db db'"
    and "sql_CommitStock sku n db = (Inr x, db') \<Longrightarrow> shifted (at_sku sku 0) (at_sku sku (- n)) db db'"
  unfolding at_sku_def sql_ReserveStock_def sql_ReleaseStock_def sql_CommitStock_def
  by (rule update_stock_shifted [OF _ assms], assumption, simp, simp)+

lemma sql_AdjustStock_shifted:
  assumes "inv_stock_ok db" and "sql_AdjustStock sku n db = (Inr x, db')"
  shows "shifted (at_sku sku n) (at_sku sku 0) db db'"
proof -
  from assms(2) have "update_stock (\<lambda>r. sk_Sku r = sku \<and> sk_Available r + n \<ge> 0)
      (\<lambda>r. r\<lparr>sk_Available := sk_Available r + n\<rparr>) db = (Inr x, db')"
    by (auto simp: sql_AdjustStock_def split: if_splits)
  from update_stock_shifted [OF this assms(1), of sku n 0] show ?thesis
    by (simp add: at_sku_def [abs_def])
qed

lemma explainMiss_refuses [op_inv]: "stock_explainMiss sku e s = (Inr x, s') \<longleftrightarrow> False"
  by (auto simp: stock_explainMiss_def withResult_def fail_def split: sum.splits prod.splits if_splits)

lemma stock_Reserve_Inr [op_inv]:
  "stock_Reserve sku q s = (Inr u, s') \<longleftrightarrow> (\<exists>r. sql (sql_ReserveStock sku q) s = (Inr r, s'))"
  by (cases "sql (sql_ReserveStock sku q) s"; cases "fst (sql (sql_ReserveStock sku q) s)")
    (auto simp: stock_Reserve_def op_inv)

lemma movedHold_Inr [op_inv]:
  "stock_movedHold what sku q r s = (Inr u, s') \<longleftrightarrow> (\<exists>row. r = Inr row) \<and> s' = s"
  by (auto simp: stock_movedHold_def op_inv split: sum.splits if_splits)

lemma stock_Release_Inr [op_inv]:
  "stock_Release sku q s = (Inr u, s') \<longleftrightarrow> (\<exists>r. sql (sql_ReleaseStock sku q) s = (Inr r, s'))"
  by (auto simp: stock_Release_def withResult_eq movedHold_Inr)

lemma stock_Commit_Inr [op_inv]:
  "stock_Commit sku q s = (Inr u, s') \<longleftrightarrow> (\<exists>r. sql (sql_CommitStock sku q) s = (Inr r, s'))"
  by (auto simp: stock_Commit_def withResult_eq movedHold_Inr)

text \<open>What the use cases ask of an operation that moves the stock of a line: it shifts the two
  counts of its SKU by fixed multiples of the quantity and touches nothing else.\<close>

locale stock_mover =
  fixes mv :: "gostring \<Rightarrow> int \<Rightarrow> (inv_db, 'w, unit) op"
    and a :: int
    and d :: int
  assumes moves: "mv sku q s = (Inr u, s') \<Longrightarrow> inv_stock_ok (w_db s) \<Longrightarrow>
      shifted (at_sku sku (a * q)) (at_sku sku (d * q)) (w_db s) (w_db s')"
begin

lemma moves_all:
  assumes "for_each (\<lambda>l. mv (ln_SKU l) (ln_Quantity l)) ls s = (Inr u, s')"
    and "inv_stock_ok (w_db s)"
  shows "shifted (\<lambda>k. a * line_total ls k) (\<lambda>k. d * line_total ls k) (w_db s) (w_db s')"
  using assms
proof (induction ls arbitrary: s)
  case Nil
  then show ?case by (simp add: op_inv)
next
  case (Cons l ls)
  from Cons.prems(1) obtain s1 where s1: "mv (ln_SKU l) (ln_Quantity l) s = (Inr (), s1)"
      "for_each (\<lambda>l. mv (ln_SKU l) (ln_Quantity l)) ls s1 = (Inr u, s')"
    by (auto simp: op_inv)
  note one = moves [OF s1(1) Cons.prems(2)]
  then have "inv_stock_ok (w_db s1)" using Cons.prems(2) by (simp add: shifted_def)
  note rest = Cons.IH [OF s1(2) this]
  have "(\<lambda>k. at_sku (ln_SKU l) (c * ln_Quantity l) k + c * line_total ls k) = (\<lambda>k. c * line_total (l # ls) k)"
    for c by (auto simp: fun_eq_iff at_sku_def algebra_simps)
  with shifted_trans [OF one rest] show ?case by simp
qed

end

lemma stock_op_shifted:
  assumes "inv_stock_ok (w_db s)"
  shows "stock_Reserve sku q s = (Inr u, s') \<Longrightarrow>
      shifted (at_sku sku (- q)) (at_sku sku q) (w_db s) (w_db s')"
    and "stock_Release sku q s = (Inr u, s') \<Longrightarrow>
      shifted (at_sku sku q) (at_sku sku (- q)) (w_db s) (w_db s')"
    and "stock_Commit sku q s = (Inr u, s') \<Longrightarrow>
      shifted (at_sku sku 0) (at_sku sku (- q)) (w_db s) (w_db s')"
  using sql_stock_shifted [OF assms, of sku q]
  by (auto simp: stock_Reserve_Inr stock_Release_Inr stock_Commit_Inr dest!: sql_success)

interpretation reserve: stock_mover stock_Reserve "- 1" 1
  by unfold_locales (use stock_op_shifted(1) in force)+

interpretation release: stock_mover stock_Release 1 "- 1"
  by unfold_locales (use stock_op_shifted(2) in force)+

interpretation commit: stock_mover stock_Commit 0 "- 1"
  by unfold_locales (use stock_op_shifted(3) in force)+

subsection \<open>Reading a reservation back\<close>

definition loaded_lines :: "inv_db \<Rightarrow> gostring \<Rightarrow> line_row list" where
  "loaded_lines db rid =
     sort_key (\<lambda>l. inv_collate db (rl_Sku l)) (filter (\<lambda>l. rl_ReservationID l = rid) (reservation_lines db))"

definition loaded :: "inv_db \<Rightarrow> res_row \<Rightarrow> Reservation" where
  "loaded db row = toReservationDomain row (loaded_lines db (rr_ID row))"

lemma loaded_simps [simp]:
  "res_id (loaded db row) = rr_ID row" "res_orderID (loaded db row) = rr_OrderID row"
  "res_status (loaded db row) = ReservationStatus_of (rr_Status row)"
  "res_expiresAt (loaded db row) = rr_ExpiresAt row" "res_version (loaded db row) = rr_Version row"
  "res_lines (loaded db row) =
     map (\<lambda>l. \<lparr>ln_SKU = rl_Sku l, ln_Quantity = rl_Quantity l\<rparr>) (loaded_lines db (rr_ID row))"
  by (simp_all add: loaded_def toReservationDomain_def ReconstituteReservation_def)

lemma line_total_map:
  "line_total (map (\<lambda>l. \<lparr>ln_SKU = rl_Sku l, ln_Quantity = rl_Quantity l\<rparr>) ls) k =
   sum_by (\<lambda>l. rl_Sku l = k) rl_Quantity ls"
  by (induction ls) auto

lemma line_total_loaded: "line_total (res_lines (loaded db row)) k = hold_of db (rr_ID row) k"
proof -
  let ?t = "filter (\<lambda>l. rl_ReservationID l = rr_ID row) (reservation_lines db)"
  have "sum_by (\<lambda>l. rl_Sku l = k) rl_Quantity (loaded_lines db (rr_ID row)) =
      sum_by (\<lambda>l. rl_Sku l = k) rl_Quantity ?t"
    unfolding loaded_lines_def by (intro sum_by_mset) simp
  also have "\<dots> = hold_of db (rr_ID row) k"
    by (simp add: hold_of_def sum_by_def conj_commute)
  finally show ?thesis by (simp add: line_total_map)
qed

lemma inv_linesOf_Inr:
  assumes "inv_linesOf ids s = (Inr f, s')"
  shows "w_db s' = w_db s" and "k \<in> set ids \<Longrightarrow> f k = loaded_lines (w_db s) k"
proof -
  from assms obtain rows where rows: "sql (sql_GetReservationLinesByReservationIDs ids) s = (Inr rows, s')"
      "f = (\<lambda>k. filter (\<lambda>l. rl_ReservationID l = k) rows)"
    by (auto simp: inv_linesOf_def op_inv split: sum.splits)
  from sql_success [OF rows(1)] show "w_db s' = w_db s"
    by (simp add: sql_GetReservationLinesByReservationIDs_def)
  let ?c = "\<lambda>l. inv_collate (w_db s) (rl_Sku l)"
  let ?at = "\<lambda>l. rl_ReservationID l = k"
  assume k: "k \<in> set ids"
  have "f k = filter ?at (sort_key rl_ReservationID (sort_key ?c
      (filter (\<lambda>l. rl_ReservationID l \<in> set ids) (reservation_lines (w_db s)))))"
    using sql_success [OF rows(1)] rows(2) by (auto simp: sql_GetReservationLinesByReservationIDs_def)
  also have "\<dots> = sort_key rl_ReservationID (sort_key ?c (filter ?at (reservation_lines (w_db s))))"
    using k by (simp add: filter_sort) (metis (mono_tags, lifting) filter_cong)
  also have "\<dots> = sort_key ?c (filter ?at (reservation_lines (w_db s)))"
    by (rule sort_key_constant [of _ _ k]) simp
  finally show "f k = loaded_lines (w_db s) k" by (simp add: loaded_lines_def)
qed

lemma res_withLines_Inr:
  assumes "res_withLines row s = (Inr r, s')"
  shows "w_db s' = w_db s \<and> r = loaded (w_db s) row"
proof -
  from assms obtain f where f: "inv_linesOf [rr_ID row] s = (Inr f, s')"
      "r = toReservationDomain row (f (rr_ID row))"
    by (auto simp: res_withLines_def op_inv)
  from inv_linesOf_Inr [OF f(1)] f(2) show ?thesis by (simp add: loaded_def)
qed

lemma inv_repo_parseUUID_Inr [op_inv]:
  "inv_repo_parseUUID U what s = Inr u \<longleftrightarrow> uuid_Parse U s = Inr u"
  by (auto simp: inv_repo_parseUUID_def split: sum.splits)

lemma reservations_FindByID_Inr:
  assumes "reservations_FindByID U rid s = (Inr r, s')"
  obtains row where "uuid_Parse U rid = Inr (rr_ID row)" "row \<in> set (reservations (w_db s))"
    "r = loaded (w_db s) row" "w_db s' = w_db s"
proof -
  from assms obtain uid row s1 where 1: "uuid_Parse U rid = Inr uid"
      "sql (sql_GetReservationByID uid) s = (Inr row, s1)" "res_withLines row s1 = (Inr r, s')"
    by (auto simp: reservations_FindByID_def op_inv split: sum.splits if_splits)
  from sql_success [OF 1(2)] have "w_db s1 = w_db s" "row \<in> set (reservations (w_db s))" "rr_ID row = uid"
    by (auto simp: sql_GetReservationByID_def split: option.splits dest!: find_mem)
  with res_withLines_Inr [OF 1(3)] 1(1) that [of row] show ?thesis by auto
qed

lemma reservations_FindHeldByOrderID_Inr:
  assumes "reservations_FindHeldByOrderID U orderID s = (Inr r, s')"
  obtains row where "uuid_Parse U orderID = Inr (rr_OrderID row)" "row \<in> set (reservations (w_db s))"
    "held_row row" "r = loaded (w_db s) row" "w_db s' = w_db s"
proof -
  from assms obtain uid row s1 where 1: "uuid_Parse U orderID = Inr uid"
      "sql (sql_GetHeldReservationByOrderID uid) s = (Inr row, s1)" "res_withLines row s1 = (Inr r, s')"
    by (auto simp: reservations_FindHeldByOrderID_def op_inv split: sum.splits if_splits)
  from sql_success [OF 1(2)] have "w_db s1 = w_db s" "row \<in> set (reservations (w_db s))"
      "rr_OrderID row = uid" "held_row row"
    by (auto simp: sql_GetHeldReservationByOrderID_def split: option.splits dest!: find_mem)
  with res_withLines_Inr [OF 1(3)] 1(1) that [of row] show ?thesis by auto
qed

lemma reservations_ClaimExpired_Inr:
  assumes "reservations_ClaimExpired locked now limit s = (Inr rs, s')"
  shows "w_db s' = w_db s \<and>
    (\<exists>rows. fst (sql_ClaimExpiredReservations locked now (clamp32 limit) (w_db s)) = Inr rows \<and>
       rs = map (loaded (w_db s)) rows)"
proof -
  from assms obtain rows s1 where 1:
      "sql (sql_ClaimExpiredReservations locked now (clamp32 limit)) s = (Inr rows, s1)"
      "(if rows = [] then ret []
        else andThen (inv_linesOf (map rr_ID rows))
          (\<lambda>ls. ret (map (\<lambda>row. toReservationDomain row (ls (rr_ID row))) rows))) s1 = (Inr rs, s')"
    by (auto simp: reservations_ClaimExpired_def op_inv split: sum.splits)
  from sql_success [OF 1(1)] have db: "w_db s1 = w_db s"
      "fst (sql_ClaimExpiredReservations locked now (clamp32 limit) (w_db s)) = Inr rows"
    by (auto simp: sql_ClaimExpiredReservations_def)
  have "w_db s' = w_db s1 \<and> rs = map (loaded (w_db s1)) rows"
  proof (cases "rows = []")
    case True
    with 1(2) show ?thesis by (auto simp: op_inv)
  next
    case False
    with 1(2) obtain f where f: "inv_linesOf (map rr_ID rows) s1 = (Inr f, s')"
        "rs = map (\<lambda>row. toReservationDomain row (f (rr_ID row))) rows"
      by (auto simp: op_inv)
    from inv_linesOf_Inr [OF f(1)] f(2) show ?thesis by (auto simp: loaded_def)
  qed
  with db show ?thesis by auto
qed

subsection \<open>Writing a reservation\<close>

lemma sql_CreateReservation_Inr:
  assumes "sql_CreateReservation uid orderID status e db = (Inr row, db')"
  shows "db' = db\<lparr>reservations := reservations db @ [row]\<rparr> \<and> rr_ID row = uid \<and>
    rr_OrderID row = orderID \<and> rr_Status row = status \<and> rr_ExpiresAt row = pg_time e \<and>
    rr_Version row = 1 \<and> uid \<notin> rr_ID ` set (reservations db) \<and>
    (inv_res_ok db \<longrightarrow> inv_res_ok db')"
  using assms
  by (auto simp: sql_CreateReservation_def Let_def inv_res_ok_def held_row_def split: if_splits)

lemma sql_CreateReservationLine_Inr:
  assumes "sql_CreateReservationLine lid uid sku q db = (Inr l, db')"
  shows "db' = db\<lparr>reservation_lines := reservation_lines db @ [l]\<rparr> \<and> rl_ReservationID l = uid \<and>
    rl_Sku l = sku \<and> rl_Quantity l = q \<and> (inv_res_ok db \<longrightarrow> inv_res_ok db')"
  using assms
  by (auto simp: sql_CreateReservationLine_def Let_def inv_res_ok_def split: if_splits)

text \<open>The loop of \<open>Create\<close> that inserts the lines.\<close>

definition create_lines ::
  "uuid_lib \<Rightarrow> (nat \<Rightarrow> gostring) \<Rightarrow> gostring \<Rightarrow> (nat \<times> Line) list \<Rightarrow> ('w, line_row list) inv_op" where
  "create_lines U new_line_id uid = map_each (\<lambda>(i, line).
     andThen (pure_op (inv_repo_parseUUID U ''reservation line id'' (new_line_id i))) (\<lambda>lineID.
     mapErr (\<lambda>e. wrap e KindInternal (''create reservation line '' @ ln_SKU line))
       (sql (sql_CreateReservationLine lineID uid (ln_SKU line) (ln_Quantity line)))))"

lemma create_lines_Inr:
  assumes "create_lines U f uid xs s = (Inr ls, s')"
  shows "w_db s' = (w_db s)\<lparr>reservation_lines := reservation_lines (w_db s) @ ls\<rparr> \<and>
    (\<forall>l \<in> set ls. rl_ReservationID l = uid) \<and>
    (\<forall>k. sum_by (\<lambda>l. rl_Sku l = k) rl_Quantity ls = line_total (map snd xs) k) \<and>
    (inv_res_ok (w_db s) \<longrightarrow> inv_res_ok (w_db s'))"
  using assms unfolding create_lines_def
proof (induction xs arbitrary: s ls)
  case Nil
  then show ?case by (simp add: op_inv)
next
  case (Cons x xs)
  obtain i line where x: "x = (i, line)" by (cases x)
  from Cons.prems x obtain lid l rest s1 where step:
      "sql (sql_CreateReservationLine lid uid (ln_SKU line) (ln_Quantity line)) s = (Inr l, s1)"
      "map_each (\<lambda>(i, line).
         andThen (pure_op (inv_repo_parseUUID U ''reservation line id'' (f i))) (\<lambda>lineID.
         mapErr (\<lambda>e. wrap e KindInternal (''create reservation line '' @ ln_SKU line))
           (sql (sql_CreateReservationLine lineID uid (ln_SKU line) (ln_Quantity line))))) xs s1 = (Inr rest, s')"
      "ls = l # rest"
    by (auto simp: op_inv)
  from sql_success [OF step(1)] sql_CreateReservationLine_Inr Cons.IH [OF step(2)] step(3) x
  show ?case by fastforce
qed

lemma create_lines_rows:
  assumes "create_lines U f uid xs s = (Inr ls, s')"
  shows "map (\<lambda>l. \<lparr>ln_SKU = rl_Sku l, ln_Quantity = rl_Quantity l\<rparr>) ls = map snd xs"
  using assms unfolding create_lines_def
proof (induction xs arbitrary: s ls)
  case (Cons x xs)
  then show ?case
    by (cases x) (auto simp: op_inv dest!: sql_success sql_CreateReservationLine_Inr)
qed (simp add: op_inv)

lemma reservations_Create_Inr:
  assumes "reservations_Create U f r s = (Inr r', s')"
  obtains uid row ls orderID where "uuid_Parse U (res_id r) = Inr uid"
    "uuid_Parse U (res_orderID r) = Inr orderID"
    "w_db s' = (w_db s)\<lparr>reservations := reservations (w_db s) @ [row],
       reservation_lines := reservation_lines (w_db s) @ ls\<rparr>"
    "rr_ID row = uid" "rr_OrderID row = orderID" "rr_Status row = res_status_text (res_status r)"
    "rr_ExpiresAt row = pg_time (res_expiresAt r)" "rr_Version row = 1"
    "uid \<notin> rr_ID ` set (reservations (w_db s))" "\<forall>l \<in> set ls. rl_ReservationID l = uid"
    "\<forall>k. sum_by (\<lambda>l. rl_Sku l = k) rl_Quantity ls = line_total (res_lines r) k"
    "inv_res_ok (w_db s) \<longrightarrow> inv_res_ok (w_db s')" "r' = toReservationDomain row ls"
    "map (\<lambda>l. \<lparr>ln_SKU = rl_Sku l, ln_Quantity = rl_Quantity l\<rparr>) ls = res_lines r"
proof -
  from assms obtain uid orderID row s1 ls where 1:
      "uuid_Parse U (res_id r) = Inr uid" "uuid_Parse U (res_orderID r) = Inr orderID"
      "sql (sql_CreateReservation uid orderID (res_status_text (res_status r)) (res_expiresAt r)) s = (Inr row, s1)"
      "create_lines U f uid (enumerate 0 (res_lines r)) s1 = (Inr ls, s')"
      "r' = toReservationDomain row ls"
    unfolding create_lines_def by (auto simp: reservations_Create_def Let_def op_inv)
  from sql_success [OF 1(3)] sql_CreateReservation_Inr have row:
      "w_db s1 = (w_db s)\<lparr>reservations := reservations (w_db s) @ [row]\<rparr>" "rr_ID row = uid"
      "rr_OrderID row = orderID" "rr_Status row = res_status_text (res_status r)"
      "rr_ExpiresAt row = pg_time (res_expiresAt r)" "rr_Version row = 1"
      "uid \<notin> rr_ID ` set (reservations (w_db s))" "inv_res_ok (w_db s) \<longrightarrow> inv_res_ok (w_db s1)"
    by blast+
  from create_lines_Inr [OF 1(4)] have ls:
      "w_db s' = (w_db s1)\<lparr>reservation_lines := reservation_lines (w_db s1) @ ls\<rparr>"
      "\<forall>l \<in> set ls. rl_ReservationID l = uid"
      "\<forall>k. sum_by (\<lambda>l. rl_Sku l = k) rl_Quantity ls = line_total (res_lines r) k"
      "inv_res_ok (w_db s1) \<longrightarrow> inv_res_ok (w_db s')"
    by auto
  show ?thesis
    by (rule that [OF 1(1,2) _ row(2-7) ls(2,3) _ 1(5)])
      (use row(1,8) ls(1,4) create_lines_rows [OF 1(4)] in simp_all)
qed

lemma sum_by_unheld:
  assumes "inv_res_ok db" and "uid \<notin> rr_ID ` set (reservations db)"
  shows "sum_by (\<lambda>l. rl_Sku l = k \<and> rl_ReservationID l \<in> insert uid H) rl_Quantity (reservation_lines db) =
    sum_by (\<lambda>l. rl_Sku l = k \<and> rl_ReservationID l \<in> H) rl_Quantity (reservation_lines db)"
  using assms by (intro sum_by_cong) (auto simp: inv_res_ok_def)

text \<open>A new hold adds its lines to what is held.\<close>

lemma reservations_Create_books:
  assumes "reservations_Create U f r s = (Inr r', s')" and "inv_res_ok (w_db s)"
    and "res_status r = StatusHeld"
  shows "inv_res_ok (w_db s') \<and> stock_items (w_db s') = stock_items (w_db s) \<and>
    (\<forall>k. held_total (w_db s') k = held_total (w_db s) k + line_total (res_lines r) k)"
proof -
  obtain uid row ls orderID where c: "w_db s' = (w_db s)\<lparr>reservations := reservations (w_db s) @ [row],
       reservation_lines := reservation_lines (w_db s) @ ls\<rparr>"
    "rr_ID row = uid" "rr_Status row = res_status_text (res_status r)"
    "uid \<notin> rr_ID ` set (reservations (w_db s))" "\<forall>l \<in> set ls. rl_ReservationID l = uid"
    "\<forall>k. sum_by (\<lambda>l. rl_Sku l = k) rl_Quantity ls = line_total (res_lines r) k"
    "inv_res_ok (w_db s) \<longrightarrow> inv_res_ok (w_db s')"
    by (rule reservations_Create_Inr [OF assms(1)], rule that, assumption+)
  from c(1-3) assms(3) have ids: "held_ids (w_db s') = insert uid (held_ids (w_db s))"
    by (auto simp: held_ids_def held_row_def)
  have new: "sum_by (\<lambda>l. rl_Sku l = k \<and> rl_ReservationID l \<in> insert uid H) rl_Quantity ls =
      sum_by (\<lambda>l. rl_Sku l = k) rl_Quantity ls" for k H
    using c(5) by (intro sum_by_cong) auto
  have "held_total (w_db s') k = held_total (w_db s) k + line_total (res_lines r) k" for k
    using c(1,6) new [of k "held_ids (w_db s)"] sum_by_unheld [OF assms(2) c(4), of k "held_ids (w_db s)"]
    unfolding held_total_def ids by simp
  with c(1,7) assms(2) show ?thesis by simp
qed

subsection \<open>Settling a reservation\<close>

lemma sql_UpdateReservationStatus_Inr:
  assumes "sql_UpdateReservationStatus uid status v db = (Inr x, db')" and "inv_res_ok db"
  obtains row p q where "rr_ID row = uid" "rr_Version row = v" "reservations db = p @ row # q"
    "x = row\<lparr>rr_Status := status, rr_UpdatedAt := inv_now db, rr_Version := rr_Version row + 1\<rparr>"
    "db' = db\<lparr>reservations := p @ x # q\<rparr>" "\<forall>y \<in> set p \<union> set q. rr_ID y \<noteq> uid"
    "inv_res_ok db'"
proof -
  let ?P = "\<lambda>r. rr_ID r = uid \<and> rr_Version r = v"
  let ?f = "\<lambda>r. if \<not> int4 (rr_Version r + 1) then Inl out_of_range
             else if \<not> known_status status then Inl (check_violation ''reservations_status_check'')
             else if status = ''held'' \<and> rr_OrderID r \<in>
               set (map rr_OrderID (filter (\<lambda>r'. held_row r' \<and> rr_ID r' \<noteq> uid) (reservations db)))
             then Inl (unique_violation heldOrderConstraint)
             else Inr (r\<lparr>rr_Status := status, rr_UpdatedAt := inv_now db,
                        rr_Version := rr_Version r + 1\<rparr>)"
  from assms(1) obtain t where t: "update_one ?P ?f (reservations db) = Inr (x, t)"
      "db' = db\<lparr>reservations := t\<rparr>"
    by (auto simp: sql_UpdateReservationStatus_def split: sum.splits prod.splits)
  have "one_row rr_ID ?P (reservations db)"
    using assms(2) by (intro one_rowI) (auto simp: inv_res_ok_def)
  then obtain row p q where r: "?P row" "?f row = Inr x"
      "reservations db = p @ row # q" "t = p @ x # q"
      "\<forall>y \<in> set p \<union> set q. rr_ID y \<noteq> rr_ID row"
    by (rule update_one_split [OF _ t(1)])
  from r(2) have x: "known_status status"
      "status = ''held'' \<Longrightarrow> rr_OrderID row \<notin>
        set (map rr_OrderID (filter (\<lambda>r'. held_row r' \<and> rr_ID r' \<noteq> uid) (reservations db)))"
      "x = row\<lparr>rr_Status := status, rr_UpdatedAt := inv_now db, rr_Version := rr_Version row + 1\<rparr>"
    by (auto split: if_splits)
  have "inv_res_ok db'"
    using assms(2) t(2) r(1,3,4,5) x
    by (auto simp: inv_res_ok_def held_row_def image_iff split: if_splits)
  with r t(2) x(3) that show ?thesis by blast
qed

text \<open>One reservation leaves the held ones; its lines leave \<open>reserved\<close>, and \<open>a\<close> of each
  returns to \<open>available\<close>.\<close>

definition settles :: "int \<Rightarrow> string \<Rightarrow> gostring \<Rightarrow> inv_db \<Rightarrow> inv_db \<Rightarrow> bool" where
  "settles a status uid db db' \<longleftrightarrow>
     uid \<in> held_ids db \<and> held_ids db' = held_ids db - {uid} \<and>
     reservation_lines db' = reservation_lines db \<and> inv_collate db' = inv_collate db \<and>
     inv_now db' = inv_now db \<and>
     (\<forall>row. rr_ID row \<noteq> uid \<longrightarrow> row \<in> set (reservations db') \<longleftrightarrow> row \<in> set (reservations db)) \<and>
     (\<exists>row \<in> set (reservations db'). rr_ID row = uid \<and> rr_Status row = status) \<and>
     map sk_Sku (stock_items db') = map sk_Sku (stock_items db) \<and>
     (\<forall>k. available_of db' k = available_of db k + a * hold_of db uid k) \<and>
     (\<forall>k. reserved_of db' k = reserved_of db k - hold_of db uid k)"

lemma settles_held_total:
  assumes "settles a status uid db db'"
  shows "held_total db' k = held_total db k - hold_of db uid k"
  using assms held_total_split [of uid db k] by (simp add: settles_def held_total_def)

definition inconsistent :: "err \<Rightarrow> bool" where
  "inconsistent e \<longleftrightarrow> (\<exists>md. first_Error e = Some (''STOCK_INCONSISTENT'', md))"

lemma sql_hold_found:
  assumes ok: "inv_stock_ok db" and q: "0 < q" "q \<le> reserved_of db sku"
  shows "fst (sql_ReleaseStock sku q db) \<noteq> Inl NoRows" and "fst (sql_CommitStock sku q db) \<noteq> Inl NoRows"
proof -
  from q have "reserved_of db sku \<noteq> 0" by simp
  then have "\<exists>r \<in> set (stock_items db). sk_Sku r = sku"
    by (rule contrapos_np) (auto simp: reserved_of_def intro!: sum_by_none)
  then obtain r where r: "r \<in> set (stock_items db)" "sk_Sku r = sku" by blast
  have one: "one_row sk_Sku (\<lambda>r. sk_Sku r = sku \<and> P r) (stock_items db)" for P
    using ok by (intro one_rowI) (auto simp: inv_stock_ok_def)
  obtain a b where ab: "stock_items db = a @ r # b"
      "\<And>x. x \<in> set a \<union> set b \<Longrightarrow> \<not> (sk_Sku x = sku \<and> True)"
      "\<And>x. x \<in> set a \<union> set b \<Longrightarrow> sk_Sku x \<noteq> sk_Sku r"
    by (rule one_row_split [OF one [of "\<lambda>_. True"] r(1)]) (simp_all add: r(2))
  then have "reserved_of db sku = sk_Reserved r"
    using r(2) by (simp add: reserved_of_def sum_by_none)
  with q(2) have "q \<le> sk_Reserved r" by simp
  with r have "List.find (\<lambda>r. sk_Sku r = sku \<and> q \<le> sk_Reserved r) (stock_items db) = Some r"
    by (intro update_one_found [OF one]) auto
  then show "fst (sql_ReleaseStock sku q db) \<noteq> Inl NoRows" "fst (sql_CommitStock sku q db) \<noteq> Inl NoRows"
    by (simp_all add: sql_ReleaseStock_def sql_CommitStock_def update_stock_def update_one_def checked_stock_def)
qed

lemma sql_error:
  assumes "sql q s = (Inl e, s')"
  shows "e = conn_err \<or> fst (q (w_db s)) = Inl e"
  using assms by (auto simp: sql_def split: prod.splits outcome.splits dest!: next_outcome_frame)

lemma update_stock_errors:
  assumes "fst (update_stock P f db) = Inl e"
  shows "is_NoRows e \<longleftrightarrow> e = NoRows"
  using assms by (auto simp: update_stock_def update_one_def checked_stock_def split: sum.splits option.splits if_splits)

lemma not_inconsistent_wrap [simp]: "\<not> inconsistent (wrap e k m)"
  by (simp add: inconsistent_def Wrap_def)

lemma movedHold_consistent:
  "stock_movedHold what sku q r s = (Inl e, s') \<Longrightarrow> (\<And>e0. r = Inl e0 \<Longrightarrow> \<not> is_NoRows e0) \<Longrightarrow> \<not> inconsistent e"
  by (cases r) (auto simp: stock_movedHold_def op_inv)

lemma stock_hold_consistent:
  assumes ok: "inv_stock_ok (w_db s)" and q: "0 < q" "q \<le> reserved_of (w_db s) sku"
  shows "stock_Release sku q s = (Inl e, s') \<Longrightarrow> \<not> inconsistent e"
    and "stock_Commit sku q s = (Inl e, s') \<Longrightarrow> \<not> inconsistent e"
proof -
  have err: "\<not> is_NoRows e1"
    if "sql (sql_ReleaseStock sku q) s = (Inl e1, s1) \<or> sql (sql_CommitStock sku q) s = (Inl e1, s1)" for e1 s1
    using that sql_hold_found [OF assms] sql_error [of _ s e1 s1] update_stock_errors [of _ _ "w_db s" e1]
    unfolding sql_ReleaseStock_def sql_CommitStock_def by fastforce
  show "\<not> inconsistent e" if "stock_Release sku q s = (Inl e, s')"
    using that err unfolding stock_Release_def withResult_eq by (auto elim!: movedHold_consistent)
  show "\<not> inconsistent e" if "stock_Commit sku q s = (Inl e, s')"
    using that err unfolding stock_Commit_def withResult_eq by (auto elim!: movedHold_consistent)
qed

lemma linesOf_reason: "inv_linesOf ids s = (Inl e, s') \<Longrightarrow> \<not> inconsistent e"
  by (auto simp: inv_linesOf_def op_inv)

lemma parse_reason: "inv_repo_parseUUID U what x = Inl e \<Longrightarrow> \<not> inconsistent e"
  by (auto simp: inv_repo_parseUUID_def split: sum.splits)

lemma FindByID_reason: "reservations_FindByID U rid s = (Inl e, s') \<Longrightarrow> \<not> inconsistent e"
  unfolding reservations_FindByID_def res_withLines_def
  by (auto simp: andThen_Inl op_inv simp del: not_inconsistent_wrap
      intro: not_inconsistent_wrap dest: parse_reason linesOf_reason)
    (auto simp: inv_notFound_def Wrap_def inconsistent_def)

lemma Update_reason: "reservations_Update U r s = (Inl e, s') \<Longrightarrow> \<not> inconsistent e"
  unfolding reservations_Update_def Let_def
  by (auto simp: andThen_Inl op_inv simp del: not_inconsistent_wrap
      intro: not_inconsistent_wrap dest: parse_reason linesOf_reason)
    (auto simp: New_def Wrap_def inconsistent_def)

text \<open>A mover that takes from \<open>reserved\<close>, and finds what was reserved.\<close>

locale hold_mover = stock_mover mv a "- 1" for mv :: "gostring \<Rightarrow> int \<Rightarrow> (inv_db, 'w, unit) op" and a +
  assumes enough: "mv sku q s = (Inl e, s') \<Longrightarrow> inv_stock_ok (w_db s) \<Longrightarrow> 0 < q \<Longrightarrow>
      q \<le> reserved_of (w_db s) sku \<Longrightarrow> \<not> inconsistent e"
begin

lemma all_consistent:
  assumes "for_each (\<lambda>l. mv (ln_SKU l) (ln_Quantity l)) ls s = (Inl e, s')"
    and "inv_stock_ok (w_db s)" and "\<forall>l \<in> set ls. 0 < ln_Quantity l"
    and "\<forall>k. line_total ls k \<le> reserved_of (w_db s) k"
  shows "\<not> inconsistent e"
  using assms
proof (induction ls arbitrary: s)
  case Nil
  then show ?case by (simp add: op_inv)
next
  case (Cons l ls)
  from Cons.prems(1) consider "mv (ln_SKU l) (ln_Quantity l) s = (Inl e, s')"
    | s1 where "mv (ln_SKU l) (ln_Quantity l) s = (Inr (), s1)"
        "for_each (\<lambda>l. mv (ln_SKU l) (ln_Quantity l)) ls s1 = (Inl e, s')"
    by (auto simp: andThen_Inl)
  then show ?case
  proof cases
    case 1
    have "0 \<le> line_total ls (ln_SKU l)" using Cons.prems(3) by (intro line_total_nonneg) simp
    moreover have "line_total (l # ls) (ln_SKU l) \<le> reserved_of (w_db s) (ln_SKU l)" using Cons.prems(4) by blast
    ultimately have "ln_Quantity l \<le> reserved_of (w_db s) (ln_SKU l)" by simp
    with enough [OF 1 Cons.prems(2)] Cons.prems(3) show ?thesis by simp
  next
    case (2 s1)
    note m = moves [OF 2(1) Cons.prems(2)]
    have "line_total ls k \<le> reserved_of (w_db s1) k" for k
      using m Cons.prems(4) [rule_format, of k] by (auto simp: shifted_def at_sku_def split: if_splits)
    with Cons.IH [OF 2(2)] m Cons.prems(2,3) show ?thesis by (simp add: shifted_def)
  qed
qed

lemma settle_step:
  assumes ok: "inv_ok U (w_db s)" and row: "row \<in> set (reservations (w_db s))" "held_row row"
    and r: "res_id r = rr_ID row" "res_lines r = res_lines (loaded (w_db s) row)"
      "res_status_text (res_status r) \<noteq> ''held''"
    and moves: "for_each (\<lambda>l. mv (ln_SKU l) (ln_Quantity l)) (res_lines r) s = (Inr u, s1)"
    and update: "reservations_Update U r s1 = (Inr r', s')"
  shows "inv_ok U (w_db s') \<and> settles a (res_status_text (res_status r)) (rr_ID row) (w_db s) (w_db s')"
proof -
  let ?uid = "rr_ID row"
  let ?st = "res_status_text (res_status r)"
  from ok have so: "inv_stock_ok (w_db s)" and ro: "inv_res_ok (w_db s)" and ty: "inv_typed U (w_db s)"
    by (simp_all add: inv_ok_def)
  from moves_all [OF moves so] have m: "shifted (\<lambda>k. a * hold_of (w_db s) ?uid k)
      (\<lambda>k. - hold_of (w_db s) ?uid k) (w_db s) (w_db s1)"
    unfolding r(2) line_total_loaded by simp
  from ty row(1) r(1) have "uuid_Parse U (res_id r) = Inr ?uid" by (simp add: inv_typed_def)
  with update obtain x s2 f where up:
      "sql (sql_UpdateReservationStatus ?uid ?st (clamp32 (res_version r))) s1 = (Inr x, s2)"
      "inv_linesOf [?uid] s2 = (Inr f, s')"
    by (auto simp: reservations_Update_def Let_def op_inv)
  from m ro have "inv_res_ok (w_db s1)" by (simp add: shifted_def inv_res_ok_def)
  from sql_UpdateReservationStatus_Inr [OF _ this] sql_success [OF up(1)]
  obtain old p q where n: "rr_ID old = ?uid" "reservations (w_db s1) = p @ old # q"
      "x = old\<lparr>rr_Status := ?st, rr_UpdatedAt := inv_now (w_db s1), rr_Version := rr_Version old + 1\<rparr>"
      "w_db s2 = (w_db s1)\<lparr>reservations := p @ x # q\<rparr>" "\<forall>y \<in> set p \<union> set q. rr_ID y \<noteq> ?uid"
      "inv_res_ok (w_db s2)" by metis
  have db: "w_db s' = w_db s2" using inv_linesOf_Inr(1) [OF up(2)] .
  have rs: "reservations (w_db s) = p @ old # q" "reservations (w_db s') = p @ x # q"
    using m n(2,4) by (simp_all add: db shifted_def)
  have x: "rr_ID x = ?uid" "rr_Status x = ?st" "\<not> held_row x" using n(1,3) r(3) by (simp_all add: held_row_def)
  have "held_ids (w_db s') = held_ids (w_db s) - {?uid}"
    unfolding held_ids_def rs using n(1,5) x by auto
  moreover have "?uid \<in> held_ids (w_db s)" using row by (auto simp: held_ids_def)
  moreover have "rr_ID y \<noteq> ?uid \<longrightarrow> y \<in> set (reservations (w_db s')) \<longleftrightarrow> y \<in> set (reservations (w_db s))" for y
    unfolding rs using n(1) x by auto
  moreover have "\<exists>y \<in> set (reservations (w_db s')). rr_ID y = ?uid \<and> rr_Status y = ?st"
    unfolding rs using x by auto
  ultimately have sett: "settles a ?st ?uid (w_db s) (w_db s')"
    using m n(4) by (simp add: db settles_def shifted_def available_of_def reserved_of_def)
  have "inv_typed U (w_db s')" using ty unfolding inv_typed_def rs by (simp add: n(3))
  moreover have "inv_stock_ok (w_db s')" using m so n(4) by (simp add: db shifted_def inv_stock_ok_def)
  moreover have "inv_res_ok (w_db s')" using n(6) by (simp add: db)
  moreover have "reserved_of (w_db s') k = held_total (w_db s') k" for k
    using ok sett settles_held_total [OF sett, of k] by (simp add: inv_ok_def settles_def)
  ultimately show ?thesis using sett by (simp add: inv_ok_def)
qed

lemma settle_tx_consistent:
  assumes ok: "inv_ok U (w_db s)"
    and run: "inv_settle_tx U rid change mv s = (Inl e, s')"
    and change: "\<And>r m r2. change r = Inr (m, r2) \<Longrightarrow>
      (if m then res_status r = StatusHeld \<and> r2 = r\<lparr>res_status := st\<rparr> else r2 = r)"
    and reason: "\<And>r e. change r = Inl e \<Longrightarrow> \<not> inconsistent e"
  shows "\<not> inconsistent e"
proof -
  from run consider "reservations_FindByID U rid s = (Inl e, s')"
    | r0 where "change r0 = Inl e"
    | r0 s1 m r2 where "reservations_FindByID U rid s = (Inr r0, s1)" "change r0 = Inr (m, r2)" "m"
        "andThen (for_each (\<lambda>l. mv (ln_SKU l) (ln_Quantity l)) (res_lines r2))
          (\<lambda>_. reservations_Update U r2) s1 = (Inl e, s')"
    by (auto simp: inv_settle_tx_def andThen_Inl op_inv split: prod.splits if_splits)
  then show ?thesis
  proof cases
    case 1
    then show ?thesis by (rule FindByID_reason)
  next
    case 2
    then show ?thesis by (rule reason)
  next
    case 3
    obtain row where row: "row \<in> set (reservations (w_db s))" "r0 = loaded (w_db s) row" "w_db s1 = w_db s"
      by (rule reservations_FindByID_Inr [OF 3(1)])
    from change [OF 3(2)] 3(3) have r2: "res_status r0 = StatusHeld" "r2 = r0\<lparr>res_status := st\<rparr>" by auto
    from ok have so: "inv_stock_ok (w_db s1)" and ro: "inv_res_ok (w_db s)" by (simp_all add: inv_ok_def row(3))
    have "rr_ID row \<in> held_ids (w_db s)"
      using r2(1) row(1,2) by (auto simp: held_ids_def held_row_def ReservationStatus_of_held)
    then have le: "line_total (res_lines r2) k \<le> reserved_of (w_db s1) k" for k
      using hold_le_held [OF ro, of "rr_ID row" k] ok line_total_loaded [of "w_db s" row k] r2 row
      by (simp add: inv_ok_def)
    have pos: "\<forall>l \<in> set (res_lines r2). 0 < ln_Quantity l"
      using ro r2(2) row(2) by (auto simp: inv_res_ok_def loaded_lines_def)
    from 3(4) consider "for_each (\<lambda>l. mv (ln_SKU l) (ln_Quantity l)) (res_lines r2) s1 = (Inl e, s')"
      | s2 where "reservations_Update U r2 s2 = (Inl e, s')"
      by (auto simp: andThen_Inl)
    then show ?thesis
    proof cases
      case 1
      then show ?thesis using so pos le by (intro all_consistent) auto
    next
      case 2
      then show ?thesis by (rule Update_reason)
    qed
  qed
qed

lemma settle_tx_books:
  assumes ok: "inv_ok U (w_db s)"
    and run: "inv_settle_tx U rid change mv s = (Inr r', s')"
    and change: "\<And>r m r2. change r = Inr (m, r2) \<Longrightarrow>
      (if m then res_status r = StatusHeld \<and> r2 = r\<lparr>res_status := st\<rparr> else r2 = r)"
    and st: "res_status_text st \<noteq> ''held''"
  shows "inv_ok U (w_db s') \<and>
    (w_db s' = w_db s \<or>
     (\<exists>uid. uuid_Parse U rid = Inr uid \<and> settles a (res_status_text st) uid (w_db s) (w_db s')))"
proof -
  from run obtain r0 s1 m r2 where 1: "reservations_FindByID U rid s = (Inr r0, s1)"
      "change r0 = Inr (m, r2)"
      "(if \<not> m then ret r2 else andThen (for_each (\<lambda>l. mv (ln_SKU l) (ln_Quantity l)) (res_lines r2))
          (\<lambda>_. reservations_Update U r2)) s1 = (Inr r', s')"
    by (auto simp: inv_settle_tx_def op_inv split: prod.splits)
  obtain row where row: "uuid_Parse U rid = Inr (rr_ID row)" "row \<in> set (reservations (w_db s))"
      "r0 = loaded (w_db s) row" "w_db s1 = w_db s"
    by (rule reservations_FindByID_Inr [OF 1(1)])
  show ?thesis
  proof (cases m)
    case False
    with 1(3) row(4) ok show ?thesis by (simp add: op_inv)
  next
    case True
    with change [OF 1(2)] have r2: "res_status r0 = StatusHeld" "r2 = r0\<lparr>res_status := st\<rparr>" by auto
    from True 1(3) obtain u s2 where 2: "for_each (\<lambda>l. mv (ln_SKU l) (ln_Quantity l)) (res_lines r2) s1 = (Inr u, s2)"
        "reservations_Update U r2 s2 = (Inr r', s')"
      by (auto simp: op_inv)
    have "held_row row" using r2(1) row(3) by (simp add: held_row_def ReservationStatus_of_held)
    then have "inv_ok U (w_db s') \<and> settles a (res_status_text (res_status r2)) (rr_ID row) (w_db s1) (w_db s')"
      using ok row r2 st by (intro settle_step [OF _ _ _ _ _ _ 2]) simp_all
    with row r2 show ?thesis by auto
  qed
qed

end

interpretation release: hold_mover stock_Release 1
  by unfold_locales (rule stock_hold_consistent(1))

interpretation commit: hold_mover stock_Commit 0
  by unfold_locales (rule stock_hold_consistent(2))

lemma Release_contract:
  "res_Release r = Inr (m, r2) \<Longrightarrow>
   (if m then res_status r = StatusHeld \<and> r2 = r\<lparr>res_status := StatusReleased\<rparr> else r2 = r)"
  by (auto simp: res_Release_def split: ReservationStatus.splits)

lemma Commit_contract:
  "res_Commit now r = Inr (m, r2) \<Longrightarrow>
   (if m then res_status r = StatusHeld \<and> r2 = r\<lparr>res_status := StatusCommitted\<rparr> else r2 = r)"
  by (auto simp: res_Commit_def split: ReservationStatus.splits if_splits)

lemma commit_tx_books:
  assumes "inv_ok U (w_db s)" and "inv_settle_tx U rid (res_Commit now) stock_Commit s = (Inr r', s')"
  shows "inv_ok U (w_db s') \<and> (w_db s' = w_db s \<or>
    (\<exists>uid. uuid_Parse U rid = Inr uid \<and> settles 0 ''committed'' uid (w_db s) (w_db s')))"
  using commit.settle_tx_books [OF assms, of StatusCommitted] Commit_contract by simp

lemma release_tx_books:
  assumes "inv_ok U (w_db s)" and "inv_settle_tx U rid res_Release stock_Release s = (Inr r', s')"
  shows "inv_ok U (w_db s') \<and> (w_db s' = w_db s \<or>
    (\<exists>uid. uuid_Parse U rid = Inr uid \<and> settles 1 ''released'' uid (w_db s) (w_db s')))"
  using release.settle_tx_books [OF assms, of StatusReleased] Release_contract by simp

subsection \<open>Taking a hold\<close>

lemma read_only_linesOf: "read_only (inv_linesOf ids)"
  unfolding inv_linesOf_def
  by (intro read_only_withResult read_only_sql) (auto simp: sql_GetReservationLinesByReservationIDs_def split: sum.splits)

lemma read_only_FindHeld: "read_only (reservations_FindHeldByOrderID U orderID)"
  unfolding reservations_FindHeldByOrderID_def res_withLines_def
  by (intro read_only_andThen read_only_withResult read_only_sql read_only_basic)
    (auto simp: sql_GetHeldReservationByOrderID_def read_only_linesOf split: sum.splits option.splits)

lemma take_hold_books:
  assumes ok: "inv_ok U (w_db s)" and U: "uuid_ok U"
    and run: "inv_take_hold U f c s = (Inr r', s')"
    and c: "res_status c = StatusHeld"
  shows "inv_ok U (w_db s') \<and>
    (w_db s' = w_db s \<and> res_lines r' = res_lines c \<or>
     (\<forall>k. available_of (w_db s') k = available_of (w_db s) k - line_total (res_lines c) k \<and>
          reserved_of (w_db s') k = reserved_of (w_db s) k + line_total (res_lines c) k) \<and>
     map sk_Sku (stock_items (w_db s')) = map sk_Sku (stock_items (w_db s)))"
proof (cases "reservations_FindHeldByOrderID U (res_orderID c) s")
  case (Pair found s1)
  have s1: "w_db s1 = w_db s" using read_onlyD [OF read_only_FindHeld Pair] .
  show ?thesis
  proof (cases found)
    case (Inr existing)
    with run Pair s1 ok show ?thesis
      by (auto simp: inv_take_hold_def withResult_eq op_inv res_Matches_def)
  next
    case (Inl e)
    with run Pair obtain u s2 where 2: "stock_ReserveAll (res_lines c) s1 = (Inr u, s2)"
        "reservations_Create U f c s2 = (Inr r', s')"
      by (auto simp: inv_take_hold_def withResult_eq op_inv)
    from ok have so: "inv_stock_ok (w_db s1)" and ro: "inv_res_ok (w_db s1)"
      by (simp_all add: inv_ok_def s1)
    from reserve.moves_all [OF 2(1) [unfolded stock_ReserveAll_def] so]
    have m: "shifted (\<lambda>k. - line_total (res_lines c) k) (line_total (res_lines c)) (w_db s1) (w_db s2)"
      by (simp add: eta_contract_eq)
    then have ro2: "inv_res_ok (w_db s2)" and so2: "inv_stock_ok (w_db s2)"
        and ty2: "inv_typed U (w_db s2)" and ht: "held_total (w_db s2) k = held_total (w_db s1) k" for k
      using ro so ok by (simp_all add: shifted_def inv_res_ok_def held_total_def held_ids_def
          inv_ok_def inv_typed_def s1)
    note books = reservations_Create_books [OF 2(2) ro2 c]
    obtain uid row ls orderID where cr: "uuid_Parse U (res_id c) = Inr uid"
        "uuid_Parse U (res_orderID c) = Inr orderID"
        "w_db s' = (w_db s2)\<lparr>reservations := reservations (w_db s2) @ [row],
           reservation_lines := reservation_lines (w_db s2) @ ls\<rparr>"
        "rr_ID row = uid" "rr_OrderID row = orderID"
      by (rule reservations_Create_Inr [OF 2(2)], rule that, assumption+)
    have "inv_typed U (w_db s')"
      using ty2 cr U by (auto simp: inv_typed_def uuid_ok_def)
    moreover have "inv_stock_ok (w_db s')" using books so2 by (simp add: inv_stock_ok_def)
    moreover have "available_of (w_db s') k = available_of (w_db s) k - line_total (res_lines c) k"
        "reserved_of (w_db s') k = reserved_of (w_db s) k + line_total (res_lines c) k" for k
      using m books by (simp_all add: shifted_def available_of_def reserved_of_def s1)
    moreover have "map sk_Sku (stock_items (w_db s')) = map sk_Sku (stock_items (w_db s))"
      using m books by (simp add: shifted_def s1)
    ultimately show ?thesis using books ok ht by (simp add: inv_ok_def s1)
  qed
qed

subsection \<open>The sweep\<close>

lemma res_Expire_held:
  "res_status r = StatusHeld \<Longrightarrow> res_expiresAt r \<le> now \<Longrightarrow>
   res_Expire now r = Inr (True, r\<lparr>res_status := StatusExpired\<rparr>)"
  by (simp add: res_Expire_def hasExpired_def)

definition swept :: "res_row list \<Rightarrow> inv_db \<Rightarrow> inv_db \<Rightarrow> bool" where
  "swept rows db db' \<longleftrightarrow>
     held_ids db' = held_ids db - rr_ID ` set rows \<and>
     reservation_lines db' = reservation_lines db \<and>
     (\<forall>row \<in> set rows. \<exists>row' \<in> set (reservations db'). rr_ID row' = rr_ID row \<and> rr_Status row' = ''expired'') \<and>
     (\<forall>x. rr_ID x \<notin> rr_ID ` set rows \<longrightarrow> x \<in> set (reservations db') \<longleftrightarrow> x \<in> set (reservations db)) \<and>
     map sk_Sku (stock_items db') = map sk_Sku (stock_items db) \<and>
     (\<forall>k. available_of db' k = available_of db k + (\<Sum>row\<leftarrow>rows. hold_of db (rr_ID row) k))"

lemma sweep_books:
  assumes "inv_sweep U now (map (loaded db0) rows) n s = (Inr m, s')" and "inv_ok U (w_db s)"
    and "\<forall>row \<in> set rows. row \<in> set (reservations (w_db s)) \<and> held_row row \<and> rr_ExpiresAt row \<le> now"
    and "distinct (map rr_ID rows)"
    and "reservation_lines (w_db s) = reservation_lines db0" "inv_collate (w_db s) = inv_collate db0"
  shows "inv_ok U (w_db s') \<and> m = n + int (length rows) \<and> swept rows (w_db s) (w_db s')"
  using assms
proof (induction rows arbitrary: n s)
  case Nil
  then show ?case by (auto simp: op_inv swept_def)
next
  case (Cons row rows)
  let ?r = "(loaded db0 row)\<lparr>res_status := StatusExpired\<rparr>"
  have row: "row \<in> set (reservations (w_db s))" "held_row row" "rr_ExpiresAt row \<le> now"
    using Cons.prems(3) by auto
  have "res_Expire now (loaded db0 row) = Inr (True, ?r)"
    using row(2,3) by (intro res_Expire_held) (simp_all add: held_row_def)
  with Cons.prems(1) obtain u s1 r' s2 where 1:
      "for_each (\<lambda>l. stock_Release (ln_SKU l) (ln_Quantity l)) (res_lines ?r) s = (Inr u, s1)"
      "reservations_Update U ?r s1 = (Inr r', s2)"
      "inv_sweep U now (map (loaded db0) rows) (n + 1) s2 = (Inr m, s')"
    by (auto simp: op_inv)
  have "loaded_lines db0 (rr_ID row) = loaded_lines (w_db s) (rr_ID row)"
    using Cons.prems(5,6) by (simp add: loaded_lines_def)
  then have step: "inv_ok U (w_db s2) \<and>
      settles 1 (res_status_text (res_status ?r)) (rr_ID row) (w_db s) (w_db s2)"
    by (intro release.settle_step [OF Cons.prems(2) row(1,2) _ _ _ 1(1,2)]) simp_all
  then have set: "settles 1 ''expired'' (rr_ID row) (w_db s) (w_db s2)" by simp
  have "\<forall>x \<in> set rows. x \<in> set (reservations (w_db s2)) \<and> held_row x \<and> rr_ExpiresAt x \<le> now"
    using set Cons.prems(3,4) by (auto simp: settles_def image_iff)
  from Cons.IH [OF 1(3) conjunct1 [OF step] this] set Cons.prems(4-6)
  have rest: "inv_ok U (w_db s')" "m = n + 1 + int (length rows)" "swept rows (w_db s2) (w_db s')"
    by (simp_all add: settles_def)
  obtain old where old: "old \<in> set (reservations (w_db s2))" "rr_ID old = rr_ID row" "rr_Status old = ''expired''"
    using set by (auto simp: settles_def)
  have notin: "rr_ID row \<notin> rr_ID ` set rows" using Cons.prems(4) by auto
  then have kept: "old \<in> set (reservations (w_db s'))"
    using rest(3) old(1,2) by (simp add: swept_def)
  have lines: "hold_of (w_db s2) = hold_of (w_db s)"
    using set by (intro hold_of_frame) (simp add: settles_def)
  have "swept (row # rows) (w_db s) (w_db s')"
    unfolding swept_def
  proof (intro conjI allI impI)
    show "held_ids (w_db s') = held_ids (w_db s) - rr_ID ` set (row # rows)"
      using rest(3) set by (auto simp: swept_def settles_def)
    show "\<forall>x \<in> set (row # rows). \<exists>y \<in> set (reservations (w_db s')). rr_ID y = rr_ID x \<and> rr_Status y = ''expired''"
      using rest(3) kept old by (auto simp: swept_def)
    fix x :: res_row
    assume "rr_ID x \<notin> rr_ID ` set (row # rows)"
    then show "x \<in> set (reservations (w_db s')) \<longleftrightarrow> x \<in> set (reservations (w_db s))"
      using rest(3) set by (simp add: swept_def settles_def)
  next
    fix k
    show "available_of (w_db s') k = available_of (w_db s) k + (\<Sum>row\<leftarrow>row # rows. hold_of (w_db s) (rr_ID row) k)"
      using rest(3) set lines by (simp add: swept_def settles_def)
  qed (use rest(3) set in \<open>simp_all add: swept_def settles_def\<close>)
  with rest show ?case by simp
qed

lemma claimed_rows:
  assumes "fst (sql_ClaimExpiredReservations locked now n db) = Inr rows" and "inv_res_ok db"
  shows "\<forall>row \<in> set rows. row \<in> set (reservations db) \<and> held_row row \<and> rr_ExpiresAt row \<le> pg_time now \<and>
      rr_ID row \<notin> set locked"
    and "distinct (map rr_ID rows)" and "length rows \<le> nat n"
proof -
  let ?P = "\<lambda>r. held_row r \<and> rr_ExpiresAt r \<le> pg_time now \<and> rr_ID r \<notin> set locked"
  from assms(1) have rows: "rows = take (nat n) (sort_key rr_ExpiresAt (filter ?P (reservations db)))"
    by (simp add: sql_ClaimExpiredReservations_def)
  then show "\<forall>row \<in> set rows. row \<in> set (reservations db) \<and> held_row row \<and> rr_ExpiresAt row \<le> pg_time now \<and>
      rr_ID row \<notin> set locked"
    by (auto dest!: in_set_takeD)
  have "distinct (map rr_ID (filter ?P (reservations db)))"
    using assms(2) by (simp add: inv_res_ok_def distinct_map_filter)
  then have "distinct (map rr_ID (sort_key rr_ExpiresAt (filter ?P (reservations db))))" by simp
  then show "distinct (map rr_ID rows)" by (simp add: rows take_map [symmetric] distinct_take)
  show "length rows \<le> nat n" by (simp add: rows)
qed

lemma expire_tx_books:
  assumes ok: "inv_ok U (w_db s)"
    and run: "andThen (reservations_ClaimExpired locked now limit)
      (\<lambda>claimed. inv_sweep U now claimed 0) s = (Inr m, s')"
  shows "inv_ok U (w_db s') \<and> (\<exists>rows.
    fst (sql_ClaimExpiredReservations locked now (clamp32 limit) (w_db s)) = Inr rows \<and>
    m = int (length rows) \<and> swept rows (w_db s) (w_db s'))"
proof -
  from run obtain rs s1 where 1: "reservations_ClaimExpired locked now limit s = (Inr rs, s1)"
      "inv_sweep U now rs 0 s1 = (Inr m, s')"
    by (auto simp: op_inv)
  from reservations_ClaimExpired_Inr [OF 1(1)] obtain rows where rows: "w_db s1 = w_db s"
      "fst (sql_ClaimExpiredReservations locked now (clamp32 limit) (w_db s)) = Inr rows"
      "rs = map (loaded (w_db s)) rows" by auto
  note c = claimed_rows [OF rows(2)]
  from ok have ro: "inv_res_ok (w_db s)" by (simp add: inv_ok_def)
  have "inv_ok U (w_db s') \<and> m = 0 + int (length rows) \<and> swept rows (w_db s1) (w_db s')"
    using c(1) [OF ro] pg_time_le [of now] c(2) [OF ro] ok
    by (intro sweep_books [OF 1(2) [unfolded rows(3)]]) (auto simp: rows(1))
  with rows(1,2) show ?thesis by auto
qed

end
