(* ===== verification/InvProps.thy ===== *)
theory InvProps
  imports InvBooks
begin

text \<open>
  What holds of the inventory service as a whole: under every schedule of faults its books
  balance and no unit appears or vanishes; releasing and sweeping never find the counts short;
  a retried \<open>ReserveStock\<close> answers with the hold it already took.
\<close>

subsection \<open>Every use case keeps the books\<close>

datatype inv_cmd =
  CmdGetStock "gostring list"
| CmdGetReservation gostring
| CmdCreate gostring gostring int
| CmdAdjust gostring int
| CmdReserve inv_policy gostring "nat \<Rightarrow> gostring" ReserveStockCommand
| CmdCommit inv_policy gostring
| CmdRelease gostring
| CmdExpire inv_policy "gostring list" int

fun inv_exec :: "uuid_lib \<Rightarrow> inv_cmd \<Rightarrow> (inv_db, 'w) world \<Rightarrow> (inv_db, 'w) world" where
  "inv_exec U (CmdGetStock skus) s = snd (inv_GetStockBySKUs skus s)"
| "inv_exec U (CmdGetReservation rid) s = snd (inv_GetReservation U rid s)"
| "inv_exec U (CmdCreate new_id sku n) s = snd (inv_CreateStockItem U new_id sku n s)"
| "inv_exec U (CmdAdjust sku d) s = snd (inv_AdjustStock sku d s)"
| "inv_exec U (CmdReserve pol new_id f cmd) s = snd (inv_ReserveStock U pol new_id f cmd s)"
| "inv_exec U (CmdCommit pol rid) s = snd (inv_CommitReservation U pol rid s)"
| "inv_exec U (CmdRelease rid) s = snd (inv_ReleaseReservation U rid s)"
| "inv_exec U (CmdExpire pol locked limit) s = snd (inv_ExpireReservations U pol locked limit s)"

lemma keeps_inv_repos [keeps]:
  "keeps_tx (stock_explainMiss sku e)" "keeps_tx (stock_Create U item)"
  "keeps_tx (stock_FindBySKUs skus)" "keeps_tx (stock_Adjust sku d)"
  "keeps_tx (reservations_FindByID U rid)" "keeps_tx (reservations_FindHeldByOrderID U oid)"
  unfolding stock_explainMiss_def stock_Create_def stock_FindBySKUs_def stock_Adjust_def
    reservations_FindByID_def reservations_FindHeldByOrderID_def res_withLines_def inv_linesOf_def
  by (intro keeps)+

lemma keeps_inv_moves [keeps]:
  "keeps_tx (stock_Reserve sku q)" "keeps_tx (stock_Release sku q)" "keeps_tx (stock_Commit sku q)"
  "keeps_tx (reservations_Create U f r)" "keeps_tx (reservations_Update U r)"
  "keeps_tx (reservations_ClaimExpired locked now limit)"
  unfolding stock_Reserve_def stock_Release_def stock_Commit_def stock_movedHold_def
    reservations_Create_def reservations_Update_def reservations_ClaimExpired_def inv_linesOf_def
  by (intro keeps)+

lemma keeps_inv_sweep [keeps]: "keeps_tx (inv_sweep U now rs n)"
  by (induction rs arbitrary: n) (auto intro!: keeps)

lemma inv_exec_tx: "w_tx (inv_exec U cmd s) = w_tx s"
  by (cases cmd)
    (auto simp: inv_GetStockBySKUs_def inv_GetReservation_def inv_CreateStockItem_def inv_AdjustStock_def
      inv_ReserveStock_def inv_take_hold_def stock_ReserveAll_def inv_CommitReservation_def
      inv_ReleaseReservation_def inv_settle_def inv_settle_tx_def inv_ExpireReservations_def Let_def
      intro!: keeps_txD keeps)

lemma inv_candidate_Inr:
  assumes "inv_candidate U pol new_id cmd = Inr c"
  obtains ls oid where "inv_ParseOrderID (uuid_Validate U) (rc_OrderID cmd) = Inr oid"
    "map_res inv_parse_line (rc_Lines cmd) = Inr ls" "canonicalLines ls = Inr (res_lines c)"
    "res_orderID c = oid" "res_status c = StatusHeld" "res_id c = new_id"
    "res_expiresAt c = pol_Now pol + pol_ReservationTTL pol"
  using assms by (auto simp: inv_candidate_def NewReservation_def split: sum.splits if_splits)

lemma sql_reading:
  "snd (sql_GetStockItemsBySKUs skus d) = d" "snd (sql_GetStockItemBySKU sku d) = d"
  "snd (sql_GetReservationByID rid d) = d"
  by (simp_all add: sql_GetStockItemsBySKUs_def sql_GetStockItemBySKU_def sql_GetReservationByID_def
      split: option.splits)

lemma read_only_reads:
  "read_only (inv_GetStockBySKUs skus)" "read_only (inv_GetReservation U rid)"
  "read_only (stock_explainMiss sku e)"
proof -
  show "read_only (inv_GetStockBySKUs skus)"
    unfolding inv_GetStockBySKUs_def stock_FindBySKUs_def
    by (auto intro!: read_only_andThen read_only_withResult read_only_sql simp: sql_reading split: sum.splits)
  show "read_only (inv_GetReservation U rid)"
    unfolding inv_GetReservation_def reservations_FindByID_def res_withLines_def
    by (auto intro!: read_only_andThen read_only_withResult read_only_sql read_only_linesOf
        simp: sql_reading split: sum.splits)
  show "read_only (stock_explainMiss sku e)"
    unfolding stock_explainMiss_def
    by (auto intro!: read_only_withResult read_only_sql simp: sql_reading split: sum.splits)
qed

lemma inv_ok_shifted:
  assumes "inv_ok U db" and "shifted a (\<lambda>_. 0) db db'"
  shows "inv_ok U db'"
  using assms by (simp add: inv_ok_def shifted_def inv_res_ok_def inv_typed_def held_total_def held_ids_def)

lemma stmts_ok:
  "stmt_ok (sql_CreateStockItem uid sku n)" "stmt_ok (sql_AdjustStock sku d)"
  by (auto simp: stmt_ok_def sql_CreateStockItem_def sql_AdjustStock_def update_stock_def
      split: sum.splits if_splits prod.splits)

lemma AdjustStock_db:
  assumes "stock_Adjust sku d s = (r, s')"
  shows "w_db s' = w_db s \<or> (\<exists>x. sql_AdjustStock sku d (w_db s) = (Inr x, w_db s'))"
proof -
  from assms obtain r1 s1 where 1: "sql (sql_AdjustStock sku d) s = (r1, s1)" "w_db s' = w_db s1"
    by (auto simp: stock_Adjust_def op_inv
        dest!: read_onlyD [OF read_only_reads(3)])
  from sql_effect [OF stmts_ok(2) 1(1)] show ?thesis unfolding 1(2) .
qed

lemma CreateStock_db:
  assumes "stock_Create U item s = (r, s')"
  shows "w_db s' = w_db s \<or>
    (\<exists>uid x. sql_CreateStockItem uid (si_sku item) (si_available item) (w_db s) = (Inr x, w_db s'))"
proof -
  from assms have "w_db s' = w_db s \<or> (\<exists>uid r1 s1.
      sql (sql_CreateStockItem uid (si_sku item) (si_available item)) s = (r1, s1) \<and> w_db s' = w_db s1)"
    unfolding stock_Create_def
    by (auto simp: pure_then op_inv split: sum.splits)
  then show ?thesis
  proof (elim disjE exE conjE)
    fix uid r1 s1
    assume 1: "sql (sql_CreateStockItem uid (si_sku item) (si_available item)) s = (r1, s1)" "w_db s' = w_db s1"
    from sql_effect [OF stmts_ok(1) 1(1)] show ?thesis unfolding 1(2) by blast
  qed simp
qed

lemma sql_CreateStockItem_ok:
  assumes "inv_ok U db" and "sql_CreateStockItem uid sku n db = (Inr x, db')"
  shows "inv_ok U db'"
  using assms
  by (auto simp: sql_CreateStockItem_def checked_stock_def inv_ok_def inv_stock_ok_def inv_res_ok_def
      inv_typed_def reserved_of_def held_total_def held_ids_def split: sum.splits if_splits)

lemma inv_exec_ok:
  assumes U: "uuid_ok U" and ok: "inv_ok U (w_db s)" and tx: "\<not> w_tx s"
  shows "inv_ok U (w_db (inv_exec U cmd s))"
proof (cases cmd)
  case (CmdGetStock skus)
  with ok read_onlyD [OF read_only_reads(1)] show ?thesis
    by (cases "inv_GetStockBySKUs skus s") fastforce
next
  case (CmdGetReservation rid)
  with ok read_onlyD [OF read_only_reads(2)] show ?thesis
    by (cases "inv_GetReservation U rid s") fastforce
next
  case (CmdCreate new_id sku n)
  with ok show ?thesis
    by (auto simp: inv_CreateStockItem_def pure_then split: sum.splits)
      (metis CreateStock_db sql_CreateStockItem_ok prod.collapse)
next
  case (CmdAdjust sku d)
  have "inv_ok U (w_db (snd (stock_Adjust k e s)))" for k e
    using AdjustStock_db [of k e s "fst (stock_Adjust k e s)" "snd (stock_Adjust k e s)"] ok
      sql_AdjustStock_shifted [of "w_db s" k e] inv_ok_shifted [of U "w_db s"]
    by (auto simp: inv_ok_def [of U "w_db s"] at_sku_def [abs_def])
  with CmdAdjust ok show ?thesis by (simp add: inv_AdjustStock_def pure_then split: sum.splits)
next
  case (CmdReserve pol new_id f c)
  have "inv_ok U (w_db (snd (Do (inv_take_hold U f cand) s)))" if "inv_candidate U pol new_id c = Inr cand" for cand
  proof (rule Do_keeps [where I = "inv_ok U", OF _ ok tx])
    fix s x s' assume "inv_ok U (w_db s)" "inv_take_hold U f cand s = (Inr x, s')"
    with inv_candidate_Inr [OF that] U show "inv_ok U (w_db s')" using take_hold_books by metis
  qed
  with CmdReserve ok show ?thesis by (simp add: inv_ReserveStock_def pure_then split: sum.splits)
next
  case (CmdCommit pol rid)
  have "inv_ok U (w_db (snd (Do (inv_settle_tx U x (res_Commit (pol_Now pol)) stock_Commit) s)))" for x
    by (rule Do_keeps [where I = "inv_ok U", OF _ ok tx]) (use commit_tx_books in blast)
  with CmdCommit ok show ?thesis
    by (simp add: inv_CommitReservation_def inv_settle_def pure_then split: sum.splits)
next
  case (CmdRelease rid)
  have "inv_ok U (w_db (snd (Do (inv_settle_tx U x res_Release stock_Release) s)))" for x
    by (rule Do_keeps [where I = "inv_ok U", OF _ ok tx]) (use release_tx_books in blast)
  with CmdRelease ok show ?thesis
    by (simp add: inv_ReleaseReservation_def inv_settle_def pure_then split: sum.splits)
next
  case (CmdExpire pol locked limit)
  have "inv_ok U (w_db (snd (Do (andThen (reservations_ClaimExpired locked now n)
      (\<lambda>claimed. inv_sweep U now claimed 0)) s)))" for now n
    by (rule Do_keeps [where I = "inv_ok U", OF _ ok tx]) (use expire_tx_books in blast)
  with CmdExpire show ?thesis by (simp add: inv_ExpireReservations_def Let_def)
qed

lemma inv_run_ok:
  assumes "uuid_ok U" and "inv_ok U (w_db s)" and "\<not> w_tx s"
  shows "inv_ok U (w_db (fold (inv_exec U) cmds s)) \<and> \<not> w_tx (fold (inv_exec U) cmds s)"
  using assms(2,3)
proof (induction cmds arbitrary: s)
  case (Cons cmd cmds)
  from inv_exec_ok [OF assms(1) Cons.prems] inv_exec_tx Cons.prems(2)
  have "inv_ok U (w_db (inv_exec U cmd s))" "\<not> w_tx (inv_exec U cmd s)" by auto
  from Cons.IH [OF this] show ?case by simp
qed simp

text \<open>A small warehouse the witnesses run on: five mugs, two of them held for an order, and
  three caps.\<close>

definition ex_order :: gostring where "ex_order = ''00000000-0000-0000-0000-0000000000a1''"
definition ex_res :: gostring where "ex_res = ''00000000-0000-0000-0000-0000000000b1''"
definition ex_line :: gostring where "ex_line = ''00000000-0000-0000-0000-0000000000c1''"

definition ex_inv :: inv_db where
  "ex_inv =
     \<lparr>stock_items =
        [\<lparr>sk_ID = ''00000000-0000-0000-0000-0000000000d1'', sk_Sku = ''MUG-RED'', sk_Available = 3,
          sk_Reserved = 2, sk_CreatedAt = 0, sk_UpdatedAt = 0, sk_Version = 1\<rparr>,
         \<lparr>sk_ID = ''00000000-0000-0000-0000-0000000000d2'', sk_Sku = ''CAP'', sk_Available = 3,
          sk_Reserved = 0, sk_CreatedAt = 0, sk_UpdatedAt = 0, sk_Version = 1\<rparr>],
      reservations =
        [\<lparr>rr_ID = ex_res, rr_OrderID = ex_order, rr_Status = ''held'', rr_ExpiresAt = 5000,
          rr_CreatedAt = 0, rr_UpdatedAt = 0, rr_Version = 1\<rparr>],
      reservation_lines =
        [\<lparr>rl_ID = ex_line, rl_ReservationID = ex_res, rl_Sku = ''MUG-RED'', rl_Quantity = 2,
          rl_CreatedAt = 0\<rparr>],
      inv_now = 0, inv_collate = (\<lambda>s. s)\<rparr>"

definition ex_world :: "(inv_db, unit) world" where
  "ex_world = \<lparr>w_db = ex_inv, w_ext = (), w_sched = [], w_tx = False\<rparr>"

lemma ex_ids: "canonical_uuid ex_order" "canonical_uuid ex_res" "canonical_uuid ex_line"
  by code_simp+

lemma ex_inv_ok: "inv_ok canonical_uuids ex_inv"
  using ex_ids
  by (auto simp: inv_ok_def inv_stock_ok_def inv_res_ok_def inv_typed_def ex_inv_def held_row_def
      known_status_def reserved_of_def held_total_def held_ids_def canonical_uuids_def)

lemma ex_world_simps [simp]: "w_db ex_world = ex_inv" "\<not> w_tx ex_world" "w_sched ex_world = []"
  by (simp_all add: ex_world_def)

text \<open>C1. The books balance. From a consistent database, any sequence of use cases, with any
  of their round trips failing or losing its answer, leaves one where each SKU's
  \<open>reserved\<close> is exactly what held reservations hold of it, no count is negative, and no
  order holds two reservations: nothing is oversold and no hold is lost.\<close>

theorem inv_books_balance:
  assumes "uuid_ok U" and "inv_ok U (w_db s)" and "\<not> w_tx s"
  shows "let db = w_db (fold (inv_exec U) cmds s) in
    (\<forall>sku. reserved_of db sku = held_total db sku) \<and>
    (\<forall>r \<in> set (stock_items db). 0 \<le> sk_Available r \<and> 0 \<le> sk_Reserved r) \<and>
    distinct (map rr_OrderID (filter held_row (reservations db)))"
  using inv_run_ok [OF assms, of cmds]
  by (auto simp: Let_def inv_ok_def inv_stock_ok_def inv_res_ok_def)

theorem inv_books_balance_witness:
  "(\<forall>sku. reserved_of (w_db (fold (inv_exec canonical_uuids)
      [CmdRelease ex_res, CmdAdjust ''cap'' (- 1)] (ex_world\<lparr>w_sched := [Done, Lost]\<rparr>))) sku =
    held_total (w_db (fold (inv_exec canonical_uuids)
      [CmdRelease ex_res, CmdAdjust ''cap'' (- 1)] (ex_world\<lparr>w_sched := [Done, Lost]\<rparr>))) sku)"
  using inv_books_balance [OF uuid_ok_canonical, of "ex_world\<lparr>w_sched := [Done, Lost]\<rparr>"
      "[CmdRelease ex_res, CmdAdjust ''cap'' (- 1)]"] ex_inv_ok
  by (simp add: Let_def)

subsection \<open>No unit appears or vanishes\<close>

definition total_of :: "inv_db \<Rightarrow> gostring \<Rightarrow> int" where
  "total_of db sku = available_of db sku + reserved_of db sku"

lemma swept_total:
  assumes "swept rows db db'" and "inv_ok U db" and "inv_ok U db'"
    and "distinct (map rr_ID rows)" and "\<forall>row \<in> set rows. row \<in> set (reservations db) \<and> held_row row"
  shows "total_of db' k = total_of db k"
proof -
  have "held_total db k = (\<Sum>row\<leftarrow>rows. hold_of db (rr_ID row) k) +
      sum_by (\<lambda>l. rl_Sku l = k \<and> rl_ReservationID l \<in> held_ids db - rr_ID ` set rows) rl_Quantity (reservation_lines db)"
    using assms(4,5)
  proof (induction rows)
    case Nil
    then show ?case by (simp add: held_total_def)
  next
    case (Cons row rows)
    have in_held: "rr_ID row \<in> held_ids db" using Cons.prems(2) by (auto simp: held_ids_def)
    have other: "\<forall>x \<in> set rows. rr_ID x \<noteq> rr_ID row" using Cons.prems(1) by (force simp: image_iff)
    have "sum_by (\<lambda>l. rl_Sku l = k \<and> rl_ReservationID l \<in> held_ids db - rr_ID ` set rows) rl_Quantity (reservation_lines db) =
        hold_of db (rr_ID row) k +
        sum_by (\<lambda>l. rl_Sku l = k \<and> rl_ReservationID l \<in> held_ids db - rr_ID ` set (row # rows)) rl_Quantity (reservation_lines db)"
      unfolding hold_of_def
      by (subst sum_by_split [of _ _ _ "\<lambda>l. rl_ReservationID l = rr_ID row"])
        (use in_held other in \<open>auto intro!: arg_cong2 [where f = "(+)"] sum_by_cong\<close>)
    with Cons show ?case by simp
  qed
  moreover have "held_total db' k =
      sum_by (\<lambda>l. rl_Sku l = k \<and> rl_ReservationID l \<in> held_ids db - rr_ID ` set rows) rl_Quantity (reservation_lines db)"
    using assms(1) by (simp add: held_total_def swept_def)
  ultimately show ?thesis using assms(1-3) by (simp add: total_of_def inv_ok_def swept_def)
qed

lemma settles_total:
  "settles a st uid db db' \<Longrightarrow> total_of db' k = total_of db k + (a - 1) * hold_of db uid k"
  by (simp add: settles_def total_of_def algebra_simps)

definition same_total :: "inv_db \<Rightarrow> inv_db \<Rightarrow> bool" where
  "same_total db db' \<longleftrightarrow> (\<forall>k. total_of db' k = total_of db k)"

lemma same_total_refl [simp]: "same_total db db"
  by (simp add: same_total_def)

lemma reserve_total:
  assumes "uuid_ok U" and "inv_ok U (w_db s)" and "\<not> w_tx s"
  shows "same_total (w_db s) (w_db (snd (inv_ReserveStock U pol new_id f cmd s)))"
proof (cases "inv_candidate U pol new_id cmd")
  case (Inr c)
  have "same_total (w_db s) (w_db (snd (Do (inv_take_hold U f c) s)))"
  proof (rule Do_relates [OF _ same_total_refl assms(3)])
    fix s1 x s2 assume 1: "w_db s1 = w_db s" "inv_take_hold U f c s1 = (Inr x, s2)"
    from inv_candidate_Inr [OF Inr] have "res_status c = StatusHeld" by metis
    with take_hold_books [OF _ assms(1) 1(2)] 1(1) assms(2) show "same_total (w_db s) (w_db s2)"
      by (auto simp: same_total_def total_of_def)
  qed
  with Inr show ?thesis by (simp add: inv_ReserveStock_def pure_then)
qed (simp add: inv_ReserveStock_def pure_then)

lemma release_total:
  assumes "inv_ok U (w_db s)" and "\<not> w_tx s"
  shows "same_total (w_db s) (w_db (snd (inv_ReleaseReservation U rid s)))"
proof -
  have "same_total (w_db s) (w_db (snd (Do (inv_settle_tx U x res_Release stock_Release) s)))" for x
  proof (rule Do_relates [OF _ same_total_refl assms(2)])
    fix s1 r s2 assume 1: "w_db s1 = w_db s" "inv_settle_tx U x res_Release stock_Release s1 = (Inr r, s2)"
    from release_tx_books [OF _ 1(2)] 1(1) assms(1) show "same_total (w_db s) (w_db s2)"
      by (auto simp: same_total_def settles_total)
  qed
  then show ?thesis
    by (simp add: inv_ReleaseReservation_def inv_settle_def pure_then split: sum.splits)
qed

lemma expire_total:
  assumes "inv_ok U (w_db s)" and "\<not> w_tx s"
  shows "same_total (w_db s) (w_db (snd (inv_ExpireReservations U pol locked limit s)))"
proof -
  have "same_total (w_db s) (w_db (snd (Do (andThen (reservations_ClaimExpired locked now n)
      (\<lambda>claimed. inv_sweep U now claimed 0)) s)))" for now n
  proof (rule Do_relates [OF _ same_total_refl assms(2)])
    fix s1 m s2 assume 1: "w_db s1 = w_db s" "andThen (reservations_ClaimExpired locked now n)
      (\<lambda>claimed. inv_sweep U now claimed 0) s1 = (Inr m, s2)"
    from expire_tx_books [OF _ 1(2)] 1(1) assms(1) obtain rows where
        r: "inv_ok U (w_db s2)" "swept rows (w_db s) (w_db s2)"
          "fst (sql_ClaimExpiredReservations locked now (clamp32 n) (w_db s)) = Inr rows" by auto
    have "inv_res_ok (w_db s)" using assms(1) by (simp add: inv_ok_def)
    from claimed_rows [OF r(3) this] swept_total [OF r(2) assms(1) r(1)]
    show "same_total (w_db s) (w_db s2)" by (simp add: same_total_def)
  qed
  then show ?thesis by (simp add: inv_ExpireReservations_def Let_def)
qed

lemma commit_total:
  assumes "inv_ok U (w_db s)" and "\<not> w_tx s"
  shows "same_total (w_db s) (w_db (snd (inv_CommitReservation U pol rid s))) \<or>
    (\<exists>uid \<in> held_ids (w_db s). uid \<notin> held_ids (w_db (snd (inv_CommitReservation U pol rid s))) \<and>
      (\<forall>k. total_of (w_db (snd (inv_CommitReservation U pol rid s))) k =
           total_of (w_db s) k - hold_of (w_db s) uid k))"
proof -
  let ?R = "\<lambda>db'. same_total (w_db s) db' \<or> (\<exists>uid \<in> held_ids (w_db s). uid \<notin> held_ids db' \<and>
      (\<forall>k. total_of db' k = total_of (w_db s) k - hold_of (w_db s) uid k))"
  have "?R (w_db (snd (Do (inv_settle_tx U x (res_Commit (pol_Now pol)) stock_Commit) s)))" for x
  proof (rule Do_relates [where R = ?R, OF _ _ assms(2)])
    fix s1 r s2 assume 1: "w_db s1 = w_db s"
      "inv_settle_tx U x (res_Commit (pol_Now pol)) stock_Commit s1 = (Inr r, s2)"
    from commit_tx_books [OF _ 1(2)] 1(1) assms(1)
    consider "w_db s2 = w_db s" | uid where "settles 0 ''committed'' uid (w_db s) (w_db s2)" by auto
    then show "?R (w_db s2)"
    proof cases
      case 2
      then have "uid \<in> held_ids (w_db s)" "uid \<notin> held_ids (w_db s2)" by (auto simp: settles_def)
      with settles_total [OF 2] show ?thesis by auto
    qed simp
  qed simp
  then show ?thesis
    by (simp add: inv_CommitReservation_def inv_settle_def pure_then split: sum.splits)
qed

text \<open>C2. Stock is conserved. Whatever fails, reserving, releasing and sweeping only move units
  between \<open>available\<close> and \<open>reserved\<close>; a commit takes away exactly what one held
  reservation held and that reservation is held no more, or changes no total at all.\<close>

theorem units_conserved:
  assumes "uuid_ok U" and "inv_ok U (w_db s)" and "\<not> w_tx s"
  shows "(\<forall>k. total_of (w_db (inv_exec U (CmdReserve pol new_id f c) s)) k = total_of (w_db s) k) \<and>
    (\<forall>k. total_of (w_db (inv_exec U (CmdRelease rid) s)) k = total_of (w_db s) k) \<and>
    (\<forall>k. total_of (w_db (inv_exec U (CmdExpire pol locked limit) s)) k = total_of (w_db s) k) \<and>
    ((\<forall>k. total_of (w_db (inv_exec U (CmdCommit pol rid) s)) k = total_of (w_db s) k) \<or>
     (\<exists>uid \<in> held_ids (w_db s). uid \<notin> held_ids (w_db (inv_exec U (CmdCommit pol rid) s)) \<and>
       (\<forall>k. total_of (w_db (inv_exec U (CmdCommit pol rid) s)) k = total_of (w_db s) k - hold_of (w_db s) uid k)))"
  using reserve_total [OF assms] release_total [OF assms(2,3)] expire_total [OF assms(2,3)]
    commit_total [OF assms(2,3)]
  by (simp add: same_total_def)

theorem units_conserved_witness:
  "\<forall>k. total_of (w_db (inv_exec canonical_uuids (CmdRelease ex_res) ex_world)) k = total_of ex_inv k"
  using units_conserved [OF uuid_ok_canonical, of ex_world _ _ _ _ ex_res] ex_inv_ok by simp

subsection \<open>The counts never come out short\<close>

text \<open>C6. Neither releasing nor committing a reservation ever finds \<open>reserved\<close> lower than the
  hold it is settling: from a consistent database, whatever else fails, the answer is not the
  error with reason \<open>STOCK_INCONSISTENT\<close>.\<close>

theorem settling_never_inconsistent:
  assumes "inv_ok U (w_db s)" and "\<not> w_tx s"
    and "inv_ReleaseReservation U rid s = (Inl e, s') \<or> inv_CommitReservation U pol rid s = (Inl e, s')"
  shows "\<not> inconsistent e"
proof -
  have parse: "ParseReservationID v x = Inl e \<Longrightarrow> \<not> inconsistent e" for v x
    by (auto simp: ParseReservationID_def inv_parseUUID_def inconsistent_def Let_def split: if_splits)
  have tx: "\<not> inconsistent e"
    if "Do (inv_settle_tx U x change mv) s = (Inl e, s')"
      "\<And>s1 e1 s2. inv_ok U (w_db s1) \<Longrightarrow> inv_settle_tx U x change mv s1 = (Inl e1, s2) \<Longrightarrow> \<not> inconsistent e1"
    for x and change and mv :: "gostring \<Rightarrow> int \<Rightarrow> ('a, unit) inv_op"
  proof (rule Do_reason [OF that(1) assms(2)])
    fix e1 s1 s2
    assume "inv_settle_tx U x change mv s1 = (Inl e1, s2)" "w_db s1 = w_db s" "first_Error e = first_Error e1"
    with that(2) [of s1 e1 s2] assms(1) show "\<not> inconsistent e" by (simp add: inconsistent_def)
  qed (simp add: inconsistent_def)
  have rel: "\<not> inconsistent e1" if "inv_ok U (w_db s1)" "inv_settle_tx U x res_Release stock_Release s1 = (Inl e1, s2)"
    for x e1 s2 and s1 :: "(inv_db, 'a) world"
    using Release_contract by (rule release.settle_tx_consistent [OF that])
      (auto simp: res_Release_def inv_sentinels inconsistent_def split: ReservationStatus.splits)
  have com: "\<not> inconsistent e1" if "inv_ok U (w_db s1)" "inv_settle_tx U x (res_Commit now) stock_Commit s1 = (Inl e1, s2)"
    for x e1 s2 now and s1 :: "(inv_db, 'a) world"
    using Commit_contract by (rule commit.settle_tx_consistent [OF that])
      (auto simp: res_Commit_def inv_sentinels inconsistent_def split: ReservationStatus.splits if_splits)
  from assms(3) consider x where "ParseReservationID (uuid_Validate U) x = Inl e"
    | x where "Do (inv_settle_tx U x res_Release stock_Release) s = (Inl e, s')"
    | x where "Do (inv_settle_tx U x (res_Commit (pol_Now pol)) stock_Commit) s = (Inl e, s')"
    unfolding inv_ReleaseReservation_def inv_CommitReservation_def inv_settle_def
    by (auto simp: andThen_Inl op_inv)
  then show ?thesis
  proof cases
    case 1
    then show ?thesis by (rule parse)
  next
    case 2
    then show ?thesis by (rule tx) (rule rel)
  next
    case 3
    then show ?thesis by (rule tx) (rule com)
  qed
qed

theorem settling_never_inconsistent_witness:
  "\<exists>e s'. inv_CommitReservation canonical_uuids \<lparr>pol_ReservationTTL = 900, pol_Now = 6000\<rparr> ex_res ex_world = (Inl e, s') \<and>
     \<not> inconsistent e"
proof -
  let ?run = "inv_CommitReservation canonical_uuids \<lparr>pol_ReservationTTL = 900, pol_Now = 6000\<rparr> ex_res ex_world"
  have "isl (fst ?run)" by code_simp
  then have "\<exists>e s'. ?run = (Inl e, s')" by (cases ?run) (auto simp: isl_def)
  then obtain e s' where run: "?run = (Inl e, s')" by blast
  have "\<not> inconsistent e"
    using settling_never_inconsistent [of canonical_uuids ex_world ex_res e s'
        "\<lparr>pol_ReservationTTL = 900, pol_Now = 6000\<rparr>"] run ex_inv_ok by simp
  with run show ?thesis by blast
qed

subsection \<open>A retried reservation\<close>

lemma sort_key_inserted:
  "sorted (map f xs) \<Longrightarrow> sort_key f xs = xs"
  by (rule sort_key_id_if_sorted)

lemma canonical_sorted:
  assumes "canonicalLines ls = Inr cs" and "\<forall>l \<in> set ls. ln_Quantity l \<le> quantityMax"
  shows "sorted (map ln_SKU cs)"
  using assms by (simp add: canonicalLines_spec)

lemma parse_line_quantity: "inv_parse_line l = Inr x \<Longrightarrow> ln_Quantity x \<le> quantityMax"
  by (auto simp: inv_parse_line_def inv_NewQuantity_def split: sum.splits if_splits)

lemma candidate_quantities:
  assumes "map_res inv_parse_line nls = Inr ls"
  shows "\<forall>l \<in> set ls. ln_Quantity l \<le> quantityMax"
  using assms by (auto simp: map_res_map) (metis parse_line_quantity sum.sel(2))

text \<open>The order has a hold, in row \<open>row\<close>, on exactly these lines.\<close>

definition holds_lines :: "uuid_lib \<Rightarrow> inv_db \<Rightarrow> gostring \<Rightarrow> Line list \<Rightarrow> res_row \<Rightarrow> bool" where
  "holds_lines U db orderID lines row \<longleftrightarrow> row \<in> set (reservations db) \<and> held_row row \<and>
     uuid_Parse U orderID = Inr (rr_OrderID row) \<and>
     mset (map (\<lambda>l. \<lparr>ln_SKU = rl_Sku l, ln_Quantity = rl_Quantity l\<rparr>)
       (filter (\<lambda>l. rl_ReservationID l = rr_ID row) (reservation_lines db))) = mset lines"

lemma loaded_mset:
  "mset (res_lines (loaded db row)) = mset (map (\<lambda>l. \<lparr>ln_SKU = rl_Sku l, ln_Quantity = rl_Quantity l\<rparr>)
     (filter (\<lambda>l. rl_ReservationID l = rr_ID row) (reservation_lines db)))"
  by (simp add: loaded_def loaded_lines_def toReservationDomain_def ReconstituteReservation_def)

lemma loaded_sorted: "sorted (map (\<lambda>l. inv_collate db (ln_SKU l)) (res_lines (loaded db row)))"
  by (simp add: loaded_def loaded_lines_def toReservationDomain_def ReconstituteReservation_def comp_def)

lemma held_once:
  assumes "inv_res_ok db" and "a \<in> set (reservations db)" "held_row a" "b \<in> set (reservations db)" "held_row b"
    and "rr_OrderID a = rr_OrderID b"
  shows "a = b"
  using distinct_map_inj [of rr_OrderID "filter held_row (reservations db)" a b] assms by (auto simp: inv_res_ok_def)

lemma take_hold_holds:
  assumes ok: "inv_ok U (w_db s)" and run: "inv_take_hold U f c s = (Inr r, s')" and c: "res_status c = StatusHeld"
  obtains (again) row where "holds_lines U (w_db s) (res_orderID c) (res_lines c) row" "w_db s' = w_db s"
      "r = loaded (w_db s) row"
  | (new) row where "holds_lines U (w_db s') (res_orderID c) (res_lines c) row"
      "rr_ID row \<notin> rr_ID ` set (reservations (w_db s))" "set (reservations (w_db s)) \<subseteq> set (reservations (w_db s'))"
      "inv_collate (w_db s') = inv_collate (w_db s)"
proof (cases "reservations_FindHeldByOrderID U (res_orderID c) s")
  case (Pair found s1)
  have s1: "w_db s1 = w_db s" using read_onlyD [OF read_only_FindHeld Pair] .
  show ?thesis
  proof (cases found)
    case (Inr existing)
    with run Pair have r: "r = existing" "s' = s1" "res_lines existing = res_lines c"
      by (auto simp: inv_take_hold_def withResult_eq op_inv res_Matches_def)
    obtain row where "uuid_Parse U (res_orderID c) = Inr (rr_OrderID row)" "row \<in> set (reservations (w_db s))"
        "held_row row" "existing = loaded (w_db s) row"
      by (rule reservations_FindHeldByOrderID_Inr [OF Pair [unfolded Inr]])
    with r s1 loaded_mset [of "w_db s" row] show ?thesis by (intro again [of row]) (simp_all add: holds_lines_def)
  next
    case (Inl e)
    with run Pair obtain u s2 where 2: "stock_ReserveAll (res_lines c) s1 = (Inr u, s2)"
        "reservations_Create U f c s2 = (Inr r, s')"
      by (auto simp: inv_take_hold_def withResult_eq op_inv)
    from ok have so: "inv_stock_ok (w_db s1)" and ro: "inv_res_ok (w_db s1)" by (simp_all add: inv_ok_def s1)
    from reserve.moves_all [OF 2(1) [unfolded stock_ReserveAll_def] so]
    have m: "reservations (w_db s2) = reservations (w_db s)" "reservation_lines (w_db s2) = reservation_lines (w_db s)"
        "inv_collate (w_db s2) = inv_collate (w_db s)"
      by (simp_all add: shifted_def s1)
    obtain uid row ls orderID where cr: "uuid_Parse U (res_orderID c) = Inr orderID"
        "w_db s' = (w_db s2)\<lparr>reservations := reservations (w_db s2) @ [row],
           reservation_lines := reservation_lines (w_db s2) @ ls\<rparr>"
        "rr_ID row = uid" "rr_OrderID row = orderID" "rr_Status row = res_status_text (res_status c)"
        "uid \<notin> rr_ID ` set (reservations (w_db s2))" "\<forall>l \<in> set ls. rl_ReservationID l = uid"
        "map (\<lambda>l. \<lparr>ln_SKU = rl_Sku l, ln_Quantity = rl_Quantity l\<rparr>) ls = res_lines c"
      by (rule reservations_Create_Inr [OF 2(2)], rule that, assumption+)
    have none: "filter (\<lambda>l. rl_ReservationID l = uid) (reservation_lines (w_db s2)) = []"
      using ro cr(6) m by (fastforce simp: inv_res_ok_def filter_empty_conv s1)
    have all: "filter (\<lambda>l. rl_ReservationID l = uid) ls = ls" using cr(7) by simp
    have "holds_lines U (w_db s') (res_orderID c) (res_lines c) row"
      using cr(1,4,5,8) c by (simp add: holds_lines_def cr(2,3) none all held_row_def)
    with cr(2,3,6) m(1,3) show ?thesis by (intro new [of row]) auto
  qed
qed

lemma find_filter: "List.find (\<lambda>r. A r \<and> B r) t = List.find A (filter B t)"
  by (induction t) auto

lemma FindHeld_now:
  assumes "w_sched s = []" and "uuid_Parse U oid = Inr (rr_OrderID row)"
    and "row \<in> set (reservations (w_db s))" "held_row row" and "inv_res_ok (w_db s)"
  shows "reservations_FindHeldByOrderID U oid s = (Inr (loaded (w_db s) row), s)"
proof -
  have "List.find (\<lambda>r. rr_OrderID r = rr_OrderID row \<and> held_row r) (reservations (w_db s)) = Some row"
    unfolding find_filter using assms(3-5) by (intro find_distinct) (auto simp: inv_res_ok_def)
  then have q: "sql (sql_GetHeldReservationByOrderID (rr_OrderID row)) s = (Inr row, s)"
    by (simp add: sql_no_fault assms(1) sql_GetHeldReservationByOrderID_def)
  obtain g where g: "inv_linesOf [rr_ID row] s = (Inr g, s)"
    by (simp add: inv_linesOf_def withResult_def sql_no_fault assms(1)
        sql_GetReservationLinesByReservationIDs_def ret_def)
  with inv_linesOf_Inr(2) [OF g, of "rr_ID row"] q assms(2) show ?thesis
    by (simp add: reservations_FindHeldByOrderID_def res_withLines_def pure_then andThen_def withResult_def
        pure_op_def inv_repo_parseUUID_def ret_def loaded_def)
qed

text \<open>A command for an order that already holds what it asks for.\<close>

lemma reserve_held:
  assumes U: "uuid_ok U" and ok: "inv_ok U (w_db s)" and tx: "\<not> w_tx s"
    and cand: "inv_candidate U pol new_id cmd = Inr c"
    and held: "holds_lines U (w_db s) (res_orderID c) (res_lines c) row"
  shows "w_db (snd (inv_ReserveStock U pol new_id f cmd s)) = w_db s"
    "isl (fst (inv_ReserveStock U pol new_id f cmd s)) \<or>
      fst (inv_ReserveStock U pol new_id f cmd s) = Inr (loaded (w_db s) row)"
proof -
  have run: "inv_ReserveStock U pol new_id f cmd s = Do (inv_take_hold U f c) s"
    by (simp add: inv_ReserveStock_def cand pure_then)
  have st: "res_status c = StatusHeld" by (rule inv_candidate_Inr [OF cand])
  have ro: "inv_res_ok (w_db s)" using ok by (simp add: inv_ok_def)
  obtain res s' where d: "Do (inv_take_hold U f c) s = (res, s')" by (cases "Do (inv_take_hold U f c) s")
  from d tx have "w_db s' = w_db s \<and> (isl res \<or> res = Inr (loaded (w_db s) row))"
  proof (cases rule: Do_cases)
    case (kept x s1 s2)
    have ok1: "inv_ok U (w_db s1)" using ok kept(2) by simp
    show ?thesis
    proof (cases rule: take_hold_holds [OF ok1 kept(1) st, case_names again new])
      case (again row')
      with held kept(2) held_once [OF ro, of row' row] have "row' = row" by (auto simp: holds_lines_def)
      with again kept show ?thesis by auto
    next
      case (new row')
      have "inv_res_ok (w_db s2)" using take_hold_books [OF ok1 U kept(1) st] by (simp add: inv_ok_def)
      moreover have mem: "row \<in> set (reservations (w_db s1))" using held kept(2) by (simp add: holds_lines_def)
      moreover have "row \<in> set (reservations (w_db s2))" using new(3) mem by blast
      moreover have "rr_ID row \<noteq> rr_ID row'" using new(2) mem by (metis imageI)
      ultimately show ?thesis using held_once [of "w_db s2" row' row] new(1) held by (auto simp: holds_lines_def)
    qed
  qed auto
  with run d show "w_db (snd (inv_ReserveStock U pol new_id f cmd s)) = w_db s"
    "isl (fst (inv_ReserveStock U pol new_id f cmd s)) \<or>
      fst (inv_ReserveStock U pol new_id f cmd s) = Inr (loaded (w_db s) row)" by simp_all
qed

lemma reserve_held_calm:
  assumes ok: "inv_ok U (w_db s)" and tx: "\<not> w_tx s" and calm: "w_sched s = []"
    and cand: "inv_candidate U pol new_id cmd = Inr c"
    and held: "holds_lines U (w_db s) (res_orderID c) (res_lines c) row"
  shows "inv_ReserveStock U pol new_id f cmd s =
    (if res_lines (loaded (w_db s) row) = res_lines c then Inr (loaded (w_db s) row)
     else Inl (JoinErr [WithMetadata (WithReason
       (New KindConflict (''order '' @ res_orderID c @ '' already holds a different reservation''))
       ''RESERVATION_LINES_DIFFER'') [(''reservation_id'', rr_ID row)]]), s)"
proof -
  have "inv_res_ok (w_db s)" using ok by (simp add: inv_ok_def)
  then have found: "reservations_FindHeldByOrderID U (res_orderID c) (s\<lparr>w_tx := True\<rparr>) =
      (Inr (loaded (w_db s) row), s\<lparr>w_tx := True\<rparr>)"
    using FindHeld_now [of "s\<lparr>w_tx := True\<rparr>" U "res_orderID c" row] held calm by (simp add: holds_lines_def)
  let ?e = "WithMetadata (WithReason
      (New KindConflict (''order '' @ res_orderID c @ '' already holds a different reservation''))
      ''RESERVATION_LINES_DIFFER'') [(''reservation_id'', rr_ID row)]"
  have body: "inv_take_hold U f c (s\<lparr>w_tx := True\<rparr>) =
      (if res_lines (loaded (w_db s) row) = res_lines c then Inr (loaded (w_db s) row) else Inl ?e, s\<lparr>w_tx := True\<rparr>)"
    using found by (simp add: inv_take_hold_def withResult_def res_Matches_def ret_def fail_def)
  have p: "\<not> is_panic ?e" by (simp add: New_def)
  have s: "s\<lparr>w_tx := False\<rparr> = s" "s\<lparr>w_tx := True, w_db := w_db s, w_tx := False\<rparr> = s" using tx by simp_all
  from Do_no_fault [where s = s and fn = "inv_take_hold U f c", OF calm tx body] p calm s
  show ?thesis by (simp add: inv_ReserveStock_def cand pure_then split: if_splits)
qed

lemma held_lines_loaded:
  assumes "holds_lines U db orderID ls row"
  shows "sorted_wrt (<) (map (\<lambda>l. inv_collate db (ln_SKU l)) ls) \<Longrightarrow> res_lines (loaded db row) = ls"
    "\<not> sorted (map (\<lambda>l. inv_collate db (ln_SKU l)) ls) \<Longrightarrow> res_lines (loaded db row) \<noteq> ls"
proof -
  let ?g = "\<lambda>l. inv_collate db (ln_SKU l)"
  assume strict: "sorted_wrt (<) (map ?g ls)"
  then have "distinct (map ?g ls)" "sorted (map ?g ls)" unfolding strict_sorted_iff by blast+
  then have "inj_on ?g (set ls)" "sort_key ?g ls = ls" by (simp_all add: distinct_map sort_key_id_if_sorted)
  moreover have "mset ls = mset (res_lines (loaded db row))" using assms unfolding holds_lines_def loaded_mset by simp
  ultimately show "res_lines (loaded db row) = ls"
    using sort_key_inj_key_eq [of ls "res_lines (loaded db row)" ?g] loaded_sorted by simp
next
  assume "\<not> sorted (map (\<lambda>l. inv_collate db (ln_SKU l)) ls)"
  with loaded_sorted [of db row] show "res_lines (loaded db row) \<noteq> ls" by metis
qed

text \<open>C4. Reserving is idempotent. In any consistent state in which the order has a hold on the lines a
  well-formed command asks for, however long ago it took it and whichever policy, line order or
  line ids the command comes with, \<open>ReserveStock\<close> changes nothing, whatever fails, and answers
  with an error or with that hold; without a failure it answers with that hold. So a saga that lost
  the first answer never holds twice. It takes a server whose collation orders the SKUs of the
  order as their bytes do.\<close>

theorem reserve_retry:
  assumes "uuid_ok U" and "inv_ok U (w_db s)" and "\<not> w_tx s"
    and "inv_candidate U pol new_id cmd = Inr c"
    and "holds_lines U (w_db s) (res_orderID c) (res_lines c) row"
    and "sorted_wrt (<) (map (\<lambda>l. inv_collate (w_db s) (ln_SKU l)) (res_lines c))"
  shows "let (res, s') = inv_ReserveStock U pol new_id f cmd s in
    w_db s' = w_db s \<and> (isl res \<or> res = Inr (loaded (w_db s) row)) \<and>
    (w_sched s = [] \<longrightarrow> res = Inr (loaded (w_db s) row) \<and> s' = s) \<and>
    res_id (loaded (w_db s) row) = rr_ID row \<and> res_lines (loaded (w_db s) row) = res_lines c"
proof -
  note l = held_lines_loaded(1) [OF assms(5,6)]
  have "inv_ReserveStock U pol new_id f cmd s = (Inr (loaded (w_db s) row), s)" if "w_sched s = []"
    using reserve_held_calm [OF assms(2,3) that assms(4,5), of f] l by simp
  with reserve_held [OF assms(1-5), of f] l show ?thesis by (auto simp: split_beta)
qed

definition ex_cmd :: ReserveStockCommand where
  "ex_cmd = \<lparr>rc_OrderID = ''00000000-0000-0000-0000-0000000000a2'',
     rc_Lines = [\<lparr>nl_SKU = ''mug-red'', nl_Quantity = 1\<rparr>, \<lparr>nl_SKU = ''cap'', nl_Quantity = 2\<rparr>]\<rparr>"

definition ex_cmd_again :: ReserveStockCommand where
  "ex_cmd_again = \<lparr>rc_OrderID = ''00000000-0000-0000-0000-0000000000a2'',
     rc_Lines = [\<lparr>nl_SKU = ''cap'', nl_Quantity = 2\<rparr>, \<lparr>nl_SKU = ''mug-red'', nl_Quantity = 1\<rparr>]\<rparr>"

definition ex_line_id :: "nat \<Rightarrow> gostring" where
  "ex_line_id i = ''00000000-0000-0000-0000-0000000000'' @ (if i = 0 then ''e0'' else ''e1'')"

definition ex_pol :: inv_policy where "ex_pol = \<lparr>pol_ReservationTTL = 900, pol_Now = 6000\<rparr>"

definition ex_run :: "(err + Reservation) \<times> (inv_db, unit) world" where
  "ex_run = inv_ReserveStock canonical_uuids ex_pol ''00000000-0000-0000-0000-0000000000b2'' ex_line_id
     ex_cmd ex_world"

text \<open>An order that took its hold, and the same command with its lines in another order.\<close>

lemma ex_held:
  "inv_ok canonical_uuids (w_db (snd ex_run))" "w_sched (snd ex_run) = []" "\<not> w_tx (snd ex_run)"
  "\<exists>c row. inv_candidate canonical_uuids ex_pol [] ex_cmd_again = Inr c \<and>
     res_lines c = [\<lparr>ln_SKU = ''CAP'', ln_Quantity = 2\<rparr>, \<lparr>ln_SKU = ''MUG-RED'', ln_Quantity = 1\<rparr>] \<and>
     holds_lines canonical_uuids (w_db (snd ex_run)) (res_orderID c) (res_lines c) row"
  "inv_collate (w_db (snd ex_run)) = (\<lambda>x. x)"
proof -
  let ?new = "''00000000-0000-0000-0000-0000000000b2''"
  have sched: "w_sched (snd ex_run) = []" and ok: "\<not> isl (fst ex_run)" by code_simp+
  show "w_sched (snd ex_run) = []" by (rule sched)
  obtain r s' where run: "ex_run = (Inr r, s')" using ok by (metis prod.collapse sum.collapse(2))
  have cands: "inv_candidate canonical_uuids ex_pol ?new ex_cmd =
      map_sum id (\<lambda>c. c\<lparr>res_id := ?new\<rparr>) (inv_candidate canonical_uuids ex_pol [] ex_cmd_again)"
    "\<not> isl (inv_candidate canonical_uuids ex_pol [] ex_cmd_again)"
    "res_lines (projr (inv_candidate canonical_uuids ex_pol [] ex_cmd_again)) =
      [\<lparr>ln_SKU = ''CAP'', ln_Quantity = 2\<rparr>, \<lparr>ln_SKU = ''MUG-RED'', ln_Quantity = 1\<rparr>]"
    by code_simp+
  obtain c where c: "inv_candidate canonical_uuids ex_pol [] ex_cmd_again = Inr c"
      "inv_candidate canonical_uuids ex_pol ?new ex_cmd = Inr (c\<lparr>res_id := ?new\<rparr>)"
    using cands(1,2) by (cases "inv_candidate canonical_uuids ex_pol [] ex_cmd_again") auto
  have d: "Do (inv_take_hold canonical_uuids ex_line_id (c\<lparr>res_id := ?new\<rparr>)) ex_world = (Inr r, s')"
    using run c(2) by (simp add: ex_run_def inv_ReserveStock_def pure_then)
  have tx: "\<not> w_tx ex_world" using ex_inv_ok by simp
  obtain s1 s2 where t: "inv_take_hold canonical_uuids ex_line_id (c\<lparr>res_id := ?new\<rparr>) s1 = (Inr r, s2)"
      "w_db s1 = w_db ex_world" "w_ext s1 = w_ext ex_world" "w_db s' = w_db s2" "\<not> w_tx s'"
    by (rule Do_success [OF d tx], rule that, assumption+)
  have ok1: "inv_ok canonical_uuids (w_db s1)" using ex_inv_ok t(2) by simp
  have st: "res_status (c\<lparr>res_id := ?new\<rparr>) = StatusHeld" by (rule inv_candidate_Inr [OF c(2)])
  have fin: "w_db (snd ex_run) = w_db s2" "w_tx (snd ex_run) = w_tx s'" unfolding run snd_conv by (rule t(4), rule refl)
  show "inv_ok canonical_uuids (w_db (snd ex_run))"
    unfolding fin(1) using take_hold_books [OF ok1 uuid_ok_canonical t(1) st] by blast
  show "\<not> w_tx (snd ex_run)" unfolding fin(2) by (rule t(5))
  have "inv_collate (w_db s2) = (\<lambda>x. x) \<and>
      (\<exists>row. holds_lines canonical_uuids (w_db s2) (res_orderID c) (res_lines c) row)"
  proof (cases rule: take_hold_holds [OF ok1 t(1) st, case_names again new])
    case (again row)
    with t(2) show ?thesis by (auto simp: ex_inv_def)
  next
    case (new row)
    with t(2) show ?thesis by (auto simp: ex_inv_def)
  qed
  then obtain row where "holds_lines canonical_uuids (w_db (snd ex_run)) (res_orderID c) (res_lines c) row"
      "inv_collate (w_db (snd ex_run)) = (\<lambda>x. x)"
    unfolding fin(1) by blast
  with c(1) cands(3) show "\<exists>c row. inv_candidate canonical_uuids ex_pol [] ex_cmd_again = Inr c \<and>
     res_lines c = [\<lparr>ln_SKU = ''CAP'', ln_Quantity = 2\<rparr>, \<lparr>ln_SKU = ''MUG-RED'', ln_Quantity = 1\<rparr>] \<and>
     holds_lines canonical_uuids (w_db (snd ex_run)) (res_orderID c) (res_lines c) row"
    "inv_collate (w_db (snd ex_run)) = (\<lambda>x. x)" by auto
qed

theorem reserve_retry_witness:
  "\<exists>row. inv_ReserveStock canonical_uuids ex_pol [] ex_line_id ex_cmd_again (snd ex_run) =
      (Inr (loaded (w_db (snd ex_run)) row), snd ex_run) \<and>
    res_lines (loaded (w_db (snd ex_run)) row) =
      [\<lparr>ln_SKU = ''CAP'', ln_Quantity = 2\<rparr>, \<lparr>ln_SKU = ''MUG-RED'', ln_Quantity = 1\<rparr>]"
proof -
  obtain c row where c: "inv_candidate canonical_uuids ex_pol [] ex_cmd_again = Inr c"
      "res_lines c = [\<lparr>ln_SKU = ''CAP'', ln_Quantity = 2\<rparr>, \<lparr>ln_SKU = ''MUG-RED'', ln_Quantity = 1\<rparr>]"
      "holds_lines canonical_uuids (w_db (snd ex_run)) (res_orderID c) (res_lines c) row"
    using ex_held(4) by blast
  have "sorted_wrt (<) (map (\<lambda>l. inv_collate (w_db (snd ex_run)) (ln_SKU l)) (res_lines c))"
    unfolding ex_held(5) c(2) by code_simp
  from reserve_retry [OF uuid_ok_canonical ex_held(1,3) c(1,3) this, of ex_line_id] ex_held(2) c(2)
  show ?thesis by (intro exI [of _ row]) (auto simp: split_beta prod_eq_iff)
qed

text \<open>C30. The collation is part of that contract. On a server that orders the SKUs of the order
  differently than their bytes do, as the linguistic collations that skip hyphens may, the lines come
  back in another order than \<open>canonicalLines\<close> puts them in, \<open>Matches\<close> compares the two lists, and the
  retry of an honest caller is refused with \<open>RESERVATION_LINES_DIFFER\<close>, for every order, every
  command and every time the hold is standing.\<close>

theorem retry_needs_byte_collation:
  assumes "inv_ok U (w_db s)" and "\<not> w_tx s" and "w_sched s = []"
    and "inv_candidate U pol new_id cmd = Inr c"
    and "holds_lines U (w_db s) (res_orderID c) (res_lines c) row"
    and "\<not> sorted (map (\<lambda>l. inv_collate (w_db s) (ln_SKU l)) (res_lines c))"
  shows "\<exists>e. inv_ReserveStock U pol new_id f cmd s = (Inl e, s) \<and> KindOf e = KindConflict \<and>
    Reason P e = ''RESERVATION_LINES_DIFFER''"
  using reserve_held_calm [OF assms(1-5), of f] held_lines_loaded(2) [OF assms(5,6)]
  by (simp add: New_def Reason_def)

text \<open>An order that holds \<open>A-Z\<close> and \<open>ABC\<close> on a server that skips hyphens.\<close>

definition ex_line2 :: gostring where "ex_line2 = ''00000000-0000-0000-0000-0000000000c2''"

definition ex_linguistic :: "(inv_db, unit) world" where
  "ex_linguistic = ex_world\<lparr>w_db := ex_inv\<lparr>stock_items :=
     [\<lparr>sk_ID = ''00000000-0000-0000-0000-0000000000d1'', sk_Sku = ''A-Z'', sk_Available = 2,
       sk_Reserved = 1, sk_CreatedAt = 0, sk_UpdatedAt = 0, sk_Version = 1\<rparr>,
      \<lparr>sk_ID = ''00000000-0000-0000-0000-0000000000d2'', sk_Sku = ''ABC'', sk_Available = 2,
       sk_Reserved = 1, sk_CreatedAt = 0, sk_UpdatedAt = 0, sk_Version = 1\<rparr>],
     reservation_lines :=
       [\<lparr>rl_ID = ex_line, rl_ReservationID = ex_res, rl_Sku = ''A-Z'', rl_Quantity = 1, rl_CreatedAt = 0\<rparr>,
        \<lparr>rl_ID = ex_line2, rl_ReservationID = ex_res, rl_Sku = ''ABC'', rl_Quantity = 1, rl_CreatedAt = 0\<rparr>],
     inv_collate := filter (\<lambda>c. c \<noteq> CHR ''-'')\<rparr>\<rparr>"

definition ex_hyphen_cmd :: ReserveStockCommand where
  "ex_hyphen_cmd = \<lparr>rc_OrderID = ex_order,
     rc_Lines = [\<lparr>nl_SKU = ''abc'', nl_Quantity = 1\<rparr>, \<lparr>nl_SKU = ''A-Z'', nl_Quantity = 1\<rparr>]\<rparr>"

lemma ex_linguistic_ok: "inv_ok canonical_uuids (w_db ex_linguistic)"
proof -
  let ?db = "w_db ex_linguistic"
  have "inv_stock_ok ?db"
    by (simp add: ex_linguistic_def ex_world_def ex_inv_def inv_stock_ok_def)
  moreover have "inv_res_ok ?db"
    by (simp add: ex_linguistic_def ex_world_def ex_inv_def inv_res_ok_def held_row_def known_status_def)
  moreover have "inv_typed canonical_uuids ?db"
    using ex_ids by (simp add: ex_linguistic_def ex_world_def ex_inv_def inv_typed_def canonical_uuids_def)
  moreover have "held_ids ?db = set (map rr_ID (filter held_row (reservations ?db)))"
    by (simp add: held_ids_def)
  then have "held_ids ?db = {ex_res}" by (simp add: ex_linguistic_def ex_world_def ex_inv_def held_row_def)
  then have "reserved_of ?db sku = held_total ?db sku" for sku
    unfolding reserved_of_def held_total_def by (simp add: ex_linguistic_def ex_world_def ex_inv_def)
  ultimately show ?thesis by (simp add: inv_ok_def)
qed

theorem retry_needs_byte_collation_witness:
  "\<exists>e. inv_ReserveStock canonical_uuids ex_pol [] ex_line_id ex_hyphen_cmd ex_linguistic = (Inl e, ex_linguistic) \<and>
     Reason plain_status e = ''RESERVATION_LINES_DIFFER''"
proof -
  let ?ls = "[\<lparr>ln_SKU = ''A-Z'', ln_Quantity = 1\<rparr>, \<lparr>ln_SKU = ''ABC'', ln_Quantity = 1\<rparr>]"
  have c: "\<not> isl (inv_candidate canonical_uuids ex_pol [] ex_hyphen_cmd)"
    "res_lines (projr (inv_candidate canonical_uuids ex_pol [] ex_hyphen_cmd)) = ?ls"
    "res_orderID (projr (inv_candidate canonical_uuids ex_pol [] ex_hyphen_cmd)) = ex_order" by code_simp+
  then obtain c where c': "inv_candidate canonical_uuids ex_pol [] ex_hyphen_cmd = Inr c" "res_lines c = ?ls"
      "res_orderID c = ex_order"
    by (cases "inv_candidate canonical_uuids ex_pol [] ex_hyphen_cmd") auto
  have p: "uuid_Parse canonical_uuids ex_order = Inr ex_order" by code_simp
  have "holds_lines canonical_uuids (w_db ex_linguistic) (res_orderID c) (res_lines c) (hd (reservations ex_inv))"
    using p c'(2,3) by (simp add: holds_lines_def ex_linguistic_def ex_world_def ex_inv_def held_row_def)
  moreover have "\<not> sorted (map (\<lambda>l. inv_collate (w_db ex_linguistic) (ln_SKU l)) (res_lines c))"
    unfolding c'(2) by code_simp
  moreover have "\<not> w_tx ex_linguistic" "w_sched ex_linguistic = []" by code_simp+
  ultimately show ?thesis
    using retry_needs_byte_collation [OF ex_linguistic_ok _ _ c'(1), of "hd (reservations ex_inv)" ex_line_id plain_status] by blast
qed

subsection \<open>No oversell, and what a sweep does\<close>

lemma available_nonneg: "inv_ok U db \<Longrightarrow> 0 \<le> available_of db k"
  unfolding available_of_def by (intro sum_by_nonneg) (simp add: inv_ok_def inv_stock_ok_def)

text \<open>C3. Overselling is impossible: when \<open>ReserveStock\<close> answers with a hold, the order holds exactly
  the lines of the command afterwards. Either it held exactly those before and nothing changed, or
  the hold is new, every SKU had at least the quantity that was asked for, and exactly that left
  \<open>available\<close>.\<close>

theorem no_oversell:
  assumes "uuid_ok U" and "inv_ok U (w_db s)" and "\<not> w_tx s"
    and "inv_ReserveStock U pol new_id f cmd s = (Inr r, s')"
  shows "\<exists>c row. inv_candidate U pol new_id cmd = Inr c \<and>
    ((holds_lines U (w_db s) (res_orderID c) (res_lines c) row \<and> w_db s' = w_db s) \<or>
     (holds_lines U (w_db s') (res_orderID c) (res_lines c) row \<and> rr_ID row \<notin> rr_ID ` set (reservations (w_db s)) \<and>
      (\<forall>k. line_total (res_lines c) k \<le> available_of (w_db s) k \<and>
        available_of (w_db s') k = available_of (w_db s) k - line_total (res_lines c) k)))"
proof -
  from assms(4) obtain c where c: "inv_candidate U pol new_id cmd = Inr c"
      "Do (inv_take_hold U f c) s = (Inr r, s')"
    by (auto simp: inv_ReserveStock_def op_inv)
  obtain s1 s2 where d: "inv_take_hold U f c s1 = (Inr r, s2)" "w_db s1 = w_db s" "w_ext s1 = w_ext s"
      "w_db s' = w_db s2"
    by (rule Do_success [OF c(2) assms(3)], rule that, assumption+)
  have st: "res_status c = StatusHeld" by (rule inv_candidate_Inr [OF c(1)])
  have ok1: "inv_ok U (w_db s1)" using assms(2) d(2) by simp
  show ?thesis
  proof (cases rule: take_hold_holds [OF ok1 d(1) st, case_names again new])
    case (again row)
    with c(1) d(2,4) show ?thesis by auto
  next
    case (new row)
    then have "w_db s2 \<noteq> w_db s" using d(2) by (auto simp: holds_lines_def)
    with take_hold_books [OF ok1 assms(1) d(1) st] d(2)
    have b: "inv_ok U (w_db s2)"
      "\<forall>k. available_of (w_db s2) k = available_of (w_db s) k - line_total (res_lines c) k" by auto
    have "line_total (res_lines c) k \<le> available_of (w_db s) k" for k
      using available_nonneg [OF b(1), of k] b(2) by simp
    with new c(1) d(2,4) b(2) show ?thesis by auto
  qed
qed

theorem no_oversell_witness:
  "\<exists>r s' c row. ex_run = (Inr r, s') \<and>
     inv_candidate canonical_uuids ex_pol ''00000000-0000-0000-0000-0000000000b2'' ex_cmd = Inr c \<and>
     rr_OrderID row = ''00000000-0000-0000-0000-0000000000a2'' \<and> row \<in> set (reservations (w_db s')) \<and>
     (\<forall>k. line_total (res_lines c) k \<le> available_of ex_inv k)"
proof -
  have "\<not> isl (fst ex_run)" by code_simp
  then obtain r s' where run: "ex_run = (Inr r, s')" by (metis prod.collapse sum.collapse(2))
  have none: "\<forall>row \<in> set (reservations ex_inv). rr_OrderID row \<noteq> ''00000000-0000-0000-0000-0000000000a2''" by code_simp
  have p: "res_orderID (projr (inv_candidate canonical_uuids ex_pol ''00000000-0000-0000-0000-0000000000b2'' ex_cmd)) =
      ''00000000-0000-0000-0000-0000000000a2''"
    "uuid_Parse canonical_uuids ''00000000-0000-0000-0000-0000000000a2'' = Inr ''00000000-0000-0000-0000-0000000000a2''"
    by code_simp+
  from no_oversell [OF uuid_ok_canonical _ _ run [unfolded ex_run_def]] ex_inv_ok none p run
  show ?thesis by (fastforce simp: holds_lines_def)
qed

text \<open>C5. A sweep expires only what is due, and a short sweep has left nothing behind: it
  returns the number of reservations it expired, at most the limit, each of them held and past
  its expiry; their lines, and no others, return to \<open>available\<close>; and when it expired fewer
  than the limit no due reservation is left except those another sweeper has locked. The
  reaper's loop relies on the last part when it sleeps.\<close>

theorem sweep_exact:
  assumes "inv_ok U (w_db s)" and "\<not> w_tx s"
    and "inv_ExpireReservations U pol locked limit s = (Inr n, s')"
    and "limit \<le> MaxInt32"
  shows "\<exists>rows. n = int (length rows) \<and> n \<le> (if limit \<le> 0 then 100 else limit) \<and>
    distinct (map rr_ID rows) \<and>
    (\<forall>row \<in> set rows. row \<in> set (reservations (w_db s)) \<and> held_row row \<and> rr_ExpiresAt row \<le> pol_Now pol) \<and>
    swept rows (w_db s) (w_db s') \<and>
    (n < (if limit \<le> 0 then 100 else limit) \<longrightarrow>
      (\<forall>row \<in> set (reservations (w_db s')). held_row row \<and> rr_ExpiresAt row \<le> pg_time (pol_Now pol) \<longrightarrow>
         rr_ID row \<in> set locked))"
proof -
  let ?limit = "if limit \<le> 0 then 100 else limit"
  let ?P = "\<lambda>r. held_row r \<and> rr_ExpiresAt r \<le> pg_time (pol_Now pol) \<and> rr_ID r \<notin> set locked"
  have clamp: "clamp32 ?limit = ?limit" using assms(4) by (simp add: MaxInt32_def)
  from assms(3) have run: "Do (andThen (reservations_ClaimExpired locked (pol_Now pol) ?limit)
      (\<lambda>claimed. inv_sweep U (pol_Now pol) claimed 0)) s = (Inr n, s')"
    by (simp add: inv_ExpireReservations_def Let_def defaultSweepLimit_def split: if_splits)
  obtain s1 s2 where d: "andThen (reservations_ClaimExpired locked (pol_Now pol) ?limit)
      (\<lambda>claimed. inv_sweep U (pol_Now pol) claimed 0) s1 = (Inr n, s2)" "w_db s1 = w_db s"
      "w_ext s1 = w_ext s" "w_db s' = w_db s2"
    by (rule Do_success [OF run assms(2)], rule that, assumption+)
  from expire_tx_books [OF _ d(1)] assms(1) d(2) obtain rows where rows: "inv_ok U (w_db s2)"
      "fst (sql_ClaimExpiredReservations locked (pol_Now pol) ?limit (w_db s)) = Inr rows"
      "n = int (length rows)" "swept rows (w_db s) (w_db s2)"
    by (auto simp: clamp)
  from assms(1) have ro: "inv_res_ok (w_db s)" by (simp add: inv_ok_def)
  note c = claimed_rows [OF rows(2) ro]
  have due: "\<forall>row \<in> set rows. row \<in> set (reservations (w_db s)) \<and> held_row row \<and> rr_ExpiresAt row \<le> pol_Now pol"
    using c(1) pg_time_le [of "pol_Now pol"] by fastforce
  have "rr_ID row \<in> set locked"
    if short: "n < ?limit" and row: "row \<in> set (reservations (w_db s'))" "held_row row"
      "rr_ExpiresAt row \<le> pg_time (pol_Now pol)" for row
  proof (rule ccontr)
    assume un: "rr_ID row \<notin> set locked"
    have "rr_ID row \<in> held_ids (w_db s2)" using row(1,2) d(4) by (auto simp: held_ids_def)
    then have "rr_ID row \<notin> rr_ID ` set rows" using rows(4) by (simp add: swept_def)
    moreover from this have "row \<in> set (reservations (w_db s))" using rows(4) row(1) d(4) by (simp add: swept_def)
    with row un have "row \<in> set (filter ?P (reservations (w_db s)))" by simp
    moreover have "rows = sort_key rr_ExpiresAt (filter ?P (reservations (w_db s)))"
    proof -
      have "rows = take (nat ?limit) (sort_key rr_ExpiresAt (filter ?P (reservations (w_db s))))"
        using rows(2) by (simp add: sql_ClaimExpiredReservations_def)
      moreover have "length rows < nat ?limit" using short rows(3) by linarith
      ultimately show ?thesis by (rule short_take)
    qed
    ultimately show False by (auto simp: image_iff)
  qed
  moreover have "n \<le> ?limit" using c(3) rows(3) by (simp split: if_splits)
  ultimately show ?thesis using rows(3,4) c(2) due d(4) by (intro exI [of _ rows]) auto
qed

theorem sweep_exact_witness:
  "\<exists>rows. 1 = int (length rows) \<and>
     swept rows ex_inv (w_db (snd (inv_ExpireReservations canonical_uuids ex_pol [] 0 ex_world)))"
proof -
  let ?run = "inv_ExpireReservations canonical_uuids ex_pol [] 0 ex_world"
  have "fst ?run = Inr 1" by code_simp
  then have "?run = (Inr 1, snd ?run)" by (metis prod.collapse)
  from sweep_exact [OF _ _ this] ex_inv_ok show ?thesis
    unfolding ex_world_simps by (auto simp: MaxInt32_def)
qed

end
