(* ===== verification/Worker.thy ===== *)
theory Worker
  imports World
begin

text \<open>
  The loop of the background workers, which the inventory's reaper, the order service's timeout
  worker and the outbox relay all write the same way: do one batch, go straight on when the batch
  was full, pause for the interval when it was not, and after a failure pause for a backoff that
  doubles up to a maximum. Cancelling the context stops it.
\<close>


record poll_config =
  pc_Interval :: int
  pc_BatchSize :: int
  pc_MaxBackoff :: int

text \<open>What every constructor of a worker checks before it makes one.\<close>

definition poll_ok :: "poll_config \<Rightarrow> bool" where
  "poll_ok cfg \<longleftrightarrow> 0 < pc_Interval cfg \<and> 1 \<le> pc_BatchSize cfg \<and> pc_Interval cfg \<le> pc_MaxBackoff cfg"

text \<open>One turn of \<open>Run\<close>: what it does next, the backoff it keeps, and the counters. The
  durations are \<open>int64\<close> and the doubling wraps.\<close>

datatype poll_next = Stop | Again | Sleep int

record poll_state =
  ps_backoff :: int
  ps_done :: int
  ps_failures :: int

definition poll_turn ::
  "poll_config \<Rightarrow> bool \<Rightarrow> err + int \<Rightarrow> poll_state \<Rightarrow> poll_next \<times> poll_state" where
  "poll_turn cfg ctx_done r st =
     (if ctx_done then (Stop, st)
      else (case r of
          Inl _ \<Rightarrow> (Sleep (ps_backoff st),
            st\<lparr>ps_backoff := min (wrap64 (ps_backoff st * 2)) (pc_MaxBackoff cfg),
               ps_failures := ps_failures st + 1\<rparr>)
        | Inr n \<Rightarrow>
            let st = st\<lparr>ps_backoff := pc_Interval cfg,
                        ps_done := (if n > 0 then ps_done st + n else ps_done st)\<rparr>
            in if n = pc_BatchSize cfg then (Again, st) else (Sleep (pc_Interval cfg), st)))"

text \<open>\<open>Run\<close> on a given sequence of sweep results: the pauses it makes, until it stops.\<close>

fun poll_run :: "poll_config \<Rightarrow> (bool \<times> (err + int)) list \<Rightarrow> poll_state \<Rightarrow> poll_next list \<times> poll_state" where
  "poll_run cfg [] st = ([], st)"
| "poll_run cfg ((ctx_done, r) # rs) st =
     (case poll_turn cfg ctx_done r st of
        (Stop, st') \<Rightarrow> ([Stop], st')
      | (nxt, st') \<Rightarrow> (case poll_run cfg rs st' of (ns, st'') \<Rightarrow> (nxt # ns, st'')))"

definition poll_start :: "poll_config \<Rightarrow> poll_state" where
  "poll_start cfg = \<lparr>ps_backoff = pc_Interval cfg, ps_done = 0, ps_failures = 0\<rparr>"

lemma wrap64_double:
  "0 \<le> x \<Longrightarrow> x \<le> 4611686018427387903 \<Longrightarrow> wrap64 (x * 2) = x * 2"
  by (intro wrap64_id) (simp add: int8_def MaxInt64_def)

lemma poll_turn_backoff:
  assumes "poll_ok cfg" and "pc_MaxBackoff cfg \<le> 4611686018427387903"
    and "pc_Interval cfg \<le> ps_backoff st" "ps_backoff st \<le> pc_MaxBackoff cfg"
    and "poll_turn cfg d r st = (nxt, st')"
  shows "pc_Interval cfg \<le> ps_backoff st' \<and> ps_backoff st' \<le> pc_MaxBackoff cfg \<and>
    (case nxt of Sleep w \<Rightarrow> pc_Interval cfg \<le> w \<and> w \<le> pc_MaxBackoff cfg | _ \<Rightarrow> True)"
proof -
  from assms(1) have c: "0 < pc_Interval cfg" "pc_Interval cfg \<le> pc_MaxBackoff cfg"
    by (auto simp: poll_ok_def)
  with assms(2-4) have "wrap64 (ps_backoff st * 2) = ps_backoff st * 2"
    by (intro wrap64_double) auto
  with assms(3-5) c show ?thesis
    by (auto simp: poll_turn_def Let_def split: sum.splits if_splits)
qed

lemma poll_run_backoff:
  assumes "poll_ok cfg" and "pc_MaxBackoff cfg \<le> 4611686018427387903"
    and "pc_Interval cfg \<le> ps_backoff st" "ps_backoff st \<le> pc_MaxBackoff cfg"
    and "poll_run cfg rs st = (ns, st')" and "Sleep w \<in> set ns"
  shows "pc_Interval cfg \<le> w \<and> w \<le> pc_MaxBackoff cfg"
  using assms(3-6)
proof (induction rs arbitrary: st ns)
  case (Cons x rs)
  obtain d r where x: "x = (d, r)" by (cases x)
  obtain nxt st1 where turn: "poll_turn cfg d r st = (nxt, st1)" by (cases "poll_turn cfg d r st")
  note t = poll_turn_backoff [OF assms(1,2) Cons.prems(1,2) turn]
  show ?case
  proof (cases "Sleep w = nxt")
    case True
    with t show ?thesis by (auto split: poll_next.splits)
  next
    case False
    with Cons.prems(3,4) x turn obtain ns1 where "poll_run cfg rs st1 = (ns1, st')" "Sleep w \<in> set ns1"
      by (auto split: poll_next.splits prod.splits)
    with Cons.IH t show ?thesis by blast
  qed
qed simp

lemma failures_double:
  assumes "poll_ok cfg" and "pc_MaxBackoff cfg \<le> 4611686018427387903"
  shows "ps_backoff (snd (poll_run cfg (replicate k (False, Inl e)) (poll_start cfg))) =
    min (pc_Interval cfg * 2 ^ k) (pc_MaxBackoff cfg)"
proof -
  from assms(1) have c: "0 < pc_Interval cfg" "pc_Interval cfg \<le> pc_MaxBackoff cfg"
    by (auto simp: poll_ok_def)
  have "ps_backoff (snd (poll_run cfg (replicate k (False, Inl e)) st)) =
      min (ps_backoff st * 2 ^ k) (pc_MaxBackoff cfg)"
    if "0 < ps_backoff st" "ps_backoff st \<le> pc_MaxBackoff cfg" for st
    using that
  proof (induction k arbitrary: st)
    case (Suc k)
    let ?st = "snd (poll_turn cfg False (Inl e) st)"
    have w: "wrap64 (ps_backoff st * 2) = ps_backoff st * 2"
      using Suc.prems assms(2) by (intro wrap64_double) auto
    then have b: "ps_backoff ?st = min (ps_backoff st * 2) (pc_MaxBackoff cfg)"
      by (simp add: poll_turn_def)
    have "ps_backoff (snd (poll_run cfg (replicate (Suc k) (False, Inl e)) st)) =
        ps_backoff (snd (poll_run cfg (replicate k (False, Inl e)) ?st))"
      by (simp add: poll_turn_def split: prod.splits)
    also have "\<dots> = min (ps_backoff ?st * 2 ^ k) (pc_MaxBackoff cfg)"
      using Suc.prems b by (intro Suc.IH) auto
    also have "\<dots> = min (ps_backoff st * 2 ^ Suc k) (pc_MaxBackoff cfg)"
    proof (cases "ps_backoff st * 2 \<le> pc_MaxBackoff cfg")
      case True
      then show ?thesis by (simp add: b mult.assoc)
    next
      case False
      have one: "(1::int) \<le> 2 ^ k" by simp
      have "pc_MaxBackoff cfg * 1 \<le> pc_MaxBackoff cfg * 2 ^ k"
        using one Suc.prems by (intro mult_left_mono) auto
      moreover have "ps_backoff st * 2 * 1 \<le> ps_backoff st * 2 * 2 ^ k"
        using one Suc.prems by (intro mult_left_mono) auto
      ultimately show ?thesis using False by (simp add: b)
    qed
    finally show ?case .
  qed simp
  with c show ?thesis by (simp add: poll_start_def)
qed

text \<open>Every pause lies between the interval and the maximum, and \<open>k\<close> failures in a row
  leave the interval doubled \<open>k\<close> times, capped.\<close>

lemma poll_bounded:
  assumes "poll_ok cfg" and "pc_MaxBackoff cfg \<le> 4611686018427387903"
  shows "(\<forall>w. Sleep w \<in> set (fst (poll_run cfg rs (poll_start cfg))) \<longrightarrow>
      pc_Interval cfg \<le> w \<and> w \<le> pc_MaxBackoff cfg) \<and>
    ps_backoff (snd (poll_run cfg (replicate k (False, Inl e)) (poll_start cfg))) =
      min (pc_Interval cfg * 2 ^ k) (pc_MaxBackoff cfg)"
proof -
  have le: "pc_Interval cfg \<le> ps_backoff (poll_start cfg)" "ps_backoff (poll_start cfg) \<le> pc_MaxBackoff cfg"
    using assms(1) by (auto simp: poll_ok_def poll_start_def)
  have "pc_Interval cfg \<le> w \<and> w \<le> pc_MaxBackoff cfg"
    if "Sleep w \<in> set (fst (poll_run cfg rs (poll_start cfg)))" for w
    by (rule poll_run_backoff [OF assms le prod.collapse [symmetric] that])
  with failures_double [OF assms] show ?thesis by blast
qed

end
