(* ===== verification/InvServer.thy ===== *)
theory InvServer
  imports InvProps Worker
begin

text \<open>
  The inventory service's inbound adapters: \<open>adapter/in/grpc\<close>, which turns requests into use
  case calls and errors into statuses, and \<open>adapter/in/reaper\<close>, the loop that sweeps expired
  reservations. A protobuf message is a record of the fields the service writes, and a
  \<open>Timestamp\<close> the instant it carries.
\<close>

subsection \<open>The gRPC handlers\<close>

datatype pb_ReservationStatus =
  RESERVATION_STATUS_UNSPECIFIED | RESERVATION_STATUS_HELD | RESERVATION_STATUS_COMMITTED
| RESERVATION_STATUS_RELEASED | RESERVATION_STATUS_EXPIRED

record pb_ReservationLine =
  pbl_Sku :: gostring
  pbl_Quantity :: int

record pb_Reservation =
  pbr_Id :: gostring
  pbr_OrderId :: gostring
  pbr_Lines :: "pb_ReservationLine list"
  pbr_Status :: pb_ReservationStatus
  pbr_ExpiresAt :: gotime
  pbr_CreatedAt :: gotime
  pbr_UpdatedAt :: gotime

record pb_StockItem =
  pbs_Sku :: gostring
  pbs_Available :: int
  pbs_Reserved :: int
  pbs_CreatedAt :: gotime
  pbs_UpdatedAt :: gotime

fun inv_toProtoStatus :: "ReservationStatus \<Rightarrow> pb_ReservationStatus" where
  "inv_toProtoStatus StatusHeld = RESERVATION_STATUS_HELD"
| "inv_toProtoStatus StatusCommitted = RESERVATION_STATUS_COMMITTED"
| "inv_toProtoStatus StatusReleased = RESERVATION_STATUS_RELEASED"
| "inv_toProtoStatus StatusExpired = RESERVATION_STATUS_EXPIRED"
| "inv_toProtoStatus (StatusOther _) = RESERVATION_STATUS_UNSPECIFIED"

definition toReservationProto :: "Reservation \<Rightarrow> pb_Reservation" where
  "toReservationProto r =
     \<lparr>pbr_Id = res_id r, pbr_OrderId = res_orderID r,
      pbr_Lines = map (\<lambda>l. \<lparr>pbl_Sku = ln_SKU l, pbl_Quantity = ln_Quantity l\<rparr>) (res_lines r),
      pbr_Status = inv_toProtoStatus (res_status r), pbr_ExpiresAt = res_expiresAt r,
      pbr_CreatedAt = res_createdAt r, pbr_UpdatedAt = res_updatedAt r\<rparr>"

definition toStockProto :: "StockItem \<Rightarrow> pb_StockItem" where
  "toStockProto i =
     \<lparr>pbs_Sku = si_sku i, pbs_Available = si_available i, pbs_Reserved = si_reserved i,
      pbs_CreatedAt = si_createdAt i, pbs_UpdatedAt = si_updatedAt i\<rparr>"

definition toStockProtos :: "StockItem list \<Rightarrow> pb_StockItem list" where
  "toStockProtos = map toStockProto"

definition inv_fromProtoLines :: "(gostring \<times> int) list \<Rightarrow> NewLine list" where
  "inv_fromProtoLines = map (\<lambda>(sku, q). \<lparr>nl_SKU = sku, nl_Quantity = q\<rparr>)"

definition answer :: "status_pkg \<Rightarrow> ('a \<Rightarrow> 'b) \<Rightarrow> ('d, 'w, 'a) op \<Rightarrow> ('d, 'w, 'b) op" where
  "answer fe f m =
     withResult m (\<lambda>r. case r of Inl e \<Rightarrow> fail (ToGRPC fe e) | Inr x \<Rightarrow> ret (f x))"

definition h_GetStockBySKUs :: "status_pkg \<Rightarrow> gostring list \<Rightarrow> ('w, pb_StockItem list) inv_op" where
  "h_GetStockBySKUs fe skus = answer fe toStockProtos (inv_GetStockBySKUs skus)"

definition h_CreateStockItem ::
  "status_pkg \<Rightarrow> uuid_lib \<Rightarrow> gostring \<Rightarrow> gostring \<Rightarrow> int \<Rightarrow> ('w, pb_StockItem) inv_op" where
  "h_CreateStockItem fe U new_id sku available =
     answer fe toStockProto (inv_CreateStockItem U new_id sku available)"

definition h_AdjustStock :: "status_pkg \<Rightarrow> gostring \<Rightarrow> int \<Rightarrow> ('w, pb_StockItem) inv_op" where
  "h_AdjustStock fe sku delta = answer fe toStockProto (inv_AdjustStock sku delta)"

definition h_GetReservation :: "status_pkg \<Rightarrow> uuid_lib \<Rightarrow> gostring \<Rightarrow> ('w, pb_Reservation) inv_op" where
  "h_GetReservation fe U rid = answer fe toReservationProto (inv_GetReservation U rid)"

definition h_ReserveStock ::
  "status_pkg \<Rightarrow> uuid_lib \<Rightarrow> inv_policy \<Rightarrow> gostring \<Rightarrow> (nat \<Rightarrow> gostring) \<Rightarrow> gostring \<Rightarrow>
   (gostring \<times> int) list \<Rightarrow> ('w, pb_Reservation) inv_op" where
  "h_ReserveStock fe U pol new_id new_line_id order_id ls =
     answer fe toReservationProto (inv_ReserveStock U pol new_id new_line_id
       \<lparr>rc_OrderID = order_id, rc_Lines = inv_fromProtoLines ls\<rparr>)"

definition h_CommitReservation ::
  "status_pkg \<Rightarrow> uuid_lib \<Rightarrow> inv_policy \<Rightarrow> gostring \<Rightarrow> ('w, pb_Reservation) inv_op" where
  "h_CommitReservation fe U pol rid = answer fe toReservationProto (inv_CommitReservation U pol rid)"

definition h_ReleaseReservation :: "status_pkg \<Rightarrow> uuid_lib \<Rightarrow> gostring \<Rightarrow> ('w, pb_Reservation) inv_op" where
  "h_ReleaseReservation fe U rid = answer fe toReservationProto (inv_ReleaseReservation U rid)"

subsection \<open>The reaper\<close>

text \<open>The first argument of \<open>New\<close> says whether there is a sweep to run, the second is the error of
  registering the metrics, if any.\<close>

definition reaper_New :: "bool \<Rightarrow> err option \<Rightarrow> poll_config \<Rightarrow> err + poll_config" where
  "reaper_New has_sweep metrics cfg =
     (if \<not> has_sweep then Inl (PlainErr ''reaper: needs a reservation sweep'')
      else if pc_Interval cfg \<le> 0
      then Inl (PlainErr (''reaper: Interval is '' @ show_duration (pc_Interval cfg) @ '', want a positive duration''))
      else if pc_BatchSize cfg < 1
      then Inl (PlainErr (''reaper: BatchSize is '' @ show_int (pc_BatchSize cfg) @ '', want at least 1''))
      else if pc_MaxBackoff cfg < pc_Interval cfg
      then Inl (PlainErr (''reaper: MaxBackoff is '' @ show_duration (pc_MaxBackoff cfg) @ '', want at least Interval ('' @
             show_duration (pc_Interval cfg) @ '')''))
      else (case metrics of Some e \<Rightarrow> Inl e | None \<Rightarrow> Inr cfg))"

definition reaper_Run :: "poll_config \<Rightarrow> (bool \<times> (err + int)) list \<Rightarrow> poll_state \<Rightarrow> poll_next list \<times> poll_state" where
  "reaper_Run = poll_run"

lemma reaper_New_ok: "reaper_New b metrics cfg = Inr cfg' \<Longrightarrow> cfg' = cfg \<and> poll_ok cfg"
  by (auto simp: reaper_New_def poll_ok_def split: if_splits option.splits)

subsection \<open>What a caller sees\<close>

text \<open>C29. The reaper backs off and never spins or stalls: on a configuration \<open>New\<close> accepts,
  every pause it makes, whatever its sweeps return, lies between the interval and the maximum
  (as long as doubling the maximum fits an \<open>int64\<close>), and \<open>k\<close> failures in a row leave the
  next pause at the interval doubled \<open>k\<close> times, capped by the maximum.\<close>

theorem reaper_backoff_bounded:
  assumes "reaper_New True metrics cfg = Inr cfg" and "pc_MaxBackoff cfg \<le> 4611686018427387903"
  shows "(\<forall>w. Sleep w \<in> set (fst (reaper_Run cfg rs (poll_start cfg))) \<longrightarrow>
      pc_Interval cfg \<le> w \<and> w \<le> pc_MaxBackoff cfg) \<and>
    ps_backoff (snd (reaper_Run cfg (replicate k (False, Inl e)) (poll_start cfg))) =
      min (pc_Interval cfg * 2 ^ k) (pc_MaxBackoff cfg)"
  unfolding reaper_Run_def using poll_bounded reaper_New_ok [OF assms(1)] assms(2) by blast

theorem reaper_backoff_bounded_witness:
  "ps_backoff (snd (reaper_Run \<lparr>pc_Interval = 30, pc_BatchSize = 100, pc_MaxBackoff = 300\<rparr>
     (replicate 5 (False, Inl NoRows))
     (poll_start \<lparr>pc_Interval = 30, pc_BatchSize = 100, pc_MaxBackoff = 300\<rparr>))) = 300"
  using reaper_backoff_bounded [of None "\<lparr>pc_Interval = 30, pc_BatchSize = 100, pc_MaxBackoff = 300\<rparr>" "[]" 5 NoRows]
  by (simp add: reaper_New_def)

end
