(* ===== verification/Base64.thy ===== *)
theory Base64
  imports Prelude
begin

text \<open>
  Go's \<open>base64.RawURLEncoding\<close>, which page tokens and key material are written in: six bits a
  character over the URL alphabet, no padding, and a decoder that skips line breaks, refuses any
  other character, and ignores the bits left over at the end.
\<close>

definition b64_char :: "nat \<Rightarrow> char" where
  "b64_char n =
     (if n < 26 then char_of (65 + n) else if n < 52 then char_of (71 + n)
      else if n < 62 then char_of (n - 4) else if n = 62 then CHR ''-'' else CHR ''_'')"

definition b64_value :: "char \<Rightarrow> nat option" where
  "b64_value c =
     (let n = of_char c in
      if 65 \<le> n \<and> n \<le> 90 then Some (n - 65) else if 97 \<le> n \<and> n \<le> 122 then Some (n - 71)
      else if 48 \<le> n \<and> n \<le> 57 then Some (n + 4) else if n = 45 then Some 62
      else if n = 95 then Some 63 else None)"

fun sextets :: "nat list \<Rightarrow> nat list" where
  "sextets [] = []"
| "sextets [a] = [a div 4, (a mod 4) * 16]"
| "sextets [a, b] = [a div 4, (a mod 4) * 16 + b div 16, (b mod 16) * 4]"
| "sextets (a # b # c # r) =
     a div 4 # ((a mod 4) * 16 + b div 16) # ((b mod 16) * 4 + c div 64) # (c mod 64) # sextets r"

fun octets :: "nat list \<Rightarrow> nat list option" where
  "octets [] = Some []"
| "octets [v] = None"
| "octets [v, w] = Some [v * 4 + w div 16]"
| "octets [v, w, x] = Some [v * 4 + w div 16, (w mod 16) * 16 + x div 4]"
| "octets (v # w # x # y # r) =
     map_option (\<lambda>t. (v * 4 + w div 16) # ((w mod 16) * 16 + x div 4) # ((x mod 4) * 64 + y) # t) (octets r)"

definition b64_encode :: "gostring \<Rightarrow> gostring" where
  "b64_encode s = map b64_char (sextets (map of_char s))"

fun all_values :: "char list \<Rightarrow> nat list option" where
  "all_values [] = Some []"
| "all_values (c # cs) =
     (case b64_value c of None \<Rightarrow> None | Some v \<Rightarrow> map_option (\<lambda>vs. v # vs) (all_values cs))"

definition b64_decode :: "gostring \<Rightarrow> gostring option" where
  "b64_decode s =
     (case all_values (filter (\<lambda>c. c \<noteq> CHR 0x0A \<and> c \<noteq> CHR 0x0D) s) of
        None \<Rightarrow> None
      | Some vs \<Rightarrow> map_option (map char_of) (octets vs))"

lemma sextets_small: "\<forall>x \<in> set xs. x < 256 \<Longrightarrow> \<forall>y \<in> set (sextets xs). y < 64"
proof (induction xs rule: sextets.induct)
  case (3 a b)
  then have "b div 16 < 16" "a mod 4 \<le> 3" "b mod 16 \<le> 15" "a div 4 < 64" by auto
  then show ?case by simp
next
  case (4 a b c r)
  then have "b div 16 < 16" "a mod 4 \<le> 3" "b mod 16 \<le> 15" "a div 4 < 64" "c div 64 < 4" by auto
  then have "a mod 4 * 16 + b div 16 < 64" "b mod 16 * 4 + c div 64 < 64" by linarith+
  with 4 \<open>a div 4 < 64\<close> show ?case by simp
qed auto

lemma octets_sextets: "\<forall>x \<in> set xs. x < 256 \<Longrightarrow> octets (sextets xs) = Some xs"
proof (induction xs rule: sextets.induct)
  case (2 a)
  then show ?case by simp
next
  case (3 a b)
  then have "b div 16 < 16" by auto
  then show ?case by simp
next
  case (4 a b c r)
  then have "b div 16 < 16" "c div 64 < 4" by auto
  with 4 show ?case by simp
qed simp

lemma all_values_char: "\<forall>v \<in> set vs. v < 64 \<Longrightarrow> all_values (map b64_char vs) = Some vs"
proof (induction vs)
  case (Cons v vs)
  then have "b64_value (b64_char v) = Some v"
    by (auto simp: b64_value_def b64_char_def Let_def)
  with Cons show ?case by simp
qed simp

lemma b64_char_not_break: "b64_char v \<noteq> CHR 0x0A \<and> b64_char v \<noteq> CHR 0x0D"
proof -
  have "of_char (b64_char v) \<noteq> (10 :: nat)" "of_char (b64_char v) \<noteq> (13 :: nat)"
    by (auto simp: b64_char_def)
  then show ?thesis by auto
qed

lemma b64_roundtrip: "b64_decode (b64_encode s) = Some s"
proof -
  have small: "\<forall>x \<in> set (map of_char s). x < (256 :: nat)" by auto
  have "filter (\<lambda>c. c \<noteq> CHR 0x0A \<and> c \<noteq> CHR 0x0D) (b64_encode s) = b64_encode s"
    unfolding b64_encode_def using b64_char_not_break by (simp add: filter_id_conv)
  then show ?thesis
    using all_values_char [OF sextets_small [OF small]] octets_sextets [OF small]
    by (simp add: b64_decode_def b64_encode_def comp_def)
qed

end
