(* ===== verification/OrdApp.thy ===== *)
theory OrdApp
  imports OrdStore InvServer Base64
begin

text \<open>
  \<open>services/order/internal/app\<close> and \<open>adapter/out/grpcclient\<close>: checkout, reading orders,
  the saga steps and the sweep, over the stores, the transaction manager and the gateways to the
  catalog and the inventory. The clients the gateways call are functions on whatever is at the
  other end; SHA-256 is the argument \<open>H\<close>; the text of an instant and its parser are the
  argument \<open>T\<close>; base64 and the cursor built from both are written out.
\<close>

subsection \<open>Gateways\<close>

record pb_Variant =
  pbv_Sku :: gostring
  pbv_Price :: pb_Money

record 'w ord_clients =
  cc_GetVariantsBySKUs :: "gostring list \<Rightarrow> 'w \<Rightarrow> (err + pb_Variant list) \<times> 'w"
  ic_ReserveStock :: "gostring \<Rightarrow> (gostring \<times> int) list \<Rightarrow> 'w \<Rightarrow> (err + pb_Reservation) \<times> 'w"
  ic_CommitReservation :: "gostring \<Rightarrow> 'w \<Rightarrow> (err + pb_Reservation) \<times> 'w"
  ic_ReleaseReservation :: "gostring \<Rightarrow> 'w \<Rightarrow> (err + pb_Reservation) \<times> 'w"

record ReservationLine =
  rsl_SKU :: gostring
  rsl_Quantity :: int

record PricedSKU =
  ps_SKU :: gostring
  ps_Price :: Money

definition gw_priced :: "gostring list \<Rightarrow> pb_Variant \<Rightarrow> PricedSKU option" where
  "gw_priced skus v =
     (if pbv_Sku v \<notin> set skus then None
      else case ord_NewSKU (pbv_Sku v) of Inl _ \<Rightarrow> None
      | Inr sku \<Rightarrow>
          (case ord_NewCurrencyCode (mny_CurrencyCode (pbv_Price v)) of Inl _ \<Rightarrow> None
           | Inr cur \<Rightarrow>
               (case ord_NewMoney (mny_AmountMinor (pbv_Price v)) cur of Inl _ \<Rightarrow> None
                | Inr price \<Rightarrow> Some \<lparr>ps_SKU = sku, ps_Price = price\<rparr>)))"

text \<open>The request lists the keys of a Go map, each once, in an order Go leaves open.\<close>

definition gw_PriceSKUs :: "'w ord_clients \<Rightarrow> gostring list \<Rightarrow> ('d, 'w, PricedSKU list) op" where
  "gw_PriceSKUs G skus =
     andThen (rpc (cc_GetVariantsBySKUs G (remdups skus)))
       (\<lambda>variants. ret (List.map_filter (gw_priced skus) variants))"

definition gw_Reserve :: "'w ord_clients \<Rightarrow> gostring \<Rightarrow> ReservationLine list \<Rightarrow> ('d, 'w, gostring) op" where
  "gw_Reserve G orderID ls =
     andThen (rpc (ic_ReserveStock G orderID (map (\<lambda>l. (rsl_SKU l, clamp32 (rsl_Quantity l))) ls)))
       (\<lambda>res. ret (pbr_Id res))"

definition gw_Release :: "'w ord_clients \<Rightarrow> gostring \<Rightarrow> ('d, 'w, unit) op" where
  "gw_Release G rid = andThen (rpc (ic_ReleaseReservation G rid)) (\<lambda>_. ret ())"

definition gw_Commit :: "'w ord_clients \<Rightarrow> gostring \<Rightarrow> ('d, 'w, unit) op" where
  "gw_Commit G rid = andThen (rpc (ic_CommitReservation G rid)) (\<lambda>_. ret ())"

subsection \<open>Checkout\<close>

record CheckoutLine =
  ckl_SKU :: gostring
  ckl_Quantity :: int

record CheckoutCommand =
  ck_UserID :: gostring
  ck_IdempotencyKey :: gostring
  ck_Lines :: "CheckoutLine list"

definition requestedLine :: "CheckoutLine \<Rightarrow> err + ReservationLine" where
  "requestedLine l =
     (case ord_NewSKU (ckl_SKU l) of Inl e \<Rightarrow> Inl e
      | Inr sku \<Rightarrow> Inr \<lparr>rsl_SKU = sku, rsl_Quantity = ckl_Quantity l\<rparr>)"

definition requestedLines :: "CheckoutLine list \<Rightarrow> err + ReservationLine list" where
  "requestedLines ls =
     (if ls = [] then Inl (New KindInvalidInput ''an order has at least one line'')
      else map_res requestedLine ls)"

definition request_line_text :: "ReservationLine \<Rightarrow> string" where
  "request_line_text l = rsl_SKU l @ '':'' @ show_int (rsl_Quantity l)"

definition hash_input :: "gostring \<Rightarrow> ReservationLine list \<Rightarrow> gostring" where
  "hash_input userID ls = userID @ concat (map (\<lambda>t. CHR 0x00 # t) (sort (map request_line_text ls)))"

definition hashRequest :: "(gostring \<Rightarrow> gostring) \<Rightarrow> gostring \<Rightarrow> ReservationLine list \<Rightarrow> gostring" where
  "hashRequest H userID ls = H (hash_input userID ls)"

definition errKeyReused :: err where
  "errKeyReused = WithReason (New KindConflict ''idempotency_key was used for a different request'')
     ''IDEMPOTENCY_KEY_REUSED''"

text \<open>\<open>errReplay\<close> with the variable \<open>replayedID\<close> that the closure sets before it returns it:
  the id travels in the error, and \<open>errors.Is(err, errReplay)\<close> reads it back.\<close>

definition errReplay :: "gostring \<Rightarrow> err" where
  "errReplay replayedID = WrapErr [] (PlainErr ''order: idempotency key already answered'') replayedID"

fun replayed_id :: "err \<Rightarrow> gostring option" where
  "replayed_id (WrapErr pre e post) =
     (if pre = [] \<and> e = PlainErr ''order: idempotency key already answered'' then Some post
      else replayed_id e)"
| "replayed_id (JoinErr es) = first_some (map replayed_id es)"
| "replayed_id (XErr _ _ _ _ (Some c)) = replayed_id c"
| "replayed_id (GrpcErr _ c) = replayed_id c"
| "replayed_id _ = None"

definition ord_replay ::
  "uuid_lib \<Rightarrow> gostring \<Rightarrow> gostring \<Rightarrow> gostring \<Rightarrow> ('w, Order option) ord_op" where
  "ord_replay U userID key hash =
     andThen (idem_Find U userID key) (\<lambda>c. case c of
        None \<Rightarrow> ret None
      | Some claim \<Rightarrow>
          if cl_RequestHash claim \<noteq> hash then fail errKeyReused
          else andThen (orders_FindByID U (cl_OrderID claim)) (\<lambda>o'. ret (Some o')))"

text \<open>The loop of \<open>price\<close>: the prices are a Go map, in which a later entry wins.\<close>

definition priced_line :: "(gostring \<rightharpoonup> Money) \<Rightarrow> ReservationLine \<Rightarrow> err + OrderLine" where
  "priced_line prices l =
     (case prices (rsl_SKU l) of
        None \<Rightarrow> Inl (WithMetadata (WithReason (New KindConflict ''sku is not for sale'') ''SKU_NOT_SELLABLE'')
                  [(''sku'', rsl_SKU l)])
      | Some price \<Rightarrow> NewOrderLine (rsl_SKU l) (rsl_Quantity l) price)"

definition price_map :: "PricedSKU list \<Rightarrow> gostring \<rightharpoonup> Money" where
  "price_map priced = map_of (rev (map (\<lambda>p. (ps_SKU p, ps_Price p)) priced))"

definition ord_price :: "'w ord_clients \<Rightarrow> ReservationLine list \<Rightarrow> ('w, OrderLine list) ord_op" where
  "ord_price G requested =
     andThen (gw_PriceSKUs G (map rsl_SKU requested)) (\<lambda>priced.
       pure_op (map_res (priced_line (price_map priced)) requested))"

text \<open>\<open>release\<close> logs a failure and does not return it.\<close>

definition ord_release :: "'w ord_clients \<Rightarrow> gostring \<Rightarrow> ('w, unit) ord_op" where
  "ord_release G rid = withResult (gw_Release G rid) (\<lambda>_. ret ())"

definition checkout_tx ::
  "ord_env \<Rightarrow> gostring \<Rightarrow> gostring \<Rightarrow> gostring \<Rightarrow> gostring \<Rightarrow> gostring \<Rightarrow> OrderLine list \<Rightarrow> ('w, Order) ord_op" where
  "checkout_tx E userID key hash orderID reservationID ls =
     andThen (idem_Claim (oe_U E) userID key hash orderID) (\<lambda>(claim, taken).
       if \<not> taken
       then if cl_RequestHash claim \<noteq> hash then fail errKeyReused
            else fail (errReplay (cl_OrderID claim))
       else andThen (pure_op (NewOrder orderID userID reservationID ls)) (\<lambda>built. orders_Create E built))"

definition checkout_finish ::
  "ord_env \<Rightarrow> 'w ord_clients \<Rightarrow> gostring \<Rightarrow> err + Order \<Rightarrow> ('w, Order) ord_op" where
  "checkout_finish E G reservationID r =
     (case r of
        Inr o' \<Rightarrow> ret o'
      | Inl e \<Rightarrow>
          andThen (ord_release G reservationID) (\<lambda>_.
            case replayed_id e of
              Some replayedID \<Rightarrow> orders_FindByID (oe_U E) replayedID
            | None \<Rightarrow> fail e))"

text \<open>\<open>Checkout\<close> once the request has been validated and hashed.\<close>

definition checkout_body ::
  "ord_env \<Rightarrow> 'w ord_clients \<Rightarrow> gostring \<Rightarrow> gostring \<Rightarrow> gostring \<Rightarrow> gostring \<Rightarrow> ReservationLine list \<Rightarrow> ('w, Order) ord_op" where
  "checkout_body E G userID key hash oid requested =
     andThen (ord_replay (oe_U E) userID key hash) (\<lambda>replayed.
       case replayed of
         Some o' \<Rightarrow> ret o'
       | None \<Rightarrow>
           andThen (ord_price G requested) (\<lambda>ls.
           andThen (gw_Reserve G oid requested) (\<lambda>reservationID.
           withResult (Do (checkout_tx E userID key hash oid reservationID ls))
             (checkout_finish E G reservationID))))"

definition ord_Checkout ::
  "ord_env \<Rightarrow> 'w ord_clients \<Rightarrow> (gostring \<Rightarrow> gostring) \<Rightarrow> gostring \<Rightarrow> CheckoutCommand \<Rightarrow> ('w, Order) ord_op" where
  "ord_Checkout E G H new_order_id cmd =
     andThen (pure_op (ord_ParseUserID (oe_U E) (ck_UserID cmd))) (\<lambda>userID.
       if ck_IdempotencyKey cmd = []
       then fail (WithReason (New KindInvalidInput ''idempotency_key is required'') ''IDEMPOTENCY_KEY_REQUIRED'')
       else andThen (pure_op (requestedLines (ck_Lines cmd))) (\<lambda>requested.
         checkout_body E G userID (ck_IdempotencyKey cmd) (hashRequest H userID requested) new_order_id requested))"

subsection \<open>Reading orders\<close>

definition ord_GetOrder :: "uuid_lib \<Rightarrow> gostring \<Rightarrow> gostring \<Rightarrow> ('w, Order) ord_op" where
  "ord_GetOrder U order_id user_id =
     andThen (pure_op (ord_ParseOrderID U order_id)) (\<lambda>orderID.
     andThen (pure_op (ord_ParseUserID U user_id)) (\<lambda>userID.
     andThen (orders_FindByID U orderID) (\<lambda>o'.
       if ord_userID o' \<noteq> userID then fail ErrOrderNotFound else ret o')))"

text \<open>\<open>Format\<close> and \<open>Parse\<close> of the \<open>time\<close> package with the layout \<open>RFC3339Nano\<close>: what is
  relied on is that the text of an instant parses to it and holds no separator.\<close>

record time_text =
  tt_Format :: "gotime \<Rightarrow> gostring"
  tt_Parse :: "gostring \<Rightarrow> gotime option"

definition time_text_ok :: "time_text \<Rightarrow> bool" where
  "time_text_ok T \<longleftrightarrow> (\<forall>t. tt_Parse T (tt_Format T t) = Some t \<and> CHR ''|'' \<notin> set (tt_Format T t))"

definition encodeCursor :: "time_text \<Rightarrow> OrderCursor \<Rightarrow> gostring" where
  "encodeCursor T c = b64_encode (tt_Format T (oc_CreatedAt c) @ ''|'' @ oc_ID c)"

definition strings_Cut :: "char \<Rightarrow> gostring \<Rightarrow> (gostring \<times> gostring) option" where
  "strings_Cut sep s =
     (if sep \<in> set s then Some (takeWhile (\<lambda>c. c \<noteq> sep) s, tl (dropWhile (\<lambda>c. c \<noteq> sep) s)) else None)"

definition decodeCursor :: "uuid_lib \<Rightarrow> time_text \<Rightarrow> gostring \<Rightarrow> err + OrderCursor option" where
  "decodeCursor U T token =
     (let invalid = New KindInvalidInput ''page_token is not a cursor this service issued'' in
      if token = [] then Inr None
      else (case b64_decode token of
          None \<Rightarrow> Inl invalid
        | Some raw \<Rightarrow>
            (case strings_Cut (CHR ''|'') raw of
               None \<Rightarrow> Inl invalid
             | Some (createdAt, i) \<Rightarrow>
                 (case tt_Parse T createdAt of
                    None \<Rightarrow> Inl invalid
                  | Some at \<Rightarrow>
                      (case ord_ParseOrderID U i of
                         Inl _ \<Rightarrow> Inl invalid
                       | Inr orderID \<Rightarrow> Inr (Some \<lparr>oc_CreatedAt = at, oc_ID = orderID\<rparr>))))))"

definition ord_defaultPageSize :: int where "ord_defaultPageSize = 20"
definition ord_maxPageSize :: int where "ord_maxPageSize = 100"

definition ord_page_size :: "int \<Rightarrow> int" where
  "ord_page_size n =
     (if n \<le> 0 then ord_defaultPageSize else if n > ord_maxPageSize then ord_maxPageSize else n)"

record OrdersPage =
  pg_Orders :: "Order list"
  pg_NextPageToken :: gostring

definition ord_page :: "time_text \<Rightarrow> int \<Rightarrow> Order list \<Rightarrow> OrdersPage" where
  "ord_page T n os =
     (if int (length os) > n
      then let last = os ! nat (n - 1) in
        \<lparr>pg_Orders = take (nat n) os,
         pg_NextPageToken = encodeCursor T \<lparr>oc_CreatedAt = ord_createdAt last, oc_ID = ord_id last\<rparr>\<rparr>
      else \<lparr>pg_Orders = os, pg_NextPageToken = []\<rparr>)"

definition ord_ListOrders ::
  "uuid_lib \<Rightarrow> time_text \<Rightarrow> gostring \<Rightarrow> int \<Rightarrow> gostring \<Rightarrow> ('w, OrdersPage) ord_op" where
  "ord_ListOrders U T user_id page_size page_token =
     andThen (pure_op (ord_ParseUserID U user_id)) (\<lambda>userID.
     andThen (pure_op (decodeCursor U T page_token)) (\<lambda>after.
       let n = ord_page_size page_size in
       andThen (orders_List U userID after (n + 1)) (\<lambda>os. ret (ord_page T n os))))"

subsection \<open>The saga\<close>

record PaymentSucceededEvent =
  pse_EventID :: gostring
  pse_OrderID :: gostring
  pse_PaymentID :: gostring

record ReservationEvent =
  rse_EventID :: gostring
  rse_OrderID :: gostring
  rse_ReservationID :: gostring

definition checkoutSagaConsumerGroup :: gostring where "checkoutSagaConsumerGroup = ''order.checkout-saga''"
definition paymentSagaConsumerGroup :: gostring where "paymentSagaConsumerGroup = ''order.payment-saga''"

definition mark_paid_tx :: "ord_env \<Rightarrow> gostring \<Rightarrow> gostring \<Rightarrow> ('w, unit) ord_op" where
  "mark_paid_tx E event_id orderID =
     andThen (ord_inbox_Claim paymentSagaConsumerGroup event_id) (\<lambda>claimed.
       if \<not> claimed then ret ()
       else andThen (orders_FindByIDForUpdate (oe_U E) orderID) (\<lambda>o'.
            andThen (pure_op (ord_MarkPaid o')) (\<lambda>(moved, o'').
              if \<not> moved then ret ()
              else andThen (orders_Update E o'') (\<lambda>_. ret ()))))"

definition saga_MarkPaid :: "ord_env \<Rightarrow> PaymentSucceededEvent \<Rightarrow> ('w, unit) ord_op" where
  "saga_MarkPaid E event =
     (if pse_EventID event = [] then fail (New KindInvalidInput ''event_id is required'')
      else andThen (pure_op (ord_ParseOrderID (oe_U E) (pse_OrderID event)))
             (\<lambda>orderID. Do (mark_paid_tx E (pse_EventID event) orderID)))"

definition claim_then_tx :: "gostring \<Rightarrow> ('w, unit) ord_op \<Rightarrow> ('w, unit) ord_op" where
  "claim_then_tx event_id call =
     andThen (ord_inbox_Claim checkoutSagaConsumerGroup event_id)
       (\<lambda>claimed. if \<not> claimed then ret () else call)"

definition saga_claimThen ::
  "uuid_lib \<Rightarrow> gostring \<Rightarrow> gostring \<Rightarrow> (gostring \<Rightarrow> ('w, unit) ord_op) \<Rightarrow> ('w, unit) ord_op" where
  "saga_claimThen U event_id reservation_id call =
     (if event_id = [] then fail (New KindInvalidInput ''event_id is required'')
      else andThen (pure_op (ord_ParseReservationID U reservation_id))
             (\<lambda>parsed. Do (claim_then_tx event_id (call parsed))))"

definition saga_CommitReservation :: "uuid_lib \<Rightarrow> 'w ord_clients \<Rightarrow> ReservationEvent \<Rightarrow> ('w, unit) ord_op" where
  "saga_CommitReservation U G event =
     saga_claimThen U (rse_EventID event) (rse_ReservationID event) (gw_Commit G)"

definition saga_ReleaseReservation :: "uuid_lib \<Rightarrow> 'w ord_clients \<Rightarrow> ReservationEvent \<Rightarrow> ('w, unit) ord_op" where
  "saga_ReleaseReservation U G event =
     saga_claimThen U (rse_EventID event) (rse_ReservationID event) (gw_Release G)"

subsection \<open>The sweep\<close>

record ord_policy =
  op_PaymentWindow :: int
  op_Now :: gotime

definition ord_skips :: "err \<Rightarrow> bool" where
  "ord_skips e \<longleftrightarrow> errors_Is e ErrOrderPaid \<or> errors_Is e ErrOrderNotExpired"

fun ord_sweep :: "ord_env \<Rightarrow> gotime \<Rightarrow> int \<Rightarrow> Order list \<Rightarrow> int \<Rightarrow> ('w, int) ord_op" where
  "ord_sweep E now window [] expired = ret expired"
| "ord_sweep E now window (o' # os) expired =
     (case ord_Expire now window o' of
        Inl e \<Rightarrow> if ord_skips e then ord_sweep E now window os expired else fail e
      | Inr (moved, o'') \<Rightarrow>
          if \<not> moved then ord_sweep E now window os expired
          else andThen (orders_Update E o'') (\<lambda>_. ord_sweep E now window os (expired + 1)))"

definition ord_defaultSweepLimit :: int where "ord_defaultSweepLimit = 100"

definition ord_ExpireStaleOrders ::
  "ord_env \<Rightarrow> ord_policy \<Rightarrow> gostring list \<Rightarrow> int \<Rightarrow> ('w, int) ord_op" where
  "ord_ExpireStaleOrders E pol locked limit =
     (let limit = (if limit \<le> 0 then ord_defaultSweepLimit else limit); now = op_Now pol in
      Do (andThen (orders_ClaimStaleOrders locked (now - op_PaymentWindow pol) limit)
           (\<lambda>claimed. ord_sweep E now (op_PaymentWindow pol) claimed 0)))"

end
