(* ===== verification/OrdServer.thy ===== *)
theory OrdServer
  imports OrdApp
begin

text \<open>
  The order service's inbound adapters: the gRPC handlers of \<open>adapter/in/grpc\<close>, the two
  consumers of \<open>adapter/in/kafka\<close> and the worker of \<open>adapter/in/timeout\<close>. The identity
  a call carries is an argument, absent when the interceptor found none.
\<close>

subsection \<open>The gRPC handlers\<close>

datatype pb_OrderStatus =
  ORDER_STATUS_UNSPECIFIED | ORDER_STATUS_PENDING_PAYMENT | ORDER_STATUS_PAID | ORDER_STATUS_CANCELLED

record pb_OrderLine =
  pbo_Sku :: gostring
  pbo_Quantity :: int
  pbo_UnitPrice :: pb_Money

record pb_Order =
  pbord_Id :: gostring
  pbord_UserId :: gostring
  pbord_Status :: pb_OrderStatus
  pbord_Lines :: "pb_OrderLine list"
  pbord_Total :: pb_Money
  pbord_ReservationId :: gostring
  pbord_CreatedAt :: gotime
  pbord_UpdatedAt :: gotime

fun ord_toProtoStatus :: "OrderStatus \<Rightarrow> pb_OrderStatus" where
  "ord_toProtoStatus PendingPayment = ORDER_STATUS_PENDING_PAYMENT"
| "ord_toProtoStatus Paid = ORDER_STATUS_PAID"
| "ord_toProtoStatus Cancelled = ORDER_STATUS_CANCELLED"
| "ord_toProtoStatus (StatusUnknown _) = ORDER_STATUS_UNSPECIFIED"

definition ord_toProto :: "Order \<Rightarrow> pb_Order" where
  "ord_toProto o' =
     \<lparr>pbord_Id = ord_id o', pbord_UserId = ord_userID o', pbord_Status = ord_toProtoStatus (ord_status o'),
      pbord_Lines = map (\<lambda>l. \<lparr>pbo_Sku = oln_sku l, pbo_Quantity = clamp32 (oln_quantity l),
        pbo_UnitPrice = pb_money (oln_unitPrice l)\<rparr>) (ord_lines o'),
      pbord_Total = pb_money (ord_total o'), pbord_ReservationId = ord_reservationID o',
      pbord_CreatedAt = ord_createdAt o', pbord_UpdatedAt = ord_updatedAt o'\<rparr>"

record Identity =
  idn_UserID :: gostring
  idn_Role :: gostring

definition ord_caller :: "Identity option \<Rightarrow> err + gostring" where
  "ord_caller identity =
     (case identity of
        None \<Rightarrow> Inl (WithReason (New KindUnauthenticated ''this call is about the caller's own orders'')
                   ''IDENTITY_REQUIRED'')
      | Some i \<Rightarrow>
          if idn_UserID i = []
          then Inl (WithReason (New KindUnauthenticated ''this call is about the caller's own orders'')
                 ''IDENTITY_REQUIRED'')
          else Inr (idn_UserID i))"

definition ord_h_Checkout ::
  "status_pkg \<Rightarrow> ord_env \<Rightarrow> 'w ord_clients \<Rightarrow> (gostring \<Rightarrow> gostring) \<Rightarrow> gostring \<Rightarrow> Identity option \<Rightarrow>
   gostring \<Rightarrow> (gostring \<times> int) list \<Rightarrow> ('w, pb_Order) ord_op" where
  "ord_h_Checkout fe E G H new_order_id identity key ls =
     answer fe ord_toProto
       (andThen (pure_op (ord_caller identity)) (\<lambda>userID.
         ord_Checkout E G H new_order_id
           \<lparr>ck_UserID = userID, ck_IdempotencyKey = key,
            ck_Lines = map (\<lambda>(sku, q). \<lparr>ckl_SKU = sku, ckl_Quantity = q\<rparr>) ls\<rparr>))"

definition ord_h_GetOrder :: "status_pkg \<Rightarrow> uuid_lib \<Rightarrow> Identity option \<Rightarrow> gostring \<Rightarrow> ('w, pb_Order) ord_op" where
  "ord_h_GetOrder fe U identity order_id =
     answer fe ord_toProto
       (andThen (pure_op (ord_caller identity)) (\<lambda>userID. ord_GetOrder U order_id userID))"

definition ord_h_ListOrders ::
  "status_pkg \<Rightarrow> uuid_lib \<Rightarrow> time_text \<Rightarrow> Identity option \<Rightarrow> int \<Rightarrow> gostring \<Rightarrow>
   ('w, pb_Order list \<times> gostring) ord_op" where
  "ord_h_ListOrders fe U T identity page_size page_token =
     answer fe (\<lambda>p. (map ord_toProto (pg_Orders p), pg_NextPageToken p))
       (andThen (pure_op (ord_caller identity)) (\<lambda>userID. ord_ListOrders U T userID page_size page_token))"

subsection \<open>The consumers\<close>

text \<open>\<open>UnmarshalTo\<close> fails when the payload is absent or of another type.\<close>

definition wrong_payload :: err where
  "wrong_payload = PlainErr ''proto: mismatched message type''"

definition handleOrderPaid :: "uuid_lib \<Rightarrow> 'w ord_clients \<Rightarrow> Envelope \<Rightarrow> ('w, unit) ord_op" where
  "handleOrderPaid U G env =
     (case env_Payload env of
        Some (PbOrderPaid oid uid rid tot t) \<Rightarrow>
          mapErr (\<lambda>e. WrapErr (''order: commit reservation for order '' @ oid @ '': '') e [])
            (saga_CommitReservation U G
               \<lparr>rse_EventID = env_EventId env, rse_OrderID = oid, rse_ReservationID = rid\<rparr>)
      | _ \<Rightarrow> fail (WrapErr ''order: unmarshal OrderPaid payload: '' wrong_payload []))"

definition handleOrderCancelled :: "uuid_lib \<Rightarrow> 'w ord_clients \<Rightarrow> Envelope \<Rightarrow> ('w, unit) ord_op" where
  "handleOrderCancelled U G env =
     (case env_Payload env of
        Some (PbOrderCancelled oid uid rid t) \<Rightarrow>
          mapErr (\<lambda>e. WrapErr (''order: release reservation for order '' @ oid @ '': '') e [])
            (saga_ReleaseReservation U G
               \<lparr>rse_EventID = env_EventId env, rse_OrderID = oid, rse_ReservationID = rid\<rparr>)
      | _ \<Rightarrow> fail (WrapErr ''order: unmarshal OrderCancelled payload: '' wrong_payload []))"

definition order_events_Handle ::
  "uuid_lib \<Rightarrow> codec \<Rightarrow> 'w ord_clients \<Rightarrow> gostring \<Rightarrow> ('w, unit) ord_op" where
  "order_events_Handle U C G msg_value =
     (case events_Decode C msg_value of
        Inl e \<Rightarrow> fail (WrapErr ''order: decode envelope: '' e [])
      | Inr env \<Rightarrow>
          if env_EventType env = ''OrderPaid'' then handleOrderPaid U G env
          else if env_EventType env = ''OrderCancelled'' then handleOrderCancelled U G env
          else ret ())"

definition handlePaymentSucceeded :: "ord_env \<Rightarrow> Envelope \<Rightarrow> ('w, unit) ord_op" where
  "handlePaymentSucceeded E env =
     (case env_Payload env of
        Some (PbPaymentSucceeded pid oid uid amount ref t) \<Rightarrow>
          mapErr (\<lambda>e. WrapErr (''order: mark order '' @ oid @ '' paid: '') e [])
            (saga_MarkPaid E \<lparr>pse_EventID = env_EventId env, pse_OrderID = oid, pse_PaymentID = pid\<rparr>)
      | _ \<Rightarrow> fail (WrapErr ''order: unmarshal PaymentSucceeded payload: '' wrong_payload []))"

text \<open>A failed payment is logged: the order stays open to another attempt.\<close>

definition handlePaymentFailed :: "Envelope \<Rightarrow> ('w, unit) ord_op" where
  "handlePaymentFailed env = ret ()"

definition payment_events_Handle :: "ord_env \<Rightarrow> gostring \<Rightarrow> ('w, unit) ord_op" where
  "payment_events_Handle E msg_value =
     (case events_Decode (oe_C E) msg_value of
        Inl e \<Rightarrow> fail (WrapErr ''order: decode envelope: '' e [])
      | Inr env \<Rightarrow>
          if env_EventType env = ''PaymentSucceeded'' then handlePaymentSucceeded E env
          else if env_EventType env = ''PaymentFailed'' then handlePaymentFailed env
          else ret ())"

subsection \<open>The timeout worker\<close>

definition timeout_New :: "bool \<Rightarrow> err option \<Rightarrow> poll_config \<Rightarrow> err + poll_config" where
  "timeout_New has_sweep metrics cfg =
     (if \<not> has_sweep then Inl (PlainErr ''timeout: needs a saga timeout sweep'')
      else if pc_Interval cfg \<le> 0
      then Inl (PlainErr (''timeout: Interval is '' @ show_duration (pc_Interval cfg) @ '', want a positive duration''))
      else if pc_BatchSize cfg < 1
      then Inl (PlainErr (''timeout: BatchSize is '' @ show_int (pc_BatchSize cfg) @ '', want at least 1''))
      else if pc_MaxBackoff cfg < pc_Interval cfg
      then Inl (PlainErr (''timeout: MaxBackoff is '' @ show_duration (pc_MaxBackoff cfg) @ '', want at least Interval ('' @
             show_duration (pc_Interval cfg) @ '')''))
      else (case metrics of Some e \<Rightarrow> Inl e | None \<Rightarrow> Inr cfg))"

definition timeout_Run :: "poll_config \<Rightarrow> (bool \<times> (err + int)) list \<Rightarrow> poll_state \<Rightarrow> poll_next list \<times> poll_state" where
  "timeout_Run = poll_run"

end
