(* ===== verification/OrdBooks.thy ===== *)
theory OrdBooks
  imports OrdApp
begin

text \<open>
  What the order database promises between transactions: an order is announced exactly as its
  status says, by messages that decode to it; an idempotency key names an order of the same user;
  the stored lines add up to the stored total; identifiers and reservations are unique. Here are
  the predicates and what each write does to the tables; \<open>OrdProps\<close> draws the conclusions.
\<close>

subsection \<open>Announcements\<close>

definition pb_about :: "ord_row \<Rightarrow> string \<Rightarrow> pb_event option \<Rightarrow> bool" where
  "pb_about r name p \<longleftrightarrow> (case p of
     Some (PbOrderPlaced oid uid rid ls tot t) \<Rightarrow> name = ''OrderPlaced'' \<and>
       oid = or_ID r \<and> uid = or_UserID r \<and> rid = or_ReservationID r \<and>
       mny_AmountMinor tot = or_TotalAmountMinor r \<and> mny_CurrencyCode tot = or_TotalCurrency r
   | Some (PbOrderPaid oid uid rid tot t) \<Rightarrow> name = ''OrderPaid'' \<and>
       oid = or_ID r \<and> uid = or_UserID r \<and> rid = or_ReservationID r \<and>
       mny_AmountMinor tot = or_TotalAmountMinor r \<and> mny_CurrencyCode tot = or_TotalCurrency r
   | Some (PbOrderCancelled oid uid rid t) \<Rightarrow> name = ''OrderCancelled'' \<and>
       oid = or_ID r \<and> uid = or_UserID r \<and> rid = or_ReservationID r
   | _ \<Rightarrow> False)"

text \<open>The outbox row \<open>b\<close> says \<open>name\<close> of the order \<open>r\<close>.\<close>

definition says :: "codec \<Rightarrow> ord_row \<Rightarrow> string \<Rightarrow> outbox_row \<Rightarrow> bool" where
  "says C r name b \<longleftrightarrow> ob_EventType b = name \<and>
     (\<exists>env. events_Decode C (ob_Payload b) = Inr env \<and> env_EventType env = name \<and>
        env_AggregateId env = or_ID r \<and> pb_about r name (env_Payload env))"

definition ord_story :: "string \<Rightarrow> string list" where
  "ord_story status = ''OrderPlaced'' #
     (if status = ''paid'' then [''OrderPaid'']
      else if status = ''cancelled'' then [''OrderCancelled''] else [])"

definition about_order :: "ord_db \<Rightarrow> gostring \<Rightarrow> outbox_row list" where
  "about_order db oid = filter (\<lambda>b. ob_AggregateID b = oid) (outbox db)"

definition told :: "codec \<Rightarrow> ord_db \<Rightarrow> ord_row \<Rightarrow> bool" where
  "told C db r \<longleftrightarrow> list_all2 (says C r) (ord_story (or_Status r)) (about_order db (or_ID r))"

text \<open>The stored lines of an order, and what they come to.\<close>

definition stored_lines :: "ord_db \<Rightarrow> gostring \<Rightarrow> oline_row list" where
  "stored_lines db oid = filter (\<lambda>l. ol_OrderID l = oid) (order_lines db)"

definition oline_value :: "oline_row \<Rightarrow> int" where
  "oline_value l = ol_UnitPriceAmountMinor l * ol_Quantity l"

definition adds_up :: "ord_db \<Rightarrow> ord_row \<Rightarrow> bool" where
  "adds_up db r \<longleftrightarrow>
     stored_lines db (or_ID r) \<noteq> [] \<and>
     or_TotalAmountMinor r = sum_list (map oline_value (stored_lines db (or_ID r))) \<and>
     (\<forall>l \<in> set (stored_lines db (or_ID r)). ol_UnitPriceCurrency l = or_TotalCurrency r \<and> 0 < ol_Quantity l)"

subsection \<open>The invariant\<close>

definition ord_rows_ok :: "uuid_lib \<Rightarrow> codec \<Rightarrow> ord_db \<Rightarrow> bool" where
  "ord_rows_ok U C db \<longleftrightarrow>
     distinct (map or_ID (orders db)) \<and> distinct (map or_ReservationID (orders db)) \<and>
     (\<forall>r \<in> set (orders db). known_ord_status (or_Status r) \<and> 1 \<le> or_Version r \<and> int4 (or_Version r) \<and>
        uuid_Parse U (or_ID r) = Inr (or_ID r) \<and> told C db r \<and> adds_up db r) \<and>
     (\<forall>b \<in> set (outbox db). ob_AggregateID b \<in> or_ID ` set (orders db)) \<and>
     (\<forall>l \<in> set (order_lines db). ol_OrderID l \<in> or_ID ` set (orders db))"

definition ord_keys_ok :: "ord_db \<Rightarrow> bool" where
  "ord_keys_ok db \<longleftrightarrow>
     distinct (map (\<lambda>k. (ik_UserID k, ik_Key k)) (idempotency_keys db)) \<and>
     (\<forall>k \<in> set (idempotency_keys db). \<exists>r \<in> set (orders db). or_ID r = ik_OrderID k \<and> or_UserID r = ik_UserID k)"

definition ord_ok :: "uuid_lib \<Rightarrow> codec \<Rightarrow> ord_db \<Rightarrow> bool" where
  "ord_ok U C db \<longleftrightarrow> ord_rows_ok U C db \<and> ord_keys_ok db"

text \<open>How the table of orders may change: rows are added, and a row that waits for payment may
  move, once, to paid or to cancelled.\<close>

definition row_moves :: "ord_row \<Rightarrow> ord_row \<Rightarrow> bool" where
  "row_moves r r' \<longleftrightarrow> r' = r \<or>
     (or_Status r = ''pending_payment'' \<and> or_Status r' \<in> {''paid'', ''cancelled''} \<and>
      r' = r\<lparr>or_Status := or_Status r', or_UpdatedAt := or_UpdatedAt r', or_Version := or_Version r + 1\<rparr>)"

definition evolves :: "ord_db \<Rightarrow> ord_db \<Rightarrow> bool" where
  "evolves db db' \<longleftrightarrow>
     (list_all2 row_moves (orders db) (take (length (orders db)) (orders db')) \<and>
        length (orders db) \<le> length (orders db')) \<and>
     (\<exists>news. outbox db' = outbox db @ news) \<and>
     (\<exists>more. idempotency_keys db' = idempotency_keys db @ more) \<and>
     (\<exists>more. order_lines db' = order_lines db @ more)"

lemma row_moves_trans: "row_moves a b \<Longrightarrow> row_moves b c \<Longrightarrow> row_moves a c"
  unfolding row_moves_def by (cases a; cases b; cases c) auto

lemma row_moves_refl [simp]: "row_moves r r"
  by (simp add: row_moves_def)

lemma row_moves_same: "row_moves r r' \<Longrightarrow> or_ID r' = or_ID r \<and> or_UserID r' = or_UserID r \<and>
    or_ReservationID r' = or_ReservationID r \<and> or_TotalAmountMinor r' = or_TotalAmountMinor r \<and>
    or_TotalCurrency r' = or_TotalCurrency r \<and> or_CreatedAt r' = or_CreatedAt r"
  unfolding row_moves_def by (cases r; cases r') auto

lemma evolves_refl [simp]: "evolves db db"
  by (simp add: evolves_def list_all2_same)

lemma evolves_trans: "evolves a b \<Longrightarrow> evolves b c \<Longrightarrow> evolves a c"
proof -
  assume ab: "evolves a b" and bc: "evolves b c"
  let ?n = "length (orders a)"
  from ab have 1: "list_all2 row_moves (orders a) (take ?n (orders b))" "?n \<le> length (orders b)"
    by (auto simp: evolves_def)
  from bc have 2: "list_all2 row_moves (orders b) (take (length (orders b)) (orders c))"
      "length (orders b) \<le> length (orders c)" by (auto simp: evolves_def)
  have "list_all2 row_moves (take ?n (orders b)) (take ?n (take (length (orders b)) (orders c)))"
    using 2(1) by (rule list_all2_takeI)
  then have "list_all2 row_moves (take ?n (orders b)) (take ?n (orders c))"
    using 1(2) by (simp add: min_def)
  with 1(1) have "list_all2 row_moves (orders a) (take ?n (orders c))"
    by (rule list_all2_trans [rotated]) (rule row_moves_trans)
  with 1(2) 2(2) ab bc show ?thesis by (auto simp: evolves_def)
qed

lemma evolves_row:
  assumes "evolves db db'" and "r \<in> set (orders db)"
  obtains r' where "r' \<in> set (orders db')" "row_moves r r'"
proof -
  from assms(2) obtain i where i: "i < length (orders db)" "orders db ! i = r" by (auto simp: in_set_conv_nth)
  from assms(1) have "row_moves (orders db ! i) (take (length (orders db)) (orders db') ! i)"
      "length (orders db) \<le> length (orders db')"
    using i(1) by (auto simp: evolves_def list_all2_conv_all_nth)
  with i that [of "orders db' ! i"] show ?thesis by auto
qed

subsection \<open>What a write does\<close>

lemma ord_parseID_Inr [op_inv]: "ord_parseID U what s = Inr u \<longleftrightarrow> uuid_Parse U s = Inr u"
  by (auto simp: ord_parseID_def split: sum.splits)

text \<open>The outbox row \<open>b\<close> announces the event \<open>e\<close> of the row.\<close>

definition announces :: "codec \<Rightarrow> ord_row \<Rightarrow> OrderEvent \<Rightarrow> outbox_row \<Rightarrow> bool" where
  "announces C row e b \<longleftrightarrow> ob_AggregateID b = or_ID row \<and> ob_EventType b = ord_EventName e \<and>
     ob_PublishedAt b = None \<and>
     (\<exists>env. events_Decode C (ob_Payload b) = Inr env \<and> env_EventType env = ord_EventName e \<and>
        env_AggregateId env = or_ID row \<and> env_Payload env = Some (ord_toPayload e row))"

lemma ord_record_announces:
  assumes "codec_ok (oe_C E)" and "ord_record E row (i, e) = Inr rc"
  shows "announces (oe_C E) row e (outbox_row_of now k rc)"
proof -
  from assms(2) have "events_Record (oe_C E) (oe_headers E) (oe_event_id E (or_ID row) (or_Version row) i) (ord_fact row e) = Inr rc"
    by (auto simp: ord_record_def split: sum.splits)
  from events_Record_Inr [OF assms(1) this] show ?thesis
    by (auto simp: announces_def outbox_row_of_def ord_fact_def)
qed

lemma writeEvents_Inr:
  assumes C: "codec_ok (oe_C E)" and run: "ord_writeEvents E o' row s = (Inr u, s')"
  obtains news k where "w_db s' = (w_db s)\<lparr>outbox := outbox (w_db s) @ news, outbox_next := k\<rparr>"
    "list_all2 (announces (oe_C E) row) (ord_events o') news" "w_ext s' = w_ext s" "w_tx s' = w_tx s"
proof (cases "ord_events o' = []")
  case True
  with run that [of "outbox_next (w_db s)" "[]"] show ?thesis
    by (auto simp: ord_writeEvents_def PullEvents_def op_inv)
next
  case False
  from run False obtain rs where rs: "map_res (ord_record E row) (enumerate 0 (ord_events o')) = Inr rs"
      "outbox_Write rs s = (Inr (), s')"
    by (auto simp: ord_writeEvents_def PullEvents_def Let_def op_inv)
  from rs(1) have l: "list_all2 (\<lambda>ie rc. ord_record E row ie = Inr rc) (enumerate 0 (ord_events o')) rs"
    by (simp add: map_res_Inr)
  let ?new = "map (\<lambda>(i, r). outbox_row_of (db_now (w_db s)) (outbox_next (w_db s) + int i) r) (enumerate 0 rs)"
  from list_all2_lengthD [OF l] False have "rs \<noteq> []" by auto
  with outbox_Write_Inr [OF rs(2)] have
    w: "w_db s' = (w_db s)\<lparr>outbox := outbox (w_db s) @ ?new, outbox_next := outbox_next (w_db s) + int (length rs)\<rparr>"
       "w_ext s' = w_ext s" "w_tx s' = w_tx s"
    by (simp_all add: sql_WriteOutbox_def)
  have "list_all2 (announces (oe_C E) row) (ord_events o') ?new"
    using l by (auto simp: list_all2_conv_all_nth nth_enumerate_eq intro: ord_record_announces [OF C])
  from that [OF w(1) this w(2,3)] show ?thesis .
qed

lemma announced_ids:
  "list_all2 (announces C row) es news \<Longrightarrow> \<forall>b \<in> set news. ob_AggregateID b = or_ID row"
  by (auto simp: announces_def list_all2_conv_all_nth in_set_conv_nth)

lemma announced_filter:
  assumes "list_all2 (announces C row) es news"
  shows "filter (\<lambda>b. ob_AggregateID b = oid) news = (if oid = or_ID row then news else [])"
  using announced_ids [OF assms] by (auto simp: filter_id_conv filter_empty_conv)

text \<open>Writing one order's status.\<close>

lemma sql_UpdateOrderStatus_Inr:
  assumes "sql_UpdateOrderStatus uid v st db = (Inr row, db')" and "distinct (map or_ID (orders db))"
  obtains r a b where "or_ID r = uid" "or_Version r = v" "orders db = a @ r # b"
    "row = r\<lparr>or_Status := st, or_UpdatedAt := db_now db, or_Version := v + 1\<rparr>"
    "db' = db\<lparr>orders := a @ row # b\<rparr>" "known_ord_status st" "int4 (v + 1)"
    "\<forall>x \<in> set a \<union> set b. or_ID x \<noteq> uid"
proof -
  let ?P = "\<lambda>r. or_ID r = uid \<and> or_Version r = v"
  from assms(1) obtain t where t: "update_one ?P
      (\<lambda>r. if \<not> int4 (or_Version r + 1) then Inl out_of_range
           else if \<not> known_ord_status st then Inl (check_violation ''orders_status_check'')
           else Inr (r\<lparr>or_Status := st, or_UpdatedAt := db_now db, or_Version := or_Version r + 1\<rparr>))
      (orders db) = Inr (row, t)" "db' = db\<lparr>orders := t\<rparr>"
    by (auto simp: sql_UpdateOrderStatus_def split: sum.splits prod.splits)
  have one: "one_row or_ID ?P (orders db)" by (rule one_rowI [OF assms(2), where v = uid]) simp
  from update_one_split [OF one t(1)] obtain r a b where u: "?P r"
      "(if \<not> int4 (or_Version r + 1) then Inl out_of_range
        else if \<not> known_ord_status st then Inl (check_violation ''orders_status_check'')
        else Inr (r\<lparr>or_Status := st, or_UpdatedAt := db_now db, or_Version := or_Version r + 1\<rparr>)) = Inr row"
      "orders db = a @ r # b" "t = a @ row # b" "\<forall>x \<in> set a \<union> set b. or_ID x \<noteq> or_ID r"
    by blast
  from u(2) have "int4 (or_Version r + 1)" "known_ord_status st"
      "row = r\<lparr>or_Status := st, or_UpdatedAt := db_now db, or_Version := or_Version r + 1\<rparr>"
    by (auto split: if_splits)
  with u t(2) that [of r a b] show ?thesis by auto
qed

lemma orders_Update_Inr:
  assumes C: "codec_ok (oe_C E)" and d: "distinct (map or_ID (orders (w_db s)))"
    and run: "orders_Update E o' s = (Inr o'', s')"
  obtains uid r row a b news k where "uuid_Parse (oe_U E) (ord_id o') = Inr uid"
    "or_ID r = uid" "or_Version r = clamp32 (ord_version o')" "orders (w_db s) = a @ r # b"
    "row = r\<lparr>or_Status := ord_status_text (ord_status o'), or_UpdatedAt := db_now (w_db s), or_Version := or_Version r + 1\<rparr>"
    "known_ord_status (or_Status row)" "int4 (or_Version row)" "\<forall>x \<in> set a \<union> set b. or_ID x \<noteq> uid"
    "list_all2 (announces (oe_C E) row) (ord_events o') news"
    "w_db s' = (w_db s)\<lparr>orders := a @ row # b, outbox := outbox (w_db s) @ news, outbox_next := k\<rparr>"
    "w_ext s' = w_ext s" "w_tx s' = w_tx s"
proof -
  from run obtain uid row s1 s2 ls where 1: "uuid_Parse (oe_U E) (ord_id o') = Inr uid"
      "sql (sql_UpdateOrderStatus uid (clamp32 (ord_version o')) (ord_status_text (ord_status o'))) s = (Inr row, s1)"
      "ord_writeEvents E o' row s1 = (Inr (), s2)" "sql (sql_GetOrderLines uid) s2 = (Inr ls, s')"
    by (auto simp: orders_Update_def ord_Snapshot_def Let_def op_inv split: if_splits)
  from sql_success [OF 1(2)] have u:
      "sql_UpdateOrderStatus uid (clamp32 (ord_version o')) (ord_status_text (ord_status o')) (w_db s) = (Inr row, w_db s1)"
      "w_ext s1 = w_ext s" "w_tx s1 = w_tx s" by auto
  from sql_UpdateOrderStatus_Inr [OF u(1) d] obtain r a b where r: "or_ID r = uid"
      "or_Version r = clamp32 (ord_version o')" "orders (w_db s) = a @ r # b"
      "row = r\<lparr>or_Status := ord_status_text (ord_status o'), or_UpdatedAt := db_now (w_db s), or_Version := clamp32 (ord_version o') + 1\<rparr>"
      "w_db s1 = (w_db s)\<lparr>orders := a @ row # b\<rparr>" "known_ord_status (ord_status_text (ord_status o'))"
      "int4 (clamp32 (ord_version o') + 1)" "\<forall>x \<in> set a \<union> set b. or_ID x \<noteq> uid" by blast
  from writeEvents_Inr [OF C 1(3)] obtain news k where n:
      "w_db s2 = (w_db s1)\<lparr>outbox := outbox (w_db s1) @ news, outbox_next := k\<rparr>"
      "list_all2 (announces (oe_C E) row) (ord_events o') news" "w_ext s2 = w_ext s1" "w_tx s2 = w_tx s1" by blast
  from sql_success [OF 1(4)] have "w_db s' = w_db s2" "w_ext s' = w_ext s2" "w_tx s' = w_tx s2"
    by (auto simp: sql_GetOrderLines_def)
  with that [OF 1(1) r(1,2,3) _ _ _ r(8) n(2), of k] r u n show ?thesis by simp
qed

subsection \<open>Settling an order keeps the books\<close>

lemma says_same_order:
  assumes "or_ID r' = or_ID r" "or_UserID r' = or_UserID r" "or_ReservationID r' = or_ReservationID r"
    "or_TotalAmountMinor r' = or_TotalAmountMinor r" "or_TotalCurrency r' = or_TotalCurrency r"
  shows "says C r' = says C r"
  using assms by (intro ext) (simp add: says_def pb_about_def split: option.splits pb_event.splits)

definition settle_event :: "ord_row \<Rightarrow> OrderEvent \<Rightarrow> bool" where
  "settle_event row e \<longleftrightarrow>
     (or_Status row = ''paid'' \<and> e = OrderPaid (or_ID row) (or_UserID row) (or_ReservationID row)
        \<lparr>amountMinor = or_TotalAmountMinor row, currency = or_TotalCurrency row\<rparr>) \<or>
     (or_Status row = ''cancelled'' \<and> e = OrderCancelled (or_ID row) (or_UserID row) (or_ReservationID row))"

lemma announces_says:
  assumes "announces C row e b" and "settle_event row e"
  shows "says C row (ord_EventName e) b" "ord_story (or_Status row) = [''OrderPlaced'', ord_EventName e]"
  using assms
  by (auto simp: announces_def settle_event_def says_def pb_about_def pb_money_def ord_story_def)

lemma settle_keeps:
  assumes ok: "ord_ok U C db" and t: "orders db = a @ r # b"
    and row: "row = r\<lparr>or_Status := or_Status row, or_UpdatedAt := or_UpdatedAt row, or_Version := or_Version r + 1\<rparr>"
    and pending: "or_Status r = ''pending_payment''" and e: "settle_event row e"
    and v: "int4 (or_Version row)" and news: "list_all2 (announces C row) [e] news"
    and db': "db' = db\<lparr>orders := a @ row # b, outbox := outbox db @ news, outbox_next := k\<rparr>"
  shows "ord_ok U C db' \<and> evolves db db'"
proof -
  from row have same: "or_ID row = or_ID r" "or_UserID row = or_UserID r" "or_ReservationID row = or_ReservationID r"
      "or_TotalAmountMinor row = or_TotalAmountMinor r" "or_TotalCurrency row = or_TotalCurrency r"
      "or_Version row = or_Version r + 1"
    by (metis ord_row.select_convs ord_row.surjective ord_row.update_convs)+
  from e have st: "or_Status row \<in> {''paid'', ''cancelled''}" by (auto simp: settle_event_def)
  from ok have ro: "ord_rows_ok U C db" and ks: "ord_keys_ok db" by (auto simp: ord_ok_def)
  then have d: "distinct (map or_ID (a @ r # b))" by (simp add: ord_rows_ok_def t)
  have maps: "map or_ID (orders db') = map or_ID (orders db)"
      "map or_ReservationID (orders db') = map or_ReservationID (orders db)"
    by (simp_all add: db' t same)
  then have ids: "or_ID ` set (orders db') = or_ID ` set (orders db)" by (metis set_map)
  have lines: "order_lines db' = order_lines db" "idempotency_keys db' = idempotency_keys db" by (simp_all add: db')
  have about: "about_order db' oid = about_order db oid @ (if oid = or_ID r then news else [])" for oid
    using announced_filter [OF news] by (simp add: about_order_def db' same)
  have old: "told C db r" "1 \<le> or_Version r" "uuid_Parse U (or_ID r) = Inr (or_ID r)" "adds_up db r"
    using ro by (auto simp: ord_rows_ok_def t)
  from news obtain b0 where b0: "news = [b0]" "announces C row e b0" by (auto simp: list_all2_Cons1)
  have "told C db' row"
    using old(1) announces_says [OF b0(2) e]
    by (simp add: told_def about same says_same_order [OF same(1-5)] pending b0 list_all2_Cons1 ord_story_def)
      (auto simp: list_all2_Cons1)
  moreover have "told C db' x" if "x \<in> set a \<union> set b" for x
  proof -
    from d have "or_ID r \<notin> or_ID ` (set a \<union> set b)" by auto
    with that have "or_ID x \<noteq> or_ID r" by (metis image_eqI)
    moreover from that ro have "told C db x" by (auto simp: ord_rows_ok_def t)
    ultimately show ?thesis by (simp add: told_def about)
  qed
  moreover have au: "adds_up db' x = adds_up db x" for x by (simp add: adds_up_def stored_lines_def lines)
  moreover have "adds_up db row" using old(4) by (simp add: adds_up_def same)
  moreover have "known_ord_status (or_Status row)" using st by (auto simp: known_ord_status_def)
  ultimately have rows: "ord_rows_ok U C db'"
    using ro old v same st b0(2) unfolding ord_rows_ok_def maps ids lines
    by (auto simp: db' t b0 announces_def)
  have "ord_keys_ok db'"
    using ks unfolding ord_keys_ok_def lines by (auto simp: db' t same)
  moreover have "row_moves r row" using row pending st by (auto simp: row_moves_def)
  then have "evolves db db'"
    by (auto simp: evolves_def db' t list_all2_same intro!: list_all2_appendI)
  ultimately show ?thesis using rows by (simp add: ord_ok_def)
qed

subsection \<open>Reading and then settling\<close>

lemma loaded_order [simp]:
  "ord_id (ord_toDomain r ls) = or_ID r" "ord_userID (ord_toDomain r ls) = or_UserID r"
  "ord_status (ord_toDomain r ls) = OrderStatus_of (or_Status r)"
  "ord_reservationID (ord_toDomain r ls) = or_ReservationID r" "ord_version (ord_toDomain r ls) = or_Version r"
  "ord_createdAt (ord_toDomain r ls) = or_CreatedAt r" "ord_events (ord_toDomain r ls) = []"
  "ord_total (ord_toDomain r ls) = \<lparr>amountMinor = or_TotalAmountMinor r, currency = or_TotalCurrency r\<rparr>"
  "ord_updatedAt (ord_toDomain r ls) = or_UpdatedAt r"
  by (simp_all add: ord_toDomain_def ReconstituteOrder_def)

lemma OrderStatus_text: "known_ord_status s \<Longrightarrow> ord_status_text (OrderStatus_of s) = s"
  by (auto simp: known_ord_status_def OrderStatus_of_def)

lemma known_order_status:
  "known_ord_status s \<Longrightarrow> OrderStatus_of s = PendingPayment \<longleftrightarrow> s = ''pending_payment''"
  "known_ord_status s \<Longrightarrow> OrderStatus_of s = Paid \<longleftrightarrow> s = ''paid''"
  "known_ord_status s \<Longrightarrow> OrderStatus_of s = Cancelled \<longleftrightarrow> s = ''cancelled''"
  "known_ord_status s \<Longrightarrow> OrderStatus_of s \<noteq> StatusUnknown u"
  by (auto simp: known_ord_status_def OrderStatus_of_def)

lemma sql_GetOrder_Inr:
  "sql_GetOrder uid db = (Inr r, db') \<longleftrightarrow> List.find (\<lambda>r. or_ID r = uid) (orders db) = Some r \<and> db' = db"
  "sql_GetOrderForUpdate uid db = (Inr r, db') \<longleftrightarrow> List.find (\<lambda>r. or_ID r = uid) (orders db) = Some r \<and> db' = db"
  by (auto simp: sql_GetOrder_def sql_GetOrderForUpdate_def split: option.splits)

lemma ord_reading:
  "snd (sql_GetOrder uid d) = d" "snd (sql_GetOrderForUpdate uid d) = d" "snd (sql_GetOrderLines uid d) = d"
  "snd (sql_GetOrderLinesByOrderIDs ids d) = d" "snd (sql_ListOrdersByUser u c n d) = d"
  "snd (sql_ClaimStaleOrders lk t n d) = d" "snd (sql_GetIdempotencyKey u k d) = d"
  by (simp_all add: sql_GetOrder_def sql_GetOrderForUpdate_def sql_GetOrderLines_def sql_GetOrderLinesByOrderIDs_def
      sql_ListOrdersByUser_def sql_ClaimStaleOrders_def sql_GetIdempotencyKey_def split: option.splits)

lemma sql_reads: "sql q s = (r, s') \<Longrightarrow> (\<And>d. snd (q d) = d) \<Longrightarrow> w_db s' = w_db s \<and> w_ext s' = w_ext s \<and> w_tx s' = w_tx s"
  using sql_frame [of q s r s'] sql_db [of q s r s'] by metis

text \<open>The lines an order is read back with.\<close>

definition read_lines :: "ord_db \<Rightarrow> gostring \<Rightarrow> oline_row list" where
  "read_lines db oid = sort_key (\<lambda>l. ord_collate db (ol_Sku l)) (stored_lines db oid)"

lemma FindByID_Inr:
  assumes "orders_FindByID U oid s = (Inr o', s') \<or> orders_FindByIDForUpdate U oid s = (Inr o', s')"
  obtains uid r where "uuid_Parse U oid = Inr uid" "List.find (\<lambda>r. or_ID r = uid) (orders (w_db s)) = Some r"
    "r \<in> set (orders (w_db s))" "or_ID r = uid" "o' = ord_toDomain r (read_lines (w_db s) uid)"
    "w_db s' = w_db s" "w_ext s' = w_ext s" "w_tx s' = w_tx s"
proof -
  from assms obtain uid r s1 ls q where 1: "uuid_Parse U oid = Inr uid"
      "sql q s = (Inr r, s1)" "q = sql_GetOrder uid \<or> q = sql_GetOrderForUpdate uid"
      "sql (sql_GetOrderLines uid) s1 = (Inr ls, s')" "o' = ord_toDomain r ls"
    by (auto simp: orders_FindByID_def orders_FindByIDForUpdate_def op_inv split: if_splits)
  from sql_success [OF 1(2)] 1(3) have f: "List.find (\<lambda>r. or_ID r = uid) (orders (w_db s)) = Some r"
      "w_db s1 = w_db s" "w_ext s1 = w_ext s" "w_tx s1 = w_tx s"
    using sql_GetOrder_Inr by blast+
  from sql_success [OF 1(4)] f have "ls = read_lines (w_db s) uid" "w_db s' = w_db s" "w_ext s' = w_ext s" "w_tx s' = w_tx s"
    by (auto simp: sql_GetOrderLines_def read_lines_def stored_lines_def)
  with that [OF 1(1) f(1)] find_key_Some [OF f(1)] 1(5) show ?thesis by blast
qed

lemma ord_ok_inbox [simp]:
  "ord_ok U C (db\<lparr>processed_events := p\<rparr>) \<longleftrightarrow> ord_ok U C db"
  by (simp add: ord_ok_def ord_rows_ok_def ord_keys_ok_def told_def about_order_def adds_up_def stored_lines_def)

lemma evolves_inbox [simp]: "evolves db (db'\<lparr>processed_events := p\<rparr>) \<longleftrightarrow> evolves db db'"
  by (simp add: evolves_def)

lemma evolves_inbox2 [simp]: "evolves (db\<lparr>processed_events := p\<rparr>) db' \<longleftrightarrow> evolves db db'"
  by (simp add: evolves_def)

lemma ord_inbox_Inr:
  assumes "ord_inbox_Claim g e s = (Inr took, s')"
  shows "took = (\<not> claimed_by (w_db s) g e)" "claimed_by (w_db s') g e"
    "w_db s' = (w_db s)\<lparr>processed_events := processed_events (w_db s')\<rparr>"
    "\<not> took \<Longrightarrow> w_db s' = w_db s" "w_ext s' = w_ext s" "w_tx s' = w_tx s"
  using assms inbox_Claim_Inr [of g e s took s'] by (simp_all add: ord_inbox_Claim_def op_inv)

text \<open>Storing an order that has just been read and moved.\<close>

lemma settle_loaded:
  assumes C: "codec_ok (oe_C E)" and ok: "ord_ok (oe_U E) (oe_C E) (w_db s)"
    and r: "r \<in> set (orders (w_db s))" and o': "ord_id o' = or_ID r" "ord_version o' = or_Version r"
    and moved: "o'' = o'\<lparr>ord_status := st, ord_events := [e]\<rparr>" and pending: "or_Status r = ''pending_payment''"
    and e: "(st = Paid \<and> e = OrderPaid (or_ID r) (or_UserID r) (or_ReservationID r)
          \<lparr>amountMinor = or_TotalAmountMinor r, currency = or_TotalCurrency r\<rparr>) \<or>
        (st = Cancelled \<and> e = OrderCancelled (or_ID r) (or_UserID r) (or_ReservationID r))"
    and run: "orders_Update E o'' s = (Inr o3, s')"
  shows "ord_ok (oe_U E) (oe_C E) (w_db s') \<and> evolves (w_db s) (w_db s') \<and> w_ext s' = w_ext s \<and>
    w_tx s' = w_tx s \<and> (\<exists>a b row. orders (w_db s) = a @ r # b \<and> orders (w_db s') = a @ row # b \<and>
      row = r\<lparr>or_Status := ord_status_text st, or_UpdatedAt := db_now (w_db s), or_Version := or_Version r + 1\<rparr>) \<and>
    db_now (w_db s') = db_now (w_db s) \<and> processed_events (w_db s') = processed_events (w_db s) \<and>
    order_lines (w_db s') = order_lines (w_db s) \<and> idempotency_keys (w_db s') = idempotency_keys (w_db s)"
proof -
  from ok have d: "distinct (map or_ID (orders (w_db s)))" and p: "uuid_Parse (oe_U E) (or_ID r) = Inr (or_ID r)"
    using r by (auto simp: ord_ok_def ord_rows_ok_def)
  from ok r have v: "1 \<le> or_Version r" "int4 (or_Version r)" by (auto simp: ord_ok_def ord_rows_ok_def)
  then have cv: "clamp32 (or_Version r) = or_Version r" by (simp add: int4_def)
  from orders_Update_Inr [OF C d run] obtain uid r1 row a b news k where u:
      "uuid_Parse (oe_U E) (ord_id o'') = Inr uid" "or_ID r1 = uid" "orders (w_db s) = a @ r1 # b"
      "row = r1\<lparr>or_Status := ord_status_text (ord_status o''), or_UpdatedAt := db_now (w_db s), or_Version := or_Version r1 + 1\<rparr>"
      "int4 (or_Version row)" "list_all2 (announces (oe_C E) row) (ord_events o'') news"
      "w_db s' = (w_db s)\<lparr>orders := a @ row # b, outbox := outbox (w_db s) @ news, outbox_next := k\<rparr>"
      "w_ext s' = w_ext s" "w_tx s' = w_tx s"
    by (rule orders_Update_Inr [OF C d run]) (rule that; assumption)
  from u(1) moved o' p have uid: "uid = or_ID r" by simp
  from u(3) have "r1 \<in> set (orders (w_db s))" by simp
  with d r u(2) uid have r1: "r1 = r" by (metis distinct_map_inj)
  have st: "ord_status_text (ord_status o'') = ord_status_text st" by (simp add: moved)
  have row: "row = r\<lparr>or_Status := or_Status row, or_UpdatedAt := or_UpdatedAt row, or_Version := or_Version r + 1\<rparr>"
    using u(4) r1 by simp
  have se: "settle_event row e" using e u(4) r1 st by (auto simp: settle_event_def)
  have n: "list_all2 (announces (oe_C E) row) [e] news" using u(6) by (simp add: moved)
  from settle_keeps [OF ok u(3) [unfolded r1] row pending se u(5) n u(7)] u(3,4,7,8,9) r1 st
  show ?thesis by auto
qed

subsection \<open>Storing a new order\<close>

definition good_line :: "OrderLine \<Rightarrow> bool" where
  "good_line l \<longleftrightarrow> 0 < oln_quantity l \<and> oln_quantity l \<le> 10000 \<and> 0 \<le> amountMinor (oln_unitPrice l)"

lemma good_sound: "good_line l \<Longrightarrow> sound_line l"
  by (simp add: good_line_def sound_line_def)

lemma good_clamp [simp]: "good_line l \<Longrightarrow> clamp32 (oln_quantity l) = oln_quantity l"
  by (simp add: good_line_def MaxInt32_def)

definition order_line_of :: "oline_row \<Rightarrow> OrderLine" where
  "order_line_of l = \<lparr>oln_sku = ol_Sku l, oln_quantity = ol_Quantity l,
     oln_unitPrice = \<lparr>amountMinor = ol_UnitPriceAmountMinor l, currency = ol_UnitPriceCurrency l\<rparr>\<rparr>"

definition create_order_lines ::
  "(nat \<Rightarrow> gostring) \<Rightarrow> gostring \<Rightarrow> (nat \<times> OrderLine) list \<Rightarrow> ('w, oline_row list) ord_op" where
  "create_order_lines f uid = map_each (\<lambda>(i, line).
     mapErr (\<lambda>e. wrap e KindInternal ''create order line'')
       (sql (sql_CreateOrderLine (f i) uid (oln_sku line) (clamp32 (oln_quantity line))
          (amountMinor (oln_unitPrice line)) (currency (oln_unitPrice line)))))"

lemma sql_CreateOrderLine_Inr:
  assumes "sql_CreateOrderLine lid uid sku q a cur db = (Inr l, db')"
  shows "db' = db\<lparr>order_lines := order_lines db @ [l]\<rparr> \<and> ol_OrderID l = uid \<and> 0 < ol_Quantity l \<and>
    order_line_of l = \<lparr>oln_sku = sku, oln_quantity = q, oln_unitPrice = \<lparr>amountMinor = a, currency = cur\<rparr>\<rparr>"
  using assms by (auto simp: sql_CreateOrderLine_def Let_def order_line_of_def split: if_splits)

lemma create_order_lines_Inr:
  assumes "create_order_lines f uid xs s = (Inr ls, s')"
  shows "w_db s' = (w_db s)\<lparr>order_lines := order_lines (w_db s) @ ls\<rparr> \<and> w_ext s' = w_ext s \<and> w_tx s' = w_tx s \<and>
    (\<forall>l \<in> set ls. ol_OrderID l = uid \<and> 0 < ol_Quantity l) \<and>
    map order_line_of ls = map (\<lambda>(i, l). l\<lparr>oln_quantity := clamp32 (oln_quantity l)\<rparr>) xs"
  using assms unfolding create_order_lines_def
proof (induction xs arbitrary: s ls)
  case Nil
  then show ?case by (simp add: op_inv)
next
  case (Cons x xs)
  obtain i line where x: "x = (i, line)" by (cases x)
  from Cons.prems x obtain l rest s1 where step:
      "sql (sql_CreateOrderLine (f i) uid (oln_sku line) (clamp32 (oln_quantity line))
          (amountMinor (oln_unitPrice line)) (currency (oln_unitPrice line))) s = (Inr l, s1)"
      "map_each (\<lambda>(i, line). mapErr (\<lambda>e. wrap e KindInternal ''create order line'')
         (sql (sql_CreateOrderLine (f i) uid (oln_sku line) (clamp32 (oln_quantity line))
            (amountMinor (oln_unitPrice line)) (currency (oln_unitPrice line))))) xs s1 = (Inr rest, s')"
      "ls = l # rest"
    by (auto simp: op_inv)
  from sql_success [OF step(1)] have q: "sql_CreateOrderLine (f i) uid (oln_sku line) (clamp32 (oln_quantity line))
          (amountMinor (oln_unitPrice line)) (currency (oln_unitPrice line)) (w_db s) = (Inr l, w_db s1)"
      "w_ext s1 = w_ext s" "w_tx s1 = w_tx s" by auto
  from sql_CreateOrderLine_Inr [OF q(1)] have l: "w_db s1 = (w_db s)\<lparr>order_lines := order_lines (w_db s) @ [l]\<rparr>"
      "ol_OrderID l = uid" "0 < ol_Quantity l"
      "order_line_of l = line\<lparr>oln_quantity := clamp32 (oln_quantity line)\<rparr>" by (auto intro: OrderLine.equality Money.equality)
  from Cons.IH [OF step(2)] l q(2,3) step(3) x show ?case by simp
qed

lemma sql_CreateOrder_Inr:
  assumes "sql_CreateOrder uid userID st a cur rid db = (Inr row, db')"
  shows "db' = db\<lparr>orders := orders db @ [row]\<rparr> \<and>
    row = \<lparr>or_ID = uid, or_UserID = userID, or_Status = st, or_TotalAmountMinor = a, or_TotalCurrency = cur,
      or_ReservationID = rid, or_CreatedAt = db_now db, or_UpdatedAt = db_now db, or_Version = 1\<rparr> \<and>
    known_ord_status st \<and> uid \<notin> or_ID ` set (orders db) \<and> rid \<notin> or_ReservationID ` set (orders db)"
  using assms by (auto simp: sql_CreateOrder_def Let_def split: if_splits)

lemma orders_Create_Inr:
  assumes C: "codec_ok (oe_C E)" and run: "orders_Create E o' s = (Inr o'', s')"
    and good: "\<forall>l \<in> set (ord_lines o'). good_line l"
  obtains uid userID rid row ls news k where "uuid_Parse (oe_U E) (ord_id o') = Inr uid"
    "uuid_Parse (oe_U E) (ord_userID o') = Inr userID" "uuid_Parse (oe_U E) (ord_reservationID o') = Inr rid"
    "row = \<lparr>or_ID = uid, or_UserID = userID, or_Status = ord_status_text (ord_status o'),
      or_TotalAmountMinor = amountMinor (ord_total o'), or_TotalCurrency = currency (ord_total o'),
      or_ReservationID = rid, or_CreatedAt = db_now (w_db s), or_UpdatedAt = db_now (w_db s), or_Version = 1\<rparr>"
    "uid \<notin> or_ID ` set (orders (w_db s))" "rid \<notin> or_ReservationID ` set (orders (w_db s))"
    "\<forall>l \<in> set ls. ol_OrderID l = uid \<and> 0 < ol_Quantity l" "map order_line_of ls = ord_lines o'"
    "list_all2 (announces (oe_C E) row) (ord_events o') news"
    "w_db s' = (w_db s)\<lparr>orders := orders (w_db s) @ [row], order_lines := order_lines (w_db s) @ ls,
       outbox := outbox (w_db s) @ news, outbox_next := k\<rparr>"
    "o'' = ord_toDomain row ls" "w_ext s' = w_ext s" "w_tx s' = w_tx s"
proof -
  from run obtain uid userID rid row s1 ls s2 where 1:
      "uuid_Parse (oe_U E) (ord_id o') = Inr uid" "uuid_Parse (oe_U E) (ord_userID o') = Inr userID"
      "uuid_Parse (oe_U E) (ord_reservationID o') = Inr rid"
      "sql (sql_CreateOrder uid userID (ord_status_text (ord_status o')) (amountMinor (ord_total o'))
         (currency (ord_total o')) rid) s = (Inr row, s1)"
      "create_order_lines (oe_line_id E uid) uid (enumerate 0 (ord_lines o')) s1 = (Inr ls, s2)"
      "ord_writeEvents E o' row s2 = (Inr (), s')" "o'' = ord_toDomain row ls"
    unfolding create_order_lines_def by (auto simp: orders_Create_def ord_Snapshot_def Let_def op_inv)
  from sql_success [OF 1(4)] have q: "sql_CreateOrder uid userID (ord_status_text (ord_status o'))
      (amountMinor (ord_total o')) (currency (ord_total o')) rid (w_db s) = (Inr row, w_db s1)"
      "w_ext s1 = w_ext s" "w_tx s1 = w_tx s" by auto
  note row = sql_CreateOrder_Inr [OF q(1)]
  note ls = create_order_lines_Inr [OF 1(5)]
  have "map (\<lambda>(i, l). l\<lparr>oln_quantity := clamp32 (oln_quantity l)\<rparr>) (enumerate 0 (ord_lines o')) = ord_lines o'"
    using good by (intro nth_equalityI) (auto simp: nth_enumerate_eq)
  with ls have m: "map order_line_of ls = ord_lines o'" by simp
  from writeEvents_Inr [OF C 1(6)] obtain news k where n:
      "w_db s' = (w_db s2)\<lparr>outbox := outbox (w_db s2) @ news, outbox_next := k\<rparr>"
      "list_all2 (announces (oe_C E) row) (ord_events o') news" "w_ext s' = w_ext s2" "w_tx s' = w_tx s2" by blast
  show ?thesis
    by (rule that [OF 1(1-3) _ _ _ _ m n(2) _ 1(7), of k]) (use row ls n(1,3,4) q(2,3) in auto)
qed

lemma orders_Create_ok:
  assumes C: "codec_ok (oe_C E)" and U: "uuid_ok (oe_U E)" and ok: "ord_rows_ok (oe_U E) (oe_C E) (w_db s)"
    and built: "NewOrder oid uid rid ls = Inr o'" and good: "\<forall>l \<in> set ls. good_line l"
    and canon: "uuid_Parse (oe_U E) oid = Inr oid" "uuid_Parse (oe_U E) uid = Inr uid" "uuid_Parse (oe_U E) rid = Inr rid"
    and run: "orders_Create E o' s = (Inr o'', s')"
  shows "ord_rows_ok (oe_U E) (oe_C E) (w_db s') \<and> evolves (w_db s) (w_db s') \<and> w_ext s' = w_ext s \<and> w_tx s' = w_tx s \<and>
    idempotency_keys (w_db s') = idempotency_keys (w_db s) \<and>
    (\<exists>row lrs. orders (w_db s') = orders (w_db s) @ [row] \<and> o'' = ord_toDomain row lrs \<and>
       order_lines (w_db s') = order_lines (w_db s) @ lrs \<and> map order_line_of lrs = ls \<and>
       or_ID row = oid \<and> or_UserID row = uid \<and> or_ReservationID row = rid \<and> or_Status row = ''pending_payment'' \<and>
       ord_sum ls = Inr \<lparr>amountMinor = or_TotalAmountMinor row, currency = or_TotalCurrency row\<rparr> \<and>
       oid \<notin> or_ID ` set (orders (w_db s)))"
proof -
  note b = NewOrder_Inr [OF built]
  have good': "\<forall>l \<in> set (ord_lines o'). good_line l" using good b(4) by simp
  obtain uid' userID rid' row lrs news k where c:
    "uuid_Parse (oe_U E) (ord_id o') = Inr uid'"
    "uuid_Parse (oe_U E) (ord_userID o') = Inr userID" "uuid_Parse (oe_U E) (ord_reservationID o') = Inr rid'"
    "row = \<lparr>or_ID = uid', or_UserID = userID, or_Status = ord_status_text (ord_status o'),
      or_TotalAmountMinor = amountMinor (ord_total o'), or_TotalCurrency = currency (ord_total o'),
      or_ReservationID = rid', or_CreatedAt = db_now (w_db s), or_UpdatedAt = db_now (w_db s), or_Version = 1\<rparr>"
    "uid' \<notin> or_ID ` set (orders (w_db s))" "rid' \<notin> or_ReservationID ` set (orders (w_db s))"
    "\<forall>l \<in> set lrs. ol_OrderID l = uid' \<and> 0 < ol_Quantity l" "map order_line_of lrs = ord_lines o'"
    "list_all2 (announces (oe_C E) row) (ord_events o') news"
    "w_db s' = (w_db s)\<lparr>orders := orders (w_db s) @ [row], order_lines := order_lines (w_db s) @ lrs,
       outbox := outbox (w_db s) @ news, outbox_next := k\<rparr>"
    "o'' = ord_toDomain row lrs" "w_ext s' = w_ext s" "w_tx s' = w_tx s"
    by (rule orders_Create_Inr [OF C run good']) (rule that; assumption)
  note db = c(10)
  have nob: "about_order (w_db s) uid' = []" and nol: "stored_lines (w_db s) uid' = []"
    using ok c(5) by (auto simp: about_order_def stored_lines_def filter_empty_conv ord_rows_ok_def)
  have about: "about_order (w_db s') oid = about_order (w_db s) oid @ (if oid = uid' then news else [])" for oid
    using announced_filter [OF c(9), of oid] by (simp add: about_order_def db c(4))
  have lines: "stored_lines (w_db s') oid = stored_lines (w_db s) oid @ (if oid = uid' then lrs else [])" for oid
    using c(7) by (auto simp: stored_lines_def db filter_id_conv filter_empty_conv)
  from c(9) b(7) obtain b0 where b0: "news = [b0]" "announces (oe_C E) row
      (OrderPlaced oid uid rid ls (ord_total o')) b0" by (auto simp: list_all2_Cons1)
  have ids: "uid' = oid" "userID = uid" "rid' = rid" using canon c(1-3) b(1-3) by auto
  have row: "or_ID row = oid" "or_UserID row = uid" "or_ReservationID row = rid" "or_Status row = ''pending_payment''"
      "or_TotalAmountMinor row = amountMinor (ord_total o')" "or_TotalCurrency row = currency (ord_total o')" "or_Version row = 1"
    using c(4) b(5) ids by simp_all
  have "says (oe_C E) row ''OrderPlaced'' b0"
    using b0(2) row by (auto simp: announces_def says_def pb_about_def pb_money_def)
  then have told_new: "told (oe_C E) (w_db s') row"
    using nob b0(1) by (simp add: told_def about row ids ord_story_def)
  have sound: "\<forall>l \<in> set ls. sound_line l" using good good_sound by blast
  note sum = ord_sum_exact [OF b(9) sound, THEN iffD1, OF b(11)]
  have val: "map oline_value lrs = map line_value ls"
    unfolding c(8) [unfolded b(4), symmetric] by (simp add: oline_value_def line_value_def order_line_of_def)
  have cur: "ol_UnitPriceCurrency l = currency (ord_total o')" if "l \<in> set lrs" for l
  proof -
    from that have "order_line_of l \<in> set ls" using c(8) b(4) by (metis image_eqI set_map)
    with sum show ?thesis by (auto simp: order_line_of_def)
  qed
  have "lrs \<noteq> []" using c(8) b(4,9) by auto
  then have adds_new: "adds_up (w_db s') row"
    using nol ids sum val cur c(7) by (auto simp: adds_up_def lines row lines_value_def)
  have old: "or_ID r \<noteq> uid'" if "r \<in> set (orders (w_db s))" for r using c(5) that by auto
  have told_old: "told (oe_C E) (w_db s') r = told (oe_C E) (w_db s) r"
      "adds_up (w_db s') r = adds_up (w_db s) r" if "r \<in> set (orders (w_db s))" for r
    using old [OF that] by (simp_all add: told_def about adds_up_def lines)
  have rows: "ord_rows_ok (oe_U E) (oe_C E) (w_db s')"
    using ok told_new adds_new told_old c(5-7) ids row canon b0 unfolding ord_rows_ok_def
    by (auto simp: db known_ord_status_def int4_def MaxInt32_def announces_def)
  have "evolves (w_db s) (w_db s')" by (simp add: evolves_def db list_all2_same)
  with rows b c(8,11-13) ids row c(5) show ?thesis
    by (auto simp: db intro!: exI [of _ row] exI [of _ lrs])
qed

end
