(* ===== verification/OrdProps.thy ===== *)
theory OrdProps
  imports OrdBooks
begin

text \<open>
  What holds of the order service as a whole, under every schedule of faults: its books, what a
  retried checkout answers, who sees an order, what the sweep cancels, and what the saga steps do
  with a message that is delivered more than once.
\<close>

subsection \<open>Every use case keeps the books\<close>

lemma keeps_ord_stores [keeps]:
  "keeps_tx (idem_Find U u k)" "keeps_tx (idem_Claim U u k h oid)" "keeps_tx (ord_inbox_Claim g e)"
  "keeps_tx (orders_FindByID U oid)" "keeps_tx (orders_FindByIDForUpdate U oid)"
  "keeps_tx (ord_writeEvents E o' row)"
  unfolding idem_Find_def idem_Claim_def ord_inbox_Claim_def orders_FindByID_def
    orders_FindByIDForUpdate_def ord_writeEvents_def Let_def
  by (intro keeps)+

lemma keeps_ord_stores2 [keeps]:
  "keeps_tx (orders_Create E o')" "keeps_tx (orders_Update E o')" "keeps_tx (lines_by_order what rows)"
  "keeps_tx (orders_List U u c n)" "keeps_tx (orders_ClaimStaleOrders lk t n)"
  unfolding orders_Create_def orders_Update_def lines_by_order_def orders_List_def
    orders_ClaimStaleOrders_def Let_def
  by (intro keeps)+

lemma keeps_gateways [keeps]:
  "keeps_tx (gw_Reserve G oid rls)" "keeps_tx (gw_Release G rid)" "keeps_tx (gw_Commit G rid)"
  "keeps_tx (gw_PriceSKUs G skus)"
  unfolding gw_Reserve_def gw_Release_def gw_Commit_def gw_PriceSKUs_def by (intro keeps)+

lemma keeps_checkout_parts [keeps]:
  "keeps_tx (ord_replay U u k h)" "keeps_tx (ord_price G req)" "keeps_tx (ord_release G rid)"
  "keeps_tx (checkout_tx E u k h oid rid ls)" "keeps_tx (checkout_finish E G rid r)"
  unfolding ord_replay_def ord_price_def ord_release_def checkout_tx_def checkout_finish_def
  by (intro keeps)+

lemma keeps_ord_sweep [keeps]: "keeps_tx (ord_sweep E now w os n)"
  by (induction os arbitrary: n) (auto intro!: keeps split: sum.splits)

lemma read_only_gateways:
  "read_only (gw_Reserve G oid rls)" "read_only (gw_Release G rid)" "read_only (gw_Commit G rid)"
  "read_only (gw_PriceSKUs G skus)"
  unfolding gw_Reserve_def gw_Release_def gw_Commit_def gw_PriceSKUs_def
  by (auto intro!: read_only_andThen)

lemmas gw_db = read_only_gateways [THEN read_onlyD]

lemma ord_reads_only:
  "read_only (orders_FindByID U oid)" "read_only (orders_FindByIDForUpdate U oid)"
  "read_only (idem_Find U u k)" "read_only (orders_List U u c n)" "read_only (orders_ClaimStaleOrders lk t n)"
  "read_only (ord_release G rid)" "read_only (ord_price G req)" "read_only (ord_replay U u k h)"
proof -
  have l: "read_only (lines_by_order what rows)" for what rows
    unfolding lines_by_order_def
    by (auto intro!: read_only_andThen read_only_mapErr read_only_sql simp: ord_reading)
  show f: "read_only (orders_FindByID U oid)" "read_only (orders_FindByIDForUpdate U oid)" for oid
    unfolding orders_FindByID_def orders_FindByIDForUpdate_def
    by (auto intro!: read_only_andThen read_only_withResult read_only_mapErr read_only_sql simp: ord_reading
        split: sum.splits)
  show i: "read_only (idem_Find U u k)"
    unfolding idem_Find_def
    by (auto intro!: read_only_andThen read_only_withResult read_only_sql simp: ord_reading split: sum.splits)
  show "read_only (orders_List U u c n)" "read_only (orders_ClaimStaleOrders lk t n)"
    unfolding orders_List_def orders_ClaimStaleOrders_def
    by (auto intro!: read_only_andThen read_only_mapErr read_only_sql l simp: ord_reading)
  show "read_only (ord_release G rid)"
    unfolding ord_release_def gw_Release_def
    by (auto intro!: read_only_withResult read_only_andThen read_only_rpc)
  show "read_only (ord_price G req)"
    unfolding ord_price_def gw_PriceSKUs_def
    by (auto intro!: read_only_andThen read_only_rpc)
  show "read_only (ord_replay U u k h)"
    unfolding ord_replay_def
    by (auto intro!: read_only_andThen i f split: option.splits)
qed

definition ord_good :: "ord_env \<Rightarrow> ord_db \<Rightarrow> ord_db \<Rightarrow> bool" where
  "ord_good E db db' \<longleftrightarrow> ord_ok (oe_U E) (oe_C E) db' \<and> evolves db db'"

lemma ord_goodI: "ord_ok (oe_U E) (oe_C E) db \<Longrightarrow> ord_good E db db"
  by (simp add: ord_good_def)

lemma mark_paid_good:
  assumes C: "codec_ok (oe_C E)" and ok: "ord_ok (oe_U E) (oe_C E) (w_db s)"
    and run: "mark_paid_tx E ev oid s = (Inr u, s')"
  shows "ord_good E (w_db s) (w_db s')"
proof -
  from run obtain took s1 where i: "ord_inbox_Claim paymentSagaConsumerGroup ev s = (Inr took, s1)"
      "(if \<not> took then ret () else andThen (orders_FindByIDForUpdate (oe_U E) oid) (\<lambda>o'.
            andThen (pure_op (ord_MarkPaid o')) (\<lambda>(moved, o'').
              if \<not> moved then ret () else andThen (orders_Update E o'') (\<lambda>_. ret ())))) s1 = (Inr u, s')"
    unfolding mark_paid_tx_def andThen_Inr by blast
  note c = ord_inbox_Inr [OF i(1)]
  from ok ord_ok_inbox have ok1: "ord_ok (oe_U E) (oe_C E) (w_db s1)" by (subst c(3)) simp
  have ev1: "evolves (w_db s) (w_db s1)" by (subst c(3)) simp
  show ?thesis
  proof (cases took)
    case False
    with i c ok ok1 ev1 show ?thesis by (simp add: op_inv ord_good_def)
  next
    case True
    with i(2) obtain o' s2 moved o'' where f: "orders_FindByIDForUpdate (oe_U E) oid s1 = (Inr o', s2)"
        "ord_MarkPaid o' = Inr (moved, o'')"
        "(if \<not> moved then ret () else andThen (orders_Update E o'') (\<lambda>_. ret ())) s2 = (Inr u, s')"
      by (auto simp: andThen_Inr pure_op_simps)
    from FindByID_Inr [OF disjI2 [OF f(1)]] obtain r ls where r: "r \<in> set (orders (w_db s1))"
        "o' = ord_toDomain r ls" "w_db s2 = w_db s1" by blast
    show ?thesis
    proof (cases moved)
      case False
      with f(3) r ok1 ev1 show ?thesis by (simp add: op_inv ord_good_def)
    next
      case True
      with f(3) obtain o3 where u: "orders_Update E o'' s2 = (Inr o3, s')" by (auto simp: op_inv)
      from r(1) ok1 have k: "known_ord_status (or_Status r)" by (auto simp: ord_ok_def ord_rows_ok_def)
      from f(2) True r(2) k have m: "or_Status r = ''pending_payment''"
        "o'' = o'\<lparr>ord_status := Paid, ord_events := [OrderPaid (or_ID r) (or_UserID r) (or_ReservationID r)
            \<lparr>amountMinor = or_TotalAmountMinor r, currency = or_TotalCurrency r\<rparr>]\<rparr>"
        by (auto simp: ord_MarkPaid_def known_ord_status_def OrderStatus_of_def split: OrderStatus.splits if_splits)
      have "ord_ok (oe_U E) (oe_C E) (w_db s') \<and> evolves (w_db s2) (w_db s')"
        using settle_loaded [OF C _ _ _ _ m(2,1) _ u] r ok1 by simp
      with ev1 r show ?thesis by (auto simp: ord_good_def intro: evolves_trans)
    qed
  qed
qed

lemma claim_then_good:
  assumes ok: "ord_ok (oe_U E) (oe_C E) (w_db s)" and call: "read_only call"
    and run: "claim_then_tx ev call s = (Inr u, s')"
  shows "ord_good E (w_db s) (w_db s')"
proof -
  from run obtain took s1 where i: "ord_inbox_Claim checkoutSagaConsumerGroup ev s = (Inr took, s1)"
      "(if \<not> took then ret () else call) s1 = (Inr u, s')"
    unfolding claim_then_tx_def andThen_Inr by blast
  from i(2) call have "w_db s' = w_db s1" by (auto simp: op_inv read_only_def split: if_splits)
  moreover have "ord_ok (oe_U E) (oe_C E) (w_db s1) \<and> evolves (w_db s) (w_db s1)"
    using ok by (subst (1 2) ord_inbox_Inr(3) [OF i(1)]) simp
  ultimately show ?thesis by (simp add: ord_good_def)
qed

subsection \<open>The sweep\<close>

definition cancel_row :: "gotime \<Rightarrow> ord_row \<Rightarrow> ord_row" where
  "cancel_row t r = r\<lparr>or_Status := ''cancelled'', or_UpdatedAt := t, or_Version := or_Version r + 1\<rparr>"

lemma cancel_row_ID [simp]: "or_ID (cancel_row t r) = or_ID r"
  by (simp add: cancel_row_def)

definition cancel_rows :: "gotime \<Rightarrow> ord_row list \<Rightarrow> ord_row list \<Rightarrow> ord_row list" where
  "cancel_rows t due rows = map (\<lambda>r. if r \<in> set due then cancel_row t r else r) rows"

lemma ord_skips_simps [simp]:
  "ord_skips ErrOrderPaid" "ord_skips ErrOrderNotExpired" "\<not> ord_skips (ValidationErr f m)"
  by (simp_all add: ord_skips_def ord_sentinels)

lemma replace_one:
  assumes "distinct (map or_ID (a @ r # b))"
  shows "a @ row # b = map (\<lambda>x. if x = r then row else x) (a @ r # b)"
proof -
  from assms have "r \<notin> set a" "r \<notin> set b" by auto
  then have "map (\<lambda>x. if x = r then row else x) a = a" "map (\<lambda>x. if x = r then row else x) b = b"
    by (auto intro!: map_idI)
  then show ?thesis by simp
qed

lemma ord_sweep_exact:
  assumes C: "codec_ok (oe_C E)" and ok: "ord_ok (oe_U E) (oe_C E) (w_db s)"
    and rows: "\<forall>r \<in> set rows. r \<in> set (orders (w_db s)) \<and> or_Status r = ''pending_payment''"
    and d: "distinct (map or_ID rows)"
    and run: "ord_sweep E now w (map (\<lambda>r. ord_toDomain r (f r)) rows) n s = (Inr m, s')"
  shows "ord_good E (w_db s) (w_db s') \<and>
    (let due = filter (\<lambda>r. or_CreatedAt r + w \<le> now) rows in
      m = n + int (length due) \<and> db_now (w_db s') = db_now (w_db s) \<and>
      orders (w_db s') = cancel_rows (db_now (w_db s)) due (orders (w_db s)))"
  using ok rows d run
proof (induction rows arbitrary: s n)
  case Nil
  then show ?case by (simp add: op_inv ord_goodI Let_def cancel_rows_def)
next
  case (Cons r rows)
  let ?o = "ord_toDomain r (f r)"
  have st: "ord_status ?o = PendingPayment" using Cons.prems(2) by (simp add: OrderStatus_of_def)
  show ?case
  proof (cases "or_CreatedAt r + w \<le> now")
    case late: False
    with st have "ord_Expire now w ?o = Inl ErrOrderNotExpired \<or> (\<exists>f m. ord_Expire now w ?o = Inl (ValidationErr f m))"
      by (auto simp: ord_Expire_def)
    with Cons.prems(4) have "ord_sweep E now w (map (\<lambda>r. ord_toDomain r (f r)) rows) n s = (Inr m, s')"
      by (auto simp: op_inv)
    from Cons.IH [OF Cons.prems(1) _ _ this] Cons.prems(2,3) late show ?thesis by simp
  next
    case due: True
    let ?o2 = "?o\<lparr>ord_status := Cancelled, ord_events := [OrderCancelled (or_ID r) (or_UserID r) (or_ReservationID r)]\<rparr>"
    have "0 < w"
    proof (rule ccontr)
      assume "\<not> 0 < w"
      then have "ord_Expire now w ?o = Inl (ValidationErr ''window'' ''is not a positive duration'')"
        by (simp add: ord_Expire_def)
      with Cons.prems(4) show False by (simp add: op_inv)
    qed
    with due st have "ord_Expire now w ?o = Inr (True, ?o2)" by (simp add: ord_Expire_def)
    with Cons.prems(4) obtain o3 s1 where u: "orders_Update E ?o2 s = (Inr o3, s1)"
        "ord_sweep E now w (map (\<lambda>r. ord_toDomain r (f r)) rows) (n + 1) s1 = (Inr m, s')"
      by (auto simp: andThen_Inr)
    have rmem: "r \<in> set (orders (w_db s))" and pend: "or_Status r = ''pending_payment''"
      using Cons.prems(2) by simp_all
    have "(Cancelled = Paid \<and> OrderCancelled (or_ID r) (or_UserID r) (or_ReservationID r) =
        OrderPaid (or_ID r) (or_UserID r) (or_ReservationID r)
          \<lparr>amountMinor = or_TotalAmountMinor r, currency = or_TotalCurrency r\<rparr>) \<or>
        (Cancelled = Cancelled \<and> OrderCancelled (or_ID r) (or_UserID r) (or_ReservationID r) =
        OrderCancelled (or_ID r) (or_UserID r) (or_ReservationID r))" by simp
    from settle_loaded [OF C Cons.prems(1) rmem _ _ refl pend this u(1)]
    obtain a b where s1: "ord_ok (oe_U E) (oe_C E) (w_db s1)" "evolves (w_db s) (w_db s1)"
        "db_now (w_db s1) = db_now (w_db s)" "orders (w_db s) = a @ r # b"
        "orders (w_db s1) = a @ cancel_row (db_now (w_db s)) r # b"
      by (auto simp: cancel_row_def)
    have dist: "distinct (map or_ID (orders (w_db s)))"
      using Cons.prems(1) by (simp add: ord_ok_def ord_rows_ok_def)
    have keep: "r' \<in> set (orders (w_db s1)) \<and> or_Status r' = ''pending_payment''" if "r' \<in> set rows" for r'
    proof -
      from that Cons.prems(2,3) have "r' \<noteq> r" "r' \<in> set (orders (w_db s))" "or_Status r' = ''pending_payment''"
        by (auto simp: image_iff)
      with s1(4,5) show ?thesis by auto
    qed
    have "distinct (map or_ID rows)" using Cons.prems(3) by simp
    note IH = Cons.IH [OF s1(1) _ this u(2)]
    let ?due = "filter (\<lambda>r. or_CreatedAt r + w \<le> now) rows"
    have IH': "ord_good E (w_db s1) (w_db s')" "m = n + 1 + int (length ?due)" "db_now (w_db s') = db_now (w_db s1)"
        "orders (w_db s') = cancel_rows (db_now (w_db s1)) ?due (orders (w_db s1))"
      using IH keep by (auto simp: Let_def)
    have nr: "cancel_row (db_now (w_db s)) r \<notin> set ?due"
      using Cons.prems(3) by (auto simp: image_iff)
    have rd: "r \<notin> set ?due" using Cons.prems(3) by auto
    have "orders (w_db s1) = map (\<lambda>x. if x = r then cancel_row (db_now (w_db s)) r else x) (orders (w_db s))"
      using replace_one [of a r b] dist s1(4,5) by simp
    then have "orders (w_db s') = cancel_rows (db_now (w_db s)) (r # ?due) (orders (w_db s))"
      unfolding IH'(4) s1(3) cancel_rows_def using nr rd by auto
    moreover have "ord_good E (w_db s) (w_db s')"
      using IH'(1) s1(2) by (auto simp: ord_good_def intro: evolves_trans)
    ultimately show ?thesis using IH'(2,3) s1(3) due by (simp add: Let_def)
  qed
qed

lemma lines_by_order_Inr:
  assumes "lines_by_order what rows s = (Inr os, s')"
  obtains f where "os = map (\<lambda>r. ord_toDomain r (f r)) rows" "w_db s' = w_db s" "w_ext s' = w_ext s" "w_tx s' = w_tx s"
proof (cases "rows = []")
  case True
  with assms that [of "\<lambda>_. []"] show ?thesis by (simp add: lines_by_order_def op_inv)
next
  case False
  with assms obtain ls where ls: "sql (sql_GetOrderLinesByOrderIDs (map or_ID rows)) s = (Inr ls, s')"
      "os = map (\<lambda>row. ord_toDomain row (filter (\<lambda>l. ol_OrderID l = or_ID row) ls)) rows"
    by (auto simp: lines_by_order_def op_inv)
  then show ?thesis
    by (intro that [OF ls(2)]) (use sql_reads [OF ls(1) ord_reading(4)] in auto)
qed

definition stale_rows :: "gostring list \<Rightarrow> gotime \<Rightarrow> ord_db \<Rightarrow> ord_row list" where
  "stale_rows locked cutoff db = filter (\<lambda>r. or_Status r = ''pending_payment'' \<and> or_CreatedAt r \<le> pg_time cutoff \<and>
     or_ID r \<notin> set locked) (orders db)"

lemma ClaimStale_Inr:
  assumes "orders_ClaimStaleOrders locked cutoff limit s = (Inr os, s')"
  obtains f where "os = map (\<lambda>r. ord_toDomain r (f r))
      (take (nat (clamp32 limit)) (sort_key or_CreatedAt (stale_rows locked cutoff (w_db s))))"
    "w_db s' = w_db s" "w_ext s' = w_ext s" "w_tx s' = w_tx s"
proof -
  from assms obtain rows s1 where 1: "sql (sql_ClaimStaleOrders locked cutoff (clamp32 limit)) s = (Inr rows, s1)"
      "lines_by_order ''get the claimed orders' lines'' rows s1 = (Inr os, s')"
    by (auto simp: orders_ClaimStaleOrders_def op_inv)
  from sql_success [OF 1(1)] have r: "rows = take (nat (clamp32 limit)) (sort_key or_CreatedAt (stale_rows locked cutoff (w_db s)))"
      "w_db s1 = w_db s" "w_ext s1 = w_ext s" "w_tx s1 = w_tx s"
    by (auto simp: sql_ClaimStaleOrders_def stale_rows_def)
  obtain f where f: "os = map (\<lambda>r. ord_toDomain r (f r)) rows" "w_db s' = w_db s1" "w_ext s' = w_ext s1" "w_tx s' = w_tx s1"
    by (rule lines_by_order_Inr [OF 1(2)]) (rule that; assumption)
  show ?thesis by (rule that [of f]) (use f r in auto)
qed

lemma sweep_tx_exact:
  assumes C: "codec_ok (oe_C E)" and ok: "ord_ok (oe_U E) (oe_C E) (w_db s)"
    and run: "andThen (orders_ClaimStaleOrders locked (now - w) limit)
      (\<lambda>claimed. ord_sweep E now w claimed 0) s = (Inr m, s')"
  shows "ord_good E (w_db s) (w_db s') \<and>
    (let rows = take (nat (clamp32 limit)) (sort_key or_CreatedAt (stale_rows locked (now - w) (w_db s))) in
      m = int (length rows) \<and> (\<forall>r \<in> set rows. or_CreatedAt r + w \<le> now) \<and>
      orders (w_db s') = cancel_rows (db_now (w_db s)) rows (orders (w_db s)))"
proof -
  from run obtain os s1 where 1: "orders_ClaimStaleOrders locked (now - w) limit s = (Inr os, s1)"
      "ord_sweep E now w os 0 s1 = (Inr m, s')"
    by (auto simp: andThen_Inr)
  let ?rows = "take (nat (clamp32 limit)) (sort_key or_CreatedAt (stale_rows locked (now - w) (w_db s)))"
  obtain f where f: "os = map (\<lambda>r. ord_toDomain r (f r)) ?rows" "w_db s1 = w_db s"
    by (rule ClaimStale_Inr [OF 1(1)]) (rule that; assumption)
  have mem: "r \<in> set (stale_rows locked (now - w) (w_db s))" if "r \<in> set ?rows" for r
    using in_set_takeD [OF that] by simp
  have rows: "\<forall>r \<in> set ?rows. r \<in> set (orders (w_db s)) \<and> or_Status r = ''pending_payment''"
  proof
    fix r assume "r \<in> set ?rows"
    from mem [OF this] show "r \<in> set (orders (w_db s)) \<and> or_Status r = ''pending_payment''"
      by (simp add: stale_rows_def)
  qed
  have due: "\<forall>r \<in> set ?rows. or_CreatedAt r + w \<le> now"
  proof
    fix r assume "r \<in> set ?rows"
    from mem [OF this] have "or_CreatedAt r \<le> pg_time (now - w)" by (simp add: stale_rows_def)
    with pg_time_le [of "now - w"] show "or_CreatedAt r + w \<le> now" by linarith
  qed
  have "distinct (map or_ID (orders (w_db s)))" using ok by (simp add: ord_ok_def ord_rows_ok_def)
  then have "distinct (map or_ID (stale_rows locked (now - w) (w_db s)))"
    unfolding stale_rows_def by (rule distinct_map_filter)
  then have d: "distinct (map or_ID ?rows)" by (simp add: take_map [symmetric])
  from due have "filter (\<lambda>r. or_CreatedAt r + w \<le> now) ?rows = ?rows" by (simp add: filter_id_conv)
  with ord_sweep_exact [OF C _ _ d 1(2) [unfolded f(1)]] ok rows f(2) due show ?thesis
    by (simp add: Let_def)
qed

subsection \<open>Checkout\<close>

lemma gw_priced_amount: "gw_priced skus v = Some p \<Longrightarrow> 0 \<le> amountMinor (ps_Price p)"
  by (auto simp: gw_priced_def ord_NewMoney_def split: if_splits sum.splits)

lemma price_map_amount:
  "price_map priced sku = Some m \<Longrightarrow> (\<And>p. p \<in> set priced \<Longrightarrow> 0 \<le> amountMinor (ps_Price p)) \<Longrightarrow> 0 \<le> amountMinor m"
  by (auto simp: price_map_def dest!: map_of_SomeD)

lemma ord_price_Inr:
  assumes "ord_price G req s = (Inr ls, s')"
  shows "\<forall>l \<in> set ls. good_line l" "map (\<lambda>l. (oln_sku l, oln_quantity l)) ls = map (\<lambda>l. (rsl_SKU l, rsl_Quantity l)) req"
proof -
  from assms obtain vs s1 where v: "map_res (priced_line (price_map (List.map_filter (gw_priced (map rsl_SKU req)) vs))) req = Inr ls"
    by (auto simp: ord_price_def gw_PriceSKUs_def op_inv)
  let ?pr = "List.map_filter (gw_priced (map rsl_SKU req)) vs"
  have am: "0 \<le> amountMinor (ps_Price p)" if "p \<in> set ?pr" for p
    using that gw_priced_amount by (auto simp: List.map_filter_def)
  have line: "good_line l \<and> oln_sku l = rsl_SKU x \<and> oln_quantity l = rsl_Quantity x"
    if "priced_line (price_map ?pr) x = Inr l" for x l
    using that price_map_amount [of ?pr "rsl_SKU x"] am
    by (auto simp: priced_line_def NewOrderLine_def good_line_def maxQuantity_def split: option.splits if_splits)
  from v have "list_all2 (\<lambda>x l. priced_line (price_map ?pr) x = Inr l) req ls" by (simp add: map_res_Inr)
  then have "list_all2 (\<lambda>x l. good_line l \<and> oln_sku l = rsl_SKU x \<and> oln_quantity l = rsl_Quantity x) req ls"
    by (rule list_all2_mono) (rule line)
  then show "\<forall>l \<in> set ls. good_line l"
    "map (\<lambda>l. (oln_sku l, oln_quantity l)) ls = map (\<lambda>l. (rsl_SKU l, rsl_Quantity l)) req"
    by (auto simp: list_all2_conv_all_nth in_set_conv_nth intro: nth_equalityI)
qed

lemma idem_Claim_cases:
  assumes "idem_Claim U u key h oid s = (Inr (c, taken), s')"
  obtains (took) user ord where "taken" "uuid_Parse U u = Inr user" "uuid_Parse U oid = Inr ord"
      "(user, key) \<notin> (\<lambda>k. (ik_UserID k, ik_Key k)) ` set (idempotency_keys (w_db s))"
      "w_db s' = (w_db s)\<lparr>idempotency_keys := idempotency_keys (w_db s) @
         [\<lparr>ik_UserID = user, ik_Key = key, ik_RequestHash = h, ik_OrderID = ord, ik_CreatedAt = db_now (w_db s)\<rparr>]\<rparr>"
      "w_ext s' = w_ext s" "w_tx s' = w_tx s"
  | (lost) user k where "\<not> taken" "uuid_Parse U u = Inr user" "w_db s' = w_db s" "w_ext s' = w_ext s" "w_tx s' = w_tx s"
      "k \<in> set (idempotency_keys (w_db s))" "ik_UserID k = user" "ik_Key k = key" "c = claimOf k"
proof -
  let ?rest = "\<lambda>user r. case r of Inr k \<Rightarrow> ret (claimOf k, True)
      | Inl e \<Rightarrow> if \<not> is_NoRows e then fail (wrap e KindInternal ''claim idempotency key'')
          else withResult (sql (sql_GetIdempotencyKey user key)) (\<lambda>r. case r of
              Inl e \<Rightarrow> fail (wrap e KindInternal ''read the claim that won'')
            | Inr existing \<Rightarrow> ret (claimOf existing, False))"
  from assms obtain user ord r1 s1 where 1: "uuid_Parse U u = Inr user" "uuid_Parse U oid = Inr ord"
      "sql (sql_ClaimIdempotencyKey user key h ord) s = (r1, s1)" "?rest user r1 s1 = (Inr (c, taken), s')"
    by (auto simp: idem_Claim_def andThen_Inr pure_op_simps ord_parseID_Inr withResult_eq)
  show ?thesis
  proof (cases r1)
    case (Inr k)
    with 1(3) have "sql (sql_ClaimIdempotencyKey user key h ord) s = (Inr k, s1)" by simp
    from sql_success [OF this] have k: "sql_ClaimIdempotencyKey user key h ord (w_db s) = (Inr k, w_db s1)"
        "w_ext s1 = w_ext s" "w_tx s1 = w_tx s" by auto
    from 1(4) Inr have "taken" "s' = s1" by (auto simp: op_inv)
    with k 1(1,2) took show ?thesis
      by (auto simp: sql_ClaimIdempotencyKey_def Let_def split: if_splits)
  next
    case (Inl e)
    with 1(4) have nr: "is_NoRows e"
      and "withResult (sql (sql_GetIdempotencyKey user key)) (\<lambda>r. case r of
              Inl e \<Rightarrow> fail (wrap e KindInternal ''read the claim that won'')
            | Inr existing \<Rightarrow> ret (claimOf existing, False)) s1 = (Inr (c, taken), s')"
      by (auto simp: op_inv split: if_splits)
    then obtain k where g: "sql (sql_GetIdempotencyKey user key) s1 = (Inr k, s')" "c = claimOf k" "\<not> taken"
      by (auto simp: op_inv)
    from sql_success [OF g(1)] have k: "sql_GetIdempotencyKey user key (w_db s1) = (Inr k, w_db s')"
        "w_ext s' = w_ext s1" "w_tx s' = w_tx s1" by auto
    have "stmt_ok (sql_ClaimIdempotencyKey user key h ord)"
      by (auto simp: stmt_ok_def sql_ClaimIdempotencyKey_def Let_def split: if_splits)
    moreover have "e \<noteq> conn_err" using nr by auto
    ultimately have "w_db s1 = w_db s" using sql_refused 1(3) Inl by blast
    moreover from k(1) have f: "List.find (\<lambda>k. (ik_UserID k, ik_Key k) = (user, key)) (idempotency_keys (w_db s1)) = Some k"
        "w_db s' = w_db s1"
      by (auto simp: sql_GetIdempotencyKey_def split: option.splits)
    moreover from find_mem [OF f(1)] have "k \<in> set (idempotency_keys (w_db s1))" "ik_UserID k = user" "ik_Key k = key"
      by simp_all
    moreover from sql_frame [OF 1(3)] have "w_ext s1 = w_ext s" "w_tx s1 = w_tx s" by simp_all
    ultimately show ?thesis using k(2,3) g(2,3) 1(1) by (intro lost) simp_all
  qed
qed

text \<open>What the transaction of a checkout leaves when it returns an order: the claim, the order,
  its lines and its announcement, all of them.\<close>

definition placed ::
  "gostring \<Rightarrow> gostring \<Rightarrow> gostring \<Rightarrow> gostring \<Rightarrow> gostring \<Rightarrow> OrderLine list \<Rightarrow> ord_db \<Rightarrow> ord_db \<Rightarrow> Order \<Rightarrow> bool" where
  "placed userID key hash orderID rid ls db db' o' \<longleftrightarrow>
     (\<exists>row lrs. orders db' = orders db @ [row] \<and> order_lines db' = order_lines db @ lrs \<and>
        map order_line_of lrs = ls \<and> o' = ord_toDomain row lrs \<and>
        or_ID row = orderID \<and> or_UserID row = userID \<and> or_ReservationID row = rid \<and>
        or_Status row = ''pending_payment'' \<and>
        ord_sum ls = Inr \<lparr>amountMinor = or_TotalAmountMinor row, currency = or_TotalCurrency row\<rparr> \<and>
        orderID \<notin> or_ID ` set (orders db) \<and>
        idempotency_keys db' = idempotency_keys db @
          [\<lparr>ik_UserID = userID, ik_Key = key, ik_RequestHash = hash, ik_OrderID = orderID, ik_CreatedAt = db_now db\<rparr>])"

lemma checkout_tx_Inr:
  assumes C: "codec_ok (oe_C E)" and U: "uuid_ok (oe_U E)" and ok: "ord_ok (oe_U E) (oe_C E) (w_db s)"
    and canon: "uuid_Parse (oe_U E) oid = Inr oid" "uuid_Parse (oe_U E) uid = Inr uid" "uuid_Parse (oe_U E) rid = Inr rid"
    and good: "\<forall>l \<in> set ls. good_line l"
    and run: "checkout_tx E uid key hash oid rid ls s = (Inr o', s')"
  shows "ord_good E (w_db s) (w_db s') \<and> placed uid key hash oid rid ls (w_db s) (w_db s') o' \<and>
    w_ext s' = w_ext s \<and> w_tx s' = w_tx s"
proof -
  from run obtain c taken s1 where 1: "idem_Claim (oe_U E) uid key hash oid s = (Inr (c, taken), s1)"
      "(if \<not> taken then if cl_RequestHash c \<noteq> hash then fail errKeyReused else fail (errReplay (cl_OrderID c))
        else andThen (pure_op (NewOrder oid uid rid ls)) (\<lambda>built. orders_Create E built)) s1 = (Inr o', s')"
    by (auto simp: checkout_tx_def andThen_Inr)
  from 1(2) have taken: "taken" by (auto simp: fail_simps split: if_splits)
  with 1(2) obtain b where b: "NewOrder oid uid rid ls = Inr b" "orders_Create E b s1 = (Inr o', s')"
    by (auto simp: andThen_Inr pure_op_simps)
  let ?k = "\<lparr>ik_UserID = uid, ik_Key = key, ik_RequestHash = hash, ik_OrderID = oid, ik_CreatedAt = db_now (w_db s)\<rparr>"
  have cl: "(uid, key) \<notin> (\<lambda>k. (ik_UserID k, ik_Key k)) ` set (idempotency_keys (w_db s))"
      "w_db s1 = (w_db s)\<lparr>idempotency_keys := idempotency_keys (w_db s) @ [?k]\<rparr>"
      "w_ext s1 = w_ext s" "w_tx s1 = w_tx s"
    using 1(1) taken canon by (auto elim!: idem_Claim_cases)
  have rows: "ord_rows_ok (oe_U E) (oe_C E) (w_db s1)"
    using ok by (simp add: ord_ok_def cl(2) ord_rows_ok_def told_def about_order_def adds_up_def stored_lines_def)
  from orders_Create_ok [OF C U rows b(1) good canon b(2)] obtain row lrs where r:
      "ord_rows_ok (oe_U E) (oe_C E) (w_db s')" "evolves (w_db s1) (w_db s')" "w_ext s' = w_ext s1" "w_tx s' = w_tx s1"
      "idempotency_keys (w_db s') = idempotency_keys (w_db s1)"
      "orders (w_db s') = orders (w_db s1) @ [row]" "o' = ord_toDomain row lrs"
      "order_lines (w_db s') = order_lines (w_db s1) @ lrs" "map order_line_of lrs = ls"
      "or_ID row = oid" "or_UserID row = uid" "or_ReservationID row = rid" "or_Status row = ''pending_payment''"
      "ord_sum ls = Inr \<lparr>amountMinor = or_TotalAmountMinor row, currency = or_TotalCurrency row\<rparr>"
      "oid \<notin> or_ID ` set (orders (w_db s1))" by blast
  have fr: "orders (w_db s1) = orders (w_db s)" "order_lines (w_db s1) = order_lines (w_db s)"
      "idempotency_keys (w_db s1) = idempotency_keys (w_db s) @ [?k]" by (simp_all add: cl(2))
  have "ord_keys_ok (w_db s')"
    using ok cl(1) r(10,11) unfolding ord_ok_def ord_keys_ok_def r(5,6) fr by auto
  moreover have "evolves (w_db s) (w_db s1)" by (simp add: cl(2) evolves_def list_all2_same)
  moreover have "placed uid key hash oid rid ls (w_db s) (w_db s') o'"
    unfolding placed_def r(5) fr by (intro exI [of _ row] exI [of _ lrs]) (use r fr in simp)
  ultimately show ?thesis using r(1-4) cl(3,4) by (auto simp: ord_good_def ord_ok_def intro: evolves_trans)
qed

text \<open>What is relied on of the inventory service here: the identifier of a reservation it
  answers with is a canonical uuid.\<close>

definition canonical_holds :: "uuid_lib \<Rightarrow> 'w ord_clients \<Rightarrow> bool" where
  "canonical_holds U G \<longleftrightarrow>
     (\<forall>oid rls w res w'. ic_ReserveStock G oid rls w = (Inr res, w') \<longrightarrow> uuid_Parse U (pbr_Id res) = Inr (pbr_Id res))"

lemma gw_Reserve_Inr:
  assumes "gw_Reserve G oid req s = (Inr rid, s')"
  obtains res where "ic_ReserveStock G oid (map (\<lambda>l. (rsl_SKU l, clamp32 (rsl_Quantity l))) req) (w_ext s) = (Inr res, w_ext s')"
    "rid = pbr_Id res" "w_db s' = w_db s" "w_tx s' = w_tx s"
proof -
  from assms obtain res where r: "rpc (ic_ReserveStock G oid (map (\<lambda>l. (rsl_SKU l, clamp32 (rsl_Quantity l))) req)) s = (Inr res, s')"
      "rid = pbr_Id res"
    by (auto simp: gw_Reserve_def op_inv)
  from rpc_success [OF r(1)] r(2) that show ?thesis by blast
qed

lemma read_only_same: "read_only m \<Longrightarrow> w_db (snd (m s)) = w_db s"
  by (cases "m s") (auto dest: read_onlyD)

lemma checkout_finish_db: "w_db (snd (checkout_finish E G rid r s)) = w_db s"
proof (rule read_only_same)
  show "read_only (checkout_finish E G rid r)"
    unfolding checkout_finish_def
    by (auto intro!: read_only_andThen ord_reads_only split: sum.splits option.splits)
qed

text \<open>A checkout changes nothing, or everything its transaction writes.\<close>

lemma checkout_body_effect:
  assumes C: "codec_ok (oe_C E)" and U: "uuid_ok (oe_U E)" and G: "canonical_holds (oe_U E) G"
    and canon: "uuid_Parse (oe_U E) oid = Inr oid" "uuid_Parse (oe_U E) uid = Inr uid"
    and ok: "ord_ok (oe_U E) (oe_C E) (w_db s)" and tx: "\<not> w_tx s"
  shows "w_db (snd (checkout_body E G uid key hash oid req s)) = w_db s \<or>
    (\<exists>rid ls o'. ord_good E (w_db s) (w_db (snd (checkout_body E G uid key hash oid req s))) \<and>
       map (\<lambda>l. (oln_sku l, oln_quantity l)) ls = map (\<lambda>l. (rsl_SKU l, rsl_Quantity l)) req \<and>
       placed uid key hash oid rid ls (w_db s) (w_db (snd (checkout_body E G uid key hash oid req s))) o')"
proof -
  obtain r1 s1 where 1: "ord_replay (oe_U E) uid key hash s = (r1, s1)" by (cases "ord_replay (oe_U E) uid key hash s")
  have d1: "w_db s1 = w_db s" "\<not> w_tx s1"
    using read_onlyD [OF ord_reads_only(8) 1] keeps_txD [of "ord_replay (oe_U E) uid key hash" s] 1 tx
    by (auto intro: keeps)
  show ?thesis
  proof (cases "r1 = Inr None")
    case False
    then show ?thesis using d1 1
      by (auto simp: checkout_body_def andThen_def withResult_def fail_def ret_def split: sum.splits option.splits)
  next
    case n: True
    obtain r2 s2 where 2: "ord_price G req s1 = (r2, s2)" by (cases "ord_price G req s1")
    have d2: "w_db s2 = w_db s" "\<not> w_tx s2"
      using read_onlyD [OF ord_reads_only(7) 2] keeps_txD [of "ord_price G req" s1] 2 d1 by (auto intro: keeps)
    show ?thesis
    proof (cases r2)
      case (Inl e)
      then show ?thesis using d2 1 2 n
        by (simp add: checkout_body_def andThen_def withResult_def fail_def)
    next
      case (Inr ls)
      have good: "\<forall>l \<in> set ls. good_line l"
          "map (\<lambda>l. (oln_sku l, oln_quantity l)) ls = map (\<lambda>l. (rsl_SKU l, rsl_Quantity l)) req"
        using ord_price_Inr [of G req s1 ls s2] 2 Inr by simp_all
      obtain r3 s3 where 3: "gw_Reserve G oid req s2 = (r3, s3)" by (cases "gw_Reserve G oid req s2")
      have d3: "w_db s3 = w_db s" "\<not> w_tx s3"
        using gw_db(1) [OF 3] keeps_txD [of "gw_Reserve G oid req" s2] 3 d2 by (auto intro: keeps)
      show ?thesis
      proof (cases r3)
        case (Inl e)
        then show ?thesis using d3 1 2 3 n \<open>r2 = Inr ls\<close>
          by (simp add: checkout_body_def andThen_def withResult_def fail_def)
      next
        case (Inr rid)
        with 3 G have cr: "uuid_Parse (oe_U E) rid = Inr rid"
          unfolding canonical_holds_def by (blast elim: gw_Reserve_Inr)
        let ?tx = "checkout_tx E uid key hash oid rid ls"
        let ?R = "\<lambda>db. db = w_db s3 \<or> (\<exists>o'. ord_good E (w_db s3) db \<and> placed uid key hash oid rid ls (w_db s3) db o')"
        have t: "?R (w_db t2)" if "w_db t1 = w_db s3" "?tx t1 = (Inr x, t2)" for t1 x t2
        proof -
          have "ord_ok (oe_U E) (oe_C E) (w_db t1)" using that(1) d3 ok by simp
          from checkout_tx_Inr [OF C U this canon cr good(1) that(2)] that(1) show ?thesis by auto
        qed
        have R: "?R (w_db (snd (Do ?tx s3)))"
          by (rule Do_relates [where R = ?R]) (use t d3 in auto)
        have eq: "w_db (snd (checkout_body E G uid key hash oid req s)) = w_db (snd (Do ?tx s3))"
          using 1 2 3 n Inr \<open>r2 = Inr ls\<close>
          by (simp add: checkout_body_def andThen_def withResult_def checkout_finish_db split: prod.splits)
        show ?thesis using R good(2) unfolding eq d3(1) by blast
      qed
    qed
  qed
qed

lemma checkout_body_good:
  assumes "codec_ok (oe_C E)" and "uuid_ok (oe_U E)" and "canonical_holds (oe_U E) G"
    and "uuid_Parse (oe_U E) oid = Inr oid" "uuid_Parse (oe_U E) uid = Inr uid"
    and ok: "ord_ok (oe_U E) (oe_C E) (w_db s)" and "\<not> w_tx s"
  shows "ord_good E (w_db s) (w_db (snd (checkout_body E G uid key hash oid req s)))"
  using checkout_body_effect [OF assms] ord_goodI [OF ok] by metis

end
