(* ===== verification/OrdReads.thy ===== *)
theory OrdReads
  imports OrdProps
begin

text \<open>
  Reading orders: what \<open>GetOrder\<close> and \<open>ListOrders\<close> answer when no round trip fails, written
  over the rows of the caller alone; that nothing of another user can be told from the answers;
  and that walking the pages by their tokens yields every order of the caller once, newest first.
\<close>

subsection \<open>The answers over the caller's own rows\<close>

definition own :: "ord_db \<Rightarrow> gostring \<Rightarrow> ord_row list" where
  "own db uid = filter (\<lambda>r. or_UserID r = uid) (orders db)"

definition load :: "ord_db \<Rightarrow> ord_row \<Rightarrow> Order" where
  "load db r = ord_toDomain r (read_lines db (or_ID r))"

lemma load_simps [simp]:
  "ord_id (load db r) = or_ID r" "ord_userID (load db r) = or_UserID r" "ord_createdAt (load db r) = or_CreatedAt r"
  by (simp_all add: load_def)

lemma FindByID_calm:
  assumes "w_sched s = []" and "uuid_Parse U oid = Inr uid"
  shows "orders_FindByID U oid s =
    (case List.find (\<lambda>r. or_ID r = uid) (orders (w_db s)) of
       None \<Rightarrow> (Inl ErrOrderNotFound, s) | Some r \<Rightarrow> (Inr (load (w_db s) r), s))"
proof (cases "List.find (\<lambda>r. or_ID r = uid) (orders (w_db s))")
  case None
  with assms show ?thesis
    by (simp add: orders_FindByID_def runs ord_parseID_def sql_no_fault sql_GetOrder_def)
next
  case (Some r)
  then have "or_ID r = uid" using find_key_Some [OF Some] by simp
  with Some assms show ?thesis
    by (simp add: orders_FindByID_def runs ord_parseID_def sql_no_fault sql_GetOrder_def
        sql_GetOrderLines_def load_def read_lines_def stored_lines_def)
qed

lemma lines_by_order_calm:
  assumes "w_sched s = []"
  shows "lines_by_order what rows s = (Inr (map (load (w_db s)) rows), s)"
proof (cases "rows = []")
  case False
  let ?c = "\<lambda>l. ord_collate (w_db s) (ol_Sku l)"
  have "filter (\<lambda>l. ol_OrderID l = or_ID r) (sort_key ol_OrderID (sort_key ?c
        (filter (\<lambda>l. ol_OrderID l \<in> or_ID ` set rows) (order_lines (w_db s))))) = read_lines (w_db s) (or_ID r)"
    if "r \<in> set rows" for r
  proof -
    have "filter (\<lambda>l. ol_OrderID l = or_ID r) (filter (\<lambda>l. ol_OrderID l \<in> or_ID ` set rows) (order_lines (w_db s))) =
        stored_lines (w_db s) (or_ID r)"
      using that by (auto simp: stored_lines_def intro!: filter_cong)
    then show ?thesis
      by (simp add: filter_sort read_lines_def) (rule sort_key_constant [of _ _ "or_ID r"], auto simp: stored_lines_def)
  qed
  with False assms show ?thesis
    by (simp add: lines_by_order_def runs sql_no_fault sql_GetOrderLinesByOrderIDs_def load_def)
qed (simp add: lines_by_order_def runs)

definition newest_first :: "ord_row list \<Rightarrow> ord_row list" where
  "newest_first rs = rev (sort_key or_CreatedAt (sort_key or_ID rs))"

lemma List_calm:
  assumes "w_sched s = []" and "uuid_Parse U u = Inr uid"
  shows "orders_List U u after n s =
    (Inr (map (load (w_db s)) (take (nat (clamp32 n)) (newest_first (filter (before_cursor (ord_cursor U after)) (own (w_db s) uid))))), s)"
  using assms
  by (simp add: orders_List_def runs ord_parseID_def sql_no_fault
      sql_ListOrdersByUser_def newest_first_def own_def conj_commute lines_by_order_calm)

text \<open>The part of a database one user can see.\<close>

definition same_view :: "gostring \<Rightarrow> ord_db \<Rightarrow> ord_db \<Rightarrow> bool" where
  "same_view uid db db' \<longleftrightarrow> own db uid = own db' uid \<and>
     (\<forall>r \<in> set (own db uid). stored_lines db (or_ID r) = stored_lines db' (or_ID r)) \<and>
     ord_collate db = ord_collate db'"

lemma same_view_load: "same_view uid db db' \<Longrightarrow> r \<in> set (own db uid) \<Longrightarrow> load db r = load db' r"
  by (simp add: same_view_def load_def read_lines_def)

lemma find_own:
  assumes "distinct (map or_ID (orders db))"
  shows "(case List.find (\<lambda>r. or_ID r = oid) (orders db) of Some r \<Rightarrow> if or_UserID r = uid then Some r else None | None \<Rightarrow> None) =
    List.find (\<lambda>r. or_ID r = oid) (own db uid)"
proof (cases "List.find (\<lambda>r. or_ID r = oid) (orders db)")
  case None
  then have "List.find (\<lambda>r. or_ID r = oid) (own db uid) = None" by (auto simp: own_def find_None_iff)
  with None show ?thesis by simp
next
  case (Some r)
  note r = find_key_Some [OF Some]
  show ?thesis
  proof (cases "or_UserID r = uid")
    case True
    with r have "r \<in> set (own db uid)" by (simp add: own_def)
    moreover have "distinct (map or_ID (own db uid))"
      using assms by (simp add: own_def distinct_map_filter)
    ultimately show ?thesis using find_distinct [of or_ID "own db uid" r] r Some True by simp
  next
    case False
    have "List.find (\<lambda>r. or_ID r = oid) (own db uid) = None"
    proof (unfold find_None_iff, rule notI, elim exE conjE)
      fix x assume "x \<in> set (own db uid)" "or_ID x = oid"
      with r distinct_map_inj [OF assms, of x r] False show False by (auto simp: own_def)
    qed
    with False Some show ?thesis by simp
  qed
qed

lemma GetOrder_calm:
  assumes "w_sched s = []" and "uuid_ok U" and "distinct (map or_ID (orders (w_db s)))"
    and "ord_ParseOrderID U order_id = Inr oid" and "ord_ParseUserID U user_id = Inr uid"
  shows "ord_GetOrder U order_id user_id s =
    (case List.find (\<lambda>r. or_ID r = oid) (own (w_db s) uid) of
       None \<Rightarrow> (Inl ErrOrderNotFound, s) | Some r \<Rightarrow> (Inr (load (w_db s) r), s))"
proof -
  have "uuid_Parse U oid = Inr oid"
    using assms(2,4) ord_parseUUID_Inr by (simp add: ord_ParseOrderID_def)
  note f = FindByID_calm [OF assms(1) this]
  show ?thesis
    unfolding find_own [OF assms(3), symmetric]
    using assms(4,5) by (auto simp: ord_GetOrder_def runs f split: option.split)
qed

subsection \<open>The order of a listing\<close>

definition newer :: "ord_row \<Rightarrow> ord_row \<Rightarrow> bool" where
  "newer r r' \<longleftrightarrow> or_CreatedAt r' < or_CreatedAt r \<or> (or_CreatedAt r' = or_CreatedAt r \<and> or_ID r' < or_ID r)"

lemma sorted_wrt_classes:
  "sorted (map f l) \<Longrightarrow> (\<And>k. sorted_wrt Q (filter (\<lambda>x. f x = k) l)) \<Longrightarrow>
   sorted_wrt (\<lambda>x y. f x < f y \<or> (f x = f y \<and> Q x y)) l"
proof (induction l)
  case (Cons x l)
  have "sorted_wrt Q (filter (\<lambda>x. f x = k) l)" for k
    using Cons.prems(2) [of k] by (auto split: if_splits)
  moreover have "f x < f y \<or> (f x = f y \<and> Q x y)" if "y \<in> set l" for y
    using Cons.prems(1) Cons.prems(2) [of "f x"] that by (auto simp: order.order_iff_strict)
  ultimately show ?case using Cons by auto
qed simp

lemma newest_first_sorted:
  assumes "distinct (map or_ID rs)"
  shows "sorted_wrt newer (newest_first rs)"
proof -
  let ?l = "sort_key or_CreatedAt (sort_key or_ID rs)"
  have strict: "sorted_wrt (\<lambda>x y. or_ID x < or_ID y) (sort_key or_ID rs)"
  proof -
    have "sorted_wrt (<) (map or_ID (sort_key or_ID rs))"
      using assms by (simp add: strict_sorted_iff)
    then show ?thesis by (simp add: sorted_wrt_map)
  qed
  have "sorted_wrt (\<lambda>x y. or_CreatedAt x < or_CreatedAt y \<or> (or_CreatedAt x = or_CreatedAt y \<and> or_ID x < or_ID y)) ?l"
  proof (rule sorted_wrt_classes)
    fix k
    have "filter (\<lambda>x. or_CreatedAt x = k) ?l = filter (\<lambda>x. or_CreatedAt x = k) (sort_key or_ID rs)"
      by (rule sort_key_stable)
    then show "sorted_wrt (\<lambda>x y. or_ID x < or_ID y) (filter (\<lambda>x. or_CreatedAt x = k) ?l)"
      using strict by (simp add: sorted_wrt_filter)
  qed simp
  then show ?thesis
    by (simp add: newest_first_def sorted_wrt_rev newer_def [abs_def] conj_commute eq_commute)
qed

lemma newest_first_filter: "newest_first (filter P rs) = filter P (newest_first rs)"
  by (simp add: newest_first_def filter_sort [symmetric] rev_filter)

lemma newest_first_same [simp]: "set (newest_first rs) = set rs" "length (newest_first rs) = length rs"
  by (simp_all add: newest_first_def)

lemma newer_asym: "newer a b \<Longrightarrow> \<not> newer b a"
  by (auto simp: newer_def)

lemma after_position:
  assumes "sorted_wrt newer ms" and "k < length ms"
  shows "filter (newer (ms ! k)) ms = drop (Suc k) ms"
proof -
  let ?a = "take k ms" and ?b = "drop (Suc k) ms"
  have split: "ms = ?a @ ms ! k # ?b" using assms(2) by (rule id_take_nth_drop)
  have w: "sorted_wrt newer (?a @ ms ! k # ?b)" unfolding split [symmetric] by (rule assms(1))
  from w have a: "\<forall>x \<in> set ?a. newer x (ms ! k)" and b: "\<forall>y \<in> set ?b. newer (ms ! k) y"
    unfolding sorted_wrt_append sorted_wrt.simps(2) by (meson list.set_intros(1))+
  have "\<not> newer (ms ! k) x" if "x \<in> set ?a" for x
    using a that newer_asym by blast
  then have "filter (newer (ms ! k)) ?a = []" by (simp add: filter_empty_conv)
  moreover have "filter (newer (ms ! k)) ?b = ?b"
    using b by (simp add: filter_id_conv)
  moreover have "\<not> newer (ms ! k) (ms ! k)" by (simp add: newer_def)
  ultimately have "filter (newer (ms ! k)) (?a @ ms ! k # ?b) = ?b" by simp
  then show ?thesis unfolding split [symmetric] .
qed

subsection \<open>Cursors\<close>

lemma cut_join:
  assumes "c \<notin> set a"
  shows "strings_Cut c (a @ c # b) = Some (a, b)"
proof -
  have "takeWhile (\<lambda>x. x \<noteq> c) (a @ c # b) = a" "dropWhile (\<lambda>x. x \<noteq> c) (a @ c # b) = c # b"
    using assms by (induction a) auto
  then show ?thesis by (simp add: strings_Cut_def)
qed

lemma encodeCursor_nonempty: "encodeCursor T c \<noteq> []"
proof
  let ?x = "tt_Format T (oc_CreatedAt c) @ ''|'' @ oc_ID c"
  assume "encodeCursor T c = []"
  then have "b64_encode ?x = []" unfolding encodeCursor_def .
  with b64_roundtrip [of ?x] have "b64_decode [] = Some ?x" by (metis (no_types))
  moreover have "b64_decode [] = Some []" by code_simp
  ultimately have "?x = []" by (metis option.inject)
  then show False unfolding append_is_Nil_conv by blast
qed

lemma ParseOrderID_canonical: "uuid_ok U \<Longrightarrow> uuid_Parse U i = Inr i \<Longrightarrow> ord_ParseOrderID U i = Inr i"
  using uuid_ok_Parse [of U i i] by (auto simp: ord_ParseOrderID_def ord_parseUUID_def Let_def)

lemma decode_encode_cursor:
  assumes "uuid_ok U" and "time_text_ok T" and "uuid_Parse U (oc_ID c) = Inr (oc_ID c)"
  shows "decodeCursor U T (encodeCursor T c) = Inr (Some c)"
proof -
  have "strings_Cut (CHR ''|'') (tt_Format T (oc_CreatedAt c) @ ''|'' @ oc_ID c) = Some (tt_Format T (oc_CreatedAt c), oc_ID c)"
    using assms(2) cut_join unfolding time_text_ok_def append_Cons append_Nil by blast
  moreover have "b64_decode (encodeCursor T c) = Some (tt_Format T (oc_CreatedAt c) @ ''|'' @ oc_ID c)"
    unfolding encodeCursor_def by (rule b64_roundtrip)
  moreover have "tt_Parse T (tt_Format T (oc_CreatedAt c)) = Some (oc_CreatedAt c)"
    using assms(2) unfolding time_text_ok_def by blast
  moreover have "ord_ParseOrderID U (oc_ID c) = Inr (oc_ID c)"
    using ParseOrderID_canonical assms(1,3) by blast
  ultimately show ?thesis
    unfolding decodeCursor_def Let_def using encodeCursor_nonempty [of T c]
    by (simp only: option.case prod.case sum.case if_False) simp
qed

subsection \<open>Pages\<close>

text \<open>What a client does with the tokens: ask for the page after the last, until a page comes
  without one. \<open>fuel\<close> bounds the number of calls.\<close>

fun ord_pages ::
  "uuid_lib \<Rightarrow> time_text \<Rightarrow> gostring \<Rightarrow> int \<Rightarrow> nat \<Rightarrow> gostring \<Rightarrow> (ord_db, 'w) world \<Rightarrow> OrdersPage list" where
  "ord_pages U T u ps 0 tok s = []"
| "ord_pages U T u ps (Suc fuel) tok s =
     (case ord_ListOrders U T u ps tok s of
        (Inl e, s') \<Rightarrow> []
      | (Inr p, s') \<Rightarrow>
          p # (if pg_NextPageToken p = [] then [] else ord_pages U T u ps fuel (pg_NextPageToken p) s'))"

text \<open>What the listing relies on: identifiers are canonical and unique, and \<open>created_at\<close>, a
  \<open>timestamptz\<close>, has whole microseconds.\<close>

definition listable :: "uuid_lib \<Rightarrow> ord_db \<Rightarrow> bool" where
  "listable U db \<longleftrightarrow> distinct (map or_ID (orders db)) \<and>
     (\<forall>r \<in> set (orders db). uuid_Parse U (or_ID r) = Inr (or_ID r) \<and> pg_time (or_CreatedAt r) = or_CreatedAt r)"

definition token_at :: "time_text \<Rightarrow> ord_row list \<Rightarrow> nat \<Rightarrow> gostring" where
  "token_at T ms k = (if k = 0 then []
     else encodeCursor T \<lparr>oc_CreatedAt = or_CreatedAt (ms ! (k - 1)), oc_ID = or_ID (ms ! (k - 1))\<rparr>)"

lemma rows_after:
  assumes U: "uuid_ok U" and T: "time_text_ok T" and db: "listable U db" and k: "k \<le> length (own db uid)"
  shows "\<exists>after. decodeCursor U T (token_at T (newest_first (own db uid)) k) = Inr after \<and>
    newest_first (filter (before_cursor (ord_cursor U after)) (own db uid)) = drop k (newest_first (own db uid))"
proof (cases "k = 0")
  case True
  then show ?thesis by (simp add: token_at_def decodeCursor_def ord_cursor_def before_cursor_def)
next
  case False
  let ?ms = "newest_first (own db uid)"
  let ?r = "?ms ! (k - 1)" and ?c = "\<lparr>oc_CreatedAt = or_CreatedAt (?ms ! (k - 1)), oc_ID = or_ID (?ms ! (k - 1))\<rparr>"
  have i: "k - 1 < length ?ms" using False k by simp
  then have "?r \<in> set (own db uid)" using nth_mem [OF i] by simp
  then have r: "uuid_Parse U (or_ID ?r) = Inr (or_ID ?r)" "pg_time (or_CreatedAt ?r) = or_CreatedAt ?r"
    using db by (auto simp: own_def listable_def)
  have "distinct (map or_ID (own db uid))"
    using db by (simp add: own_def listable_def distinct_map_filter)
  from after_position [OF newest_first_sorted [OF this] i]
  have "filter (newer ?r) ?ms = drop k ?ms" using False by simp
  moreover have "before_cursor (ord_cursor U (Some ?c)) = newer ?r"
    using r by (intro ext) (simp add: before_cursor_def ord_cursor_def newer_def)
  ultimately have "newest_first (filter (before_cursor (ord_cursor U (Some ?c))) (own db uid)) = drop k ?ms"
    by (simp only: newest_first_filter)
  moreover have "decodeCursor U T (token_at T ?ms k) = Inr (Some ?c)"
    using decode_encode_cursor [OF U T, of ?c] r(1) False by (simp add: token_at_def)
  ultimately show ?thesis by blast
qed

lemma page_size_range: "1 \<le> ord_page_size ps" "ord_page_size ps \<le> 100"
  by (auto simp: ord_page_size_def ord_defaultPageSize_def ord_maxPageSize_def)

lemma ListOrders_calm:
  assumes s: "w_sched s = []" and U: "uuid_ok U" and T: "time_text_ok T" and db: "listable U (w_db s)"
    and user: "ord_ParseUserID U user_id = Inr uid" and k: "k \<le> length (own (w_db s) uid)"
  defines "ms \<equiv> newest_first (own (w_db s) uid)"
  fixes ps :: int
  defines "n \<equiv> nat (ord_page_size ps)"
  shows "ord_ListOrders U T user_id ps (token_at T ms k) s =
    (Inr \<lparr>pg_Orders = map (load (w_db s)) (take n (drop k ms)),
          pg_NextPageToken = (if k + n < length ms then token_at T ms (k + n) else [])\<rparr>, s)"
proof -
  obtain after where a: "decodeCursor U T (token_at T ms k) = Inr after"
      "newest_first (filter (before_cursor (ord_cursor U after)) (own (w_db s) uid)) = drop k ms"
    using rows_after [OF U T db k] unfolding ms_def by blast
  have p: "uuid_Parse U uid = Inr uid"
    using user U ord_parseUUID_Inr by (simp add: ord_ParseUserID_def)
  have n: "1 \<le> n" "int n = ord_page_size ps" using page_size_range [of ps] by (simp_all add: n_def)
  have c: "nat (clamp32 (ord_page_size ps + 1)) = Suc n"
    using page_size_range [of ps] by (simp add: clamp32_def MaxInt32_def n_def nat_add_distrib)
  have km: "k \<le> length ms" using k by (simp add: ms_def)
  have "ord_page T (ord_page_size ps) (map (load (w_db s)) (take (Suc n) (drop k ms))) =
     \<lparr>pg_Orders = map (load (w_db s)) (take n (drop k ms)),
      pg_NextPageToken = (if k + n < length ms then token_at T ms (k + n) else [])\<rparr>"
  proof (cases "k + n < length ms")
    case True
    then have "map (load (w_db s)) (take (Suc n) (drop k ms)) ! (n - 1) = load (w_db s) (ms ! (k + n - 1))"
      using n(1) by simp
    with True n c show ?thesis
      by (simp add: ord_page_def Let_def token_at_def n_def [symmetric] take_map nat_diff_distrib min_def)
  next
    case False
    with km n show ?thesis by (simp add: ord_page_def Let_def)
  qed
  with user a c show ?thesis
    by (simp add: ord_ListOrders_def runs List_calm [OF s p] Let_def)
qed

lemma token_at_nonempty [simp]: "token_at T ms k = [] \<longleftrightarrow> k = 0"
  by (simp add: token_at_def encodeCursor_nonempty)

lemma ord_pages_from:
  assumes s: "w_sched s = []" and U: "uuid_ok U" and T: "time_text_ok T" and db: "listable U (w_db s)"
    and user: "ord_ParseUserID U user_id = Inr uid"
  fixes ps :: int
  defines "ms \<equiv> newest_first (own (w_db s) uid)" and "n \<equiv> nat (ord_page_size ps)"
  assumes "k \<le> length ms" and "length ms - k < fuel"
  shows "let pages = ord_pages U T user_id ps fuel (token_at T ms k) s in
    concat (map pg_Orders pages) = map (load (w_db s)) (drop k ms) \<and> pages \<noteq> [] \<and>
    pg_NextPageToken (last pages) = [] \<and> (\<forall>p \<in> set pages. length (pg_Orders p) \<le> n) \<and>
    length pages \<le> (length ms - k) div n + 1"
  using assms(8,9)
proof (induction fuel arbitrary: k)
  case (Suc fuel)
  have n: "1 \<le> n" using page_size_range(1) [of ps] by (simp add: n_def)
  from Suc.prems have "k \<le> length (own (w_db s) uid)" by (simp add: ms_def)
  note page = ListOrders_calm [OF s U T db user this, of ps, folded ms_def n_def]
  show ?case
  proof (cases "k + n < length ms")
    case True
    let ?rest = "ord_pages U T user_id ps fuel (token_at T ms (k + n)) s"
    have "length ms - (k + n) < fuel" "k + n \<le> length ms" using Suc.prems(2) True n by linarith+
    note IH = Suc.IH [OF this(2,1), unfolded Let_def]
    have "drop k ms = take n (drop k ms) @ drop (k + n) ms" by (metis add.commute append_take_drop_id drop_drop)
    moreover have "(length ms - k) div n = Suc ((length ms - (k + n)) div n)"
      using True n by (simp add: div_if)
    ultimately show ?thesis
      using True IH n page by (simp add: Let_def) (metis map_append)
  next
    case False
    then show ?thesis using n page Suc.prems(1) by (simp add: Let_def)
  qed
qed simp

end
