(* ===== verification/OrdClaims.thy ===== *)
theory OrdClaims
  imports OrdProps OrdReads OrdServer
begin

text \<open>
  The claims about the order service: a request is anything that reaches it, a call, a message or
  a sweep, and a history is a list of requests, each under whatever faults the schedule holds.
\<close>

subsection \<open>Requests\<close>

datatype ord_req =
  ReqCheckout gostring CheckoutCommand
| ReqGet gostring gostring
| ReqList gostring int gostring
| ReqOrderEvent gostring
| ReqPaymentEvent gostring
| ReqSweep ord_policy "gostring list" int

record 'w ord_app =
  oa_E :: ord_env
  oa_G :: "'w ord_clients"
  oa_H :: "gostring \<Rightarrow> gostring"
  oa_T :: time_text

fun ord_exec :: "'w ord_app \<Rightarrow> ord_req \<Rightarrow> (ord_db, 'w) world \<Rightarrow> (ord_db, 'w) world" where
  "ord_exec A (ReqCheckout new_id cmd) s = snd (ord_Checkout (oa_E A) (oa_G A) (oa_H A) new_id cmd s)"
| "ord_exec A (ReqGet oid uid) s = snd (ord_GetOrder (oe_U (oa_E A)) oid uid s)"
| "ord_exec A (ReqList uid n tok) s = snd (ord_ListOrders (oe_U (oa_E A)) (oa_T A) uid n tok s)"
| "ord_exec A (ReqOrderEvent msg) s = snd (order_events_Handle (oe_U (oa_E A)) (oe_C (oa_E A)) (oa_G A) msg s)"
| "ord_exec A (ReqPaymentEvent msg) s = snd (payment_events_Handle (oa_E A) msg s)"
| "ord_exec A (ReqSweep pol locked limit) s = snd (ord_ExpireStaleOrders (oa_E A) pol locked limit s)"

text \<open>What is relied on: the uuid library, protobuf, the identifiers inventory answers with, and
  that a minted order id is a canonical uuid.\<close>

definition ord_app_ok :: "'w ord_app \<Rightarrow> bool" where
  "ord_app_ok A \<longleftrightarrow> uuid_ok (oe_U (oa_E A)) \<and> codec_ok (oe_C (oa_E A)) \<and>
     canonical_holds (oe_U (oa_E A)) (oa_G A)"

fun minted :: "uuid_lib \<Rightarrow> ord_req \<Rightarrow> bool" where
  "minted U (ReqCheckout new_id cmd) = (uuid_Parse U new_id = Inr new_id)"
| "minted U _ = True"

lemma mapErr_state [simp]: "snd (mapErr h m s) = snd (m s)"
  by (simp add: mapErr_def withResult_def fail_def ret_def split: prod.splits sum.splits)

lemma fail_state [simp]: "snd (fail e s) = s" "snd (ret x s) = s"
  by (simp_all add: fail_def ret_def)

lemma keeps_ord_requests [keeps]:
  "keeps_tx (checkout_body E G u k h oid req)"
  "keeps_tx (ord_GetOrder U o1 u)" "keeps_tx (ord_ListOrders U T u n tok)"
  "keeps_tx (saga_MarkPaid E ev)" "keeps_tx (saga_CommitReservation U G rsv)"
  "keeps_tx (saga_ReleaseReservation U G rsv)" "keeps_tx (ord_ExpireStaleOrders E pol locked limit)"
  unfolding checkout_body_def ord_GetOrder_def ord_ListOrders_def saga_MarkPaid_def mark_paid_tx_def
    saga_CommitReservation_def saga_ReleaseReservation_def saga_claimThen_def claim_then_tx_def
    ord_ExpireStaleOrders_def Let_def
  by (intro keeps)+

lemma keeps_ord_requests2 [keeps]:
  "keeps_tx (ord_Checkout E G H new_id cmd)"
  "keeps_tx (order_events_Handle U C G msg)" "keeps_tx (payment_events_Handle E msg)"
  unfolding ord_Checkout_def order_events_Handle_def payment_events_Handle_def handleOrderPaid_def
    handleOrderCancelled_def handlePaymentSucceeded_def handlePaymentFailed_def
  by (auto intro!: keeps split: option.splits pb_event.splits sum.splits)

lemma ord_exec_tx: "w_tx (ord_exec A req s) = w_tx s"
  by (cases req) (auto intro!: keeps_txD keeps)

lemma tx_good:
  assumes "\<And>t x t'. ord_ok (oe_U E) (oe_C E) (w_db t) \<Longrightarrow> fn t = (Inr x, t') \<Longrightarrow> ord_good E (w_db t) (w_db t')"
    and ok: "ord_ok (oe_U E) (oe_C E) (w_db s)" and tx: "\<not> w_tx s"
  shows "ord_good E (w_db s) (w_db (snd (Do fn s)))"
proof (rule Do_relates [where R = "ord_good E (w_db s)", OF _ _ tx])
  fix s1 x s2
  assume "w_db s1 = w_db s" "fn s1 = (Inr x, s2)"
  with assms(1) [of s1 x s2] ok show "ord_good E (w_db s) (w_db s2)" by simp
next
  from ok show "ord_good E (w_db s) (w_db s)" by (rule ord_goodI)
qed

lemma saga_MarkPaid_good:
  assumes C: "codec_ok (oe_C E)" and ok: "ord_ok (oe_U E) (oe_C E) (w_db s)" and tx: "\<not> w_tx s"
  shows "ord_good E (w_db s) (w_db (snd (saga_MarkPaid E ev s)))"
proof -
  have "ord_good E (w_db s) (w_db (snd (Do (mark_paid_tx E (pse_EventID ev) oid) s)))" for oid
    by (rule tx_good [OF _ ok tx]) (rule mark_paid_good [OF C])
  then show ?thesis using ok by (simp add: saga_MarkPaid_def pure_then ord_goodI split: sum.splits)
qed

lemma saga_claimThen_good:
  assumes call: "\<And>rid. read_only (call rid)" and ok: "ord_ok (oe_U E) (oe_C E) (w_db s)" and tx: "\<not> w_tx s"
  shows "ord_good E (w_db s) (w_db (snd (saga_claimThen U ev rid call s)))"
proof -
  have "ord_good E (w_db s) (w_db (snd (Do (claim_then_tx ev (call p)) s)))" for p
    by (rule tx_good [OF _ ok tx]) (rule claim_then_good [OF _ call])
  then show ?thesis using ok by (simp add: saga_claimThen_def pure_then ord_goodI split: sum.splits)
qed

lemma ord_sweep_good:
  assumes C: "codec_ok (oe_C E)" and ok: "ord_ok (oe_U E) (oe_C E) (w_db s)" and tx: "\<not> w_tx s"
  shows "ord_good E (w_db s) (w_db (snd (ord_ExpireStaleOrders E pol locked limit s)))"
  unfolding ord_ExpireStaleOrders_def Let_def
  by (rule tx_good [OF sweep_tx_exact [OF C, THEN conjunct1] ok tx])

lemma ord_calls_read:
  "read_only (ord_GetOrder U oid uid)" "read_only (ord_ListOrders U T uid n tok)"
  unfolding ord_GetOrder_def ord_ListOrders_def Let_def
  by (auto intro!: read_only_andThen ord_reads_only)

lemma ord_Checkout_good:
  assumes A: "uuid_ok (oe_U E)" "codec_ok (oe_C E)" "canonical_holds (oe_U E) G"
    and new: "uuid_Parse (oe_U E) new_id = Inr new_id"
    and ok: "ord_ok (oe_U E) (oe_C E) (w_db s)" and tx: "\<not> w_tx s"
  shows "ord_good E (w_db s) (w_db (snd (ord_Checkout E G H new_id cmd s)))"
proof (cases "ord_ParseUserID (oe_U E) (ck_UserID cmd)")
  case (Inl e)
  with ok show ?thesis by (simp add: ord_Checkout_def pure_then ord_goodI)
next
  case (Inr uid)
  then have "uuid_Parse (oe_U E) uid = Inr uid"
    using ord_parseUUID_Inr A(1) by (simp add: ord_ParseUserID_def)
  with checkout_body_good [OF A(2,1,3) new _ ok tx] Inr ok show ?thesis
    by (simp add: ord_Checkout_def pure_then ord_goodI split: sum.splits)
qed

lemma ord_exec_good:
  assumes A: "ord_app_ok A" and new: "minted (oe_U (oa_E A)) req"
    and ok: "ord_ok (oe_U (oa_E A)) (oe_C (oa_E A)) (w_db s)" and tx: "\<not> w_tx s"
  shows "ord_good (oa_E A) (w_db s) (w_db (ord_exec A req s))"
proof (cases req)
  case (ReqCheckout new_id cmd)
  with ord_Checkout_good [OF _ _ _ _ ok tx] A new show ?thesis by (simp add: ord_app_ok_def)
next
  case (ReqGet oid uid)
  then show ?thesis using ok by (simp add: read_only_same [OF ord_calls_read(1)] ord_goodI)
next
  case (ReqList uid n tok)
  then show ?thesis using ok by (simp add: read_only_same [OF ord_calls_read(2)] ord_goodI)
next
  case (ReqOrderEvent msg)
  with saga_claimThen_good [OF read_only_gateways(2) ok tx] saga_claimThen_good [OF read_only_gateways(3) ok tx] ok
  show ?thesis
    by (auto simp: order_events_Handle_def handleOrderPaid_def handleOrderCancelled_def
        saga_CommitReservation_def saga_ReleaseReservation_def ord_goodI
        split: option.splits pb_event.splits sum.splits)
next
  case (ReqPaymentEvent msg)
  with saga_MarkPaid_good [OF _ ok tx] A ok show ?thesis
    by (auto simp: payment_events_Handle_def handlePaymentSucceeded_def handlePaymentFailed_def
        ord_app_ok_def ord_goodI split: option.splits pb_event.splits sum.splits)
next
  case (ReqSweep pol locked limit)
  with ord_sweep_good [OF _ ok tx] A show ?thesis by (simp add: ord_app_ok_def)
qed

lemma ord_history_good:
  assumes A: "ord_app_ok A" and new: "\<forall>req \<in> set reqs. minted (oe_U (oa_E A)) req"
    and ok: "ord_ok (oe_U (oa_E A)) (oe_C (oa_E A)) (w_db s)" and tx: "\<not> w_tx s"
  shows "ord_good (oa_E A) (w_db s) (w_db (fold (ord_exec A) reqs s)) \<and> \<not> w_tx (fold (ord_exec A) reqs s)"
  using new ok tx
proof (induction reqs arbitrary: s)
  case Nil
  then show ?case by (simp add: ord_goodI)
next
  case (Cons req reqs)
  have g: "ord_good (oa_E A) (w_db s) (w_db (ord_exec A req s))"
    by (rule ord_exec_good [OF A]) (use Cons.prems in auto)
  then have "ord_good (oa_E A) (w_db (ord_exec A req s)) (w_db (fold (ord_exec A) reqs (ord_exec A req s))) \<and>
      \<not> w_tx (fold (ord_exec A) reqs (ord_exec A req s))"
    using Cons.prems by (intro Cons.IH) (auto simp: ord_good_def ord_exec_tx)
  with g show ?case by (auto simp: ord_good_def intro: evolves_trans)
qed

subsection \<open>A shop the witnesses run on\<close>

text \<open>An empty order database and a client pair that prices one SKU and answers every hold with
  one reservation; what the gateways did is kept as a list of texts.\<close>

definition shop_user :: gostring where "shop_user = ''00000000-0000-0000-0000-0000000000e1''"
definition shop_order :: gostring where "shop_order = ''00000000-0000-0000-0000-0000000000a2''"
definition shop_other :: gostring where "shop_other = ''00000000-0000-0000-0000-0000000000a3''"
definition shop_hold :: gostring where "shop_hold = ''00000000-0000-0000-0000-0000000000b3''"

definition shop_reservation :: pb_Reservation where
  "shop_reservation =
     \<lparr>pbr_Id = shop_hold, pbr_OrderId = shop_order, pbr_Lines = [], pbr_Status = RESERVATION_STATUS_HELD,
      pbr_ExpiresAt = 0, pbr_CreatedAt = 0, pbr_UpdatedAt = 0\<rparr>"

definition shop_clients :: "string list ord_clients" where
  "shop_clients =
     \<lparr>cc_GetVariantsBySKUs = (\<lambda>skus w.
        (Inr [\<lparr>pbv_Sku = ''MUG-RED'', pbv_Price = \<lparr>mny_AmountMinor = 1050, mny_CurrencyCode = ''THB''\<rparr>\<rparr>], w)),
      ic_ReserveStock = (\<lambda>oid ls w. (Inr shop_reservation, w @ [''reserve''])),
      ic_CommitReservation = (\<lambda>rid w. (Inr shop_reservation, w @ [''commit''])),
      ic_ReleaseReservation = (\<lambda>rid w. (Inr shop_reservation, w @ [''release'']))\<rparr>"

definition shop_placed :: Envelope where
  "shop_placed =
     \<lparr>env_EventId = ''e'', env_EventType = ''OrderPlaced'', env_AggregateId = shop_order, env_Version = 1,
      env_OccurredAt = 7000, env_CorrelationId = [], env_Traceparent = [],
      env_Payload = Some (PbOrderPlaced shop_order shop_user shop_hold
        [\<lparr>evl_Sku = ''MUG-RED'', evl_Quantity = 2, evl_UnitPrice = \<lparr>mny_AmountMinor = 1050, mny_CurrencyCode = ''THB''\<rparr>\<rparr>]
        \<lparr>mny_AmountMinor = 2100, mny_CurrencyCode = ''THB''\<rparr> 7000)\<rparr>"

definition shop_cancelled :: Envelope where
  "shop_cancelled =
     \<lparr>env_EventId = ''e'', env_EventType = ''OrderCancelled'', env_AggregateId = shop_order, env_Version = 2,
      env_OccurredAt = 7000, env_CorrelationId = [], env_Traceparent = [],
      env_Payload = Some (PbOrderCancelled shop_order shop_user shop_hold 7000)\<rparr>"

definition shop_env :: ord_env where
  "shop_env = \<lparr>oe_U = canonical_uuids, oe_C = table_codec [shop_placed, shop_cancelled], oe_headers = [],
     oe_event_id = (\<lambda>oid v i. ''e''), oe_line_id = (\<lambda>oid i. show_nat i)\<rparr>"

definition shop_time :: time_text where
  "shop_time = \<lparr>tt_Format = show_int,
     tt_Parse = (\<lambda>s. Some (if s \<noteq> [] \<and> hd s = CHR ''-'' then - int (read_nat (tl s)) else int (read_nat s)))\<rparr>"

lemma shop_time_ok: "time_text_ok shop_time"
proof -
  have "tt_Parse shop_time (show_int t) = Some t" for t
  proof (cases "t < 0")
    case True
    then show ?thesis by (simp add: shop_time_def show_int_def read_show_nat del: read_nat.simps)
  next
    case False
    have "show_nat (nat t) = [] \<or> digit (hd (show_nat (nat t)))"
      using show_nat_digits [of "hd (show_nat (nat t))" "nat t"] by (cases "show_nat (nat t)") auto
    then have "show_nat (nat t) = [] \<or> hd (show_nat (nat t)) \<noteq> CHR ''-''"
      using dash_not_digit by metis
    with False show ?thesis by (auto simp: shop_time_def show_int_def read_show_nat simp del: read_nat.simps)
  qed
  moreover have "CHR ''|'' \<notin> set (show_int t)" for t
    using show_int_chars [of "CHR ''|''" t] by (auto simp: digit_def less_eq_char_def)
  ultimately show ?thesis by (simp add: time_text_ok_def) (simp add: shop_time_def)
qed

definition shop :: "string list ord_app" where
  "shop = \<lparr>oa_E = shop_env, oa_G = shop_clients, oa_H = (\<lambda>s. s), oa_T = shop_time\<rparr>"

definition shop_db :: ord_db where
  "shop_db = \<lparr>outbox = [], outbox_next = 1, processed_events = [], db_now = 7000, orders = [], order_lines = [],
     idempotency_keys = [], ord_collate = (\<lambda>s. s)\<rparr>"

definition shop_world :: "(ord_db, string list) world" where
  "shop_world = \<lparr>w_db = shop_db, w_ext = [], w_sched = [], w_tx = False\<rparr>"

definition shop_cart :: CheckoutCommand where
  "shop_cart = \<lparr>ck_UserID = shop_user, ck_IdempotencyKey = ''k'',
     ck_Lines = [\<lparr>ckl_SKU = '' mug-red'', ckl_Quantity = 2\<rparr>]\<rparr>"

lemma shop_ids: "canonical_uuid shop_user" "canonical_uuid shop_order" "canonical_uuid shop_other" "canonical_uuid shop_hold"
  by code_simp+

lemma shop_ok: "ord_app_ok shop"
proof -
  have "canonical_holds canonical_uuids shop_clients"
    using shop_ids by (simp add: canonical_holds_def shop_clients_def shop_reservation_def canonical_uuids_def)
  then show ?thesis by (simp add: ord_app_ok_def shop_def shop_env_def uuid_ok_canonical table_codec_ok)
qed

lemma shop_db_ok: "ord_ok (oe_U (oa_E shop)) (oe_C (oa_E shop)) (w_db shop_world)"
  by (simp add: ord_ok_def ord_rows_ok_def ord_keys_ok_def shop_world_def shop_db_def)

lemma shop_minted: "minted (oe_U (oa_E shop)) (ReqCheckout shop_order c)" "minted (oe_U (oa_E shop)) (ReqCheckout shop_other c)"
  using shop_ids by (simp_all add: shop_def shop_env_def canonical_uuids_def)

definition shop_sold :: "(ord_db, string list) world" where
  "shop_sold = ord_exec shop (ReqCheckout shop_order shop_cart) shop_world"

lemma shop_sold_facts:
  "map or_ID (orders (w_db shop_sold)) = [shop_order]" "map or_TotalAmountMinor (orders (w_db shop_sold)) = [2100]"
  "length (outbox (w_db shop_sold)) = 1" "w_ext shop_sold = [''reserve'']"
  by code_simp+

lemma shop_sold_ok:
  "ord_ok (oe_U (oa_E shop)) (oe_C (oa_E shop)) (w_db shop_sold)" "\<not> w_tx shop_sold"
proof -
  have tx: "\<not> w_tx shop_world" by (simp add: shop_world_def)
  from ord_exec_good [OF shop_ok shop_minted(1) shop_db_ok tx]
  show "ord_ok (oe_U (oa_E shop)) (oe_C (oa_E shop)) (w_db shop_sold)"
    unfolding shop_sold_def ord_good_def by blast
  show "\<not> w_tx shop_sold" unfolding shop_sold_def ord_exec_tx by (rule tx)
qed

subsection \<open>The books of orders\<close>

text \<open>C11. Orders are what they say they are. From consistent books, whatever requests follow and
  whichever of their round trips fail or lose their answer: every stored total is the exact sum of
  the stored lines, all of them in its one currency; the messages in the outbox about an order are
  one \<open>OrderPlaced\<close>, followed by one \<open>OrderPaid\<close> exactly when the row is paid and one
  \<open>OrderCancelled\<close> exactly when it is cancelled, each decoding to that order, user, reservation and
  total; no two orders share an id or a hold; and an idempotency key answers with an order of the
  user who used it.\<close>

theorem order_books:
  assumes "ord_app_ok A" and "\<forall>req \<in> set reqs. minted (oe_U (oa_E A)) req"
    and "ord_ok (oe_U (oa_E A)) (oe_C (oa_E A)) (w_db s)" and "\<not> w_tx s"
  shows "let db = w_db (fold (ord_exec A) reqs s) in
    distinct (map or_ID (orders db)) \<and> distinct (map or_ReservationID (orders db)) \<and>
    (\<forall>r \<in> set (orders db).
       (let ls = filter (\<lambda>l. ol_OrderID l = or_ID r) (order_lines db) in
         or_TotalAmountMinor r = (\<Sum>l\<leftarrow>ls. ol_UnitPriceAmountMinor l * ol_Quantity l) \<and>
         ls \<noteq> [] \<and> (\<forall>l \<in> set ls. ol_UnitPriceCurrency l = or_TotalCurrency r)) \<and>
       list_all2 (says (oe_C (oa_E A)) r)
         (''OrderPlaced'' # (if or_Status r = ''paid'' then [''OrderPaid'']
            else if or_Status r = ''cancelled'' then [''OrderCancelled''] else []))
         (filter (\<lambda>b. ob_AggregateID b = or_ID r) (outbox db))) \<and>
    (\<forall>k \<in> set (idempotency_keys db).
       \<exists>r \<in> set (orders db). or_ID r = ik_OrderID k \<and> or_UserID r = ik_UserID k)"
proof -
  from ord_history_good [OF assms]
  have "ord_ok (oe_U (oa_E A)) (oe_C (oa_E A)) (w_db (fold (ord_exec A) reqs s))"
    by (simp add: ord_good_def)
  then show ?thesis
    by (simp add: Let_def ord_ok_def ord_rows_ok_def ord_keys_ok_def adds_up_def stored_lines_def
        oline_value_def [abs_def] told_def ord_story_def about_order_def)
qed

theorem order_books_witness:
  "\<exists>r. orders (w_db (fold (ord_exec shop) [ReqCheckout shop_order shop_cart] shop_world)) = [r] \<and>
     or_TotalAmountMinor r = (\<Sum>l\<leftarrow>filter (\<lambda>l. ol_OrderID l = or_ID r) (order_lines (w_db shop_sold)).
       ol_UnitPriceAmountMinor l * ol_Quantity l)"
proof -
  obtain r where r: "orders (w_db shop_sold) = [r]"
    using shop_sold_facts(1) by (cases "orders (w_db shop_sold)") auto
  have sold: "fold (ord_exec shop) [ReqCheckout shop_order shop_cart] shop_world = shop_sold"
    by (simp add: shop_sold_def del: ord_exec.simps)
  from order_books [OF shop_ok _ shop_db_ok, of "[ReqCheckout shop_order shop_cart]", unfolded sold] shop_minted r
  show ?thesis unfolding sold by (auto simp: Let_def shop_world_def)
qed

text \<open>The claims of idempotency keys are meant to be swept: the order service has the statement for it,
  \<open>DeleteExpiredIdempotencyKeys\<close>, which nothing in the repository calls yet. A step is a request or
  that statement.\<close>

fun ord_step :: "'w ord_app \<Rightarrow> ord_req + gotime \<Rightarrow> (ord_db, 'w) world \<Rightarrow> (ord_db, 'w) world" where
  "ord_step A (Inl req) s = ord_exec A req s"
| "ord_step A (Inr t) s = snd (sql (sql_DeleteExpiredIdempotencyKeys t) s)"

definition survives :: "gotime set \<Rightarrow> ord_db \<Rightarrow> ord_db \<Rightarrow> bool" where
  "survives ts db db' \<longleftrightarrow> evolves (db\<lparr>idempotency_keys := []\<rparr>) (db'\<lparr>idempotency_keys := []\<rparr>) \<and>
     (\<forall>k \<in> set (idempotency_keys db). k \<in> set (idempotency_keys db') \<or> (\<exists>t \<in> ts. ik_CreatedAt k < pg_time t))"

lemma survives_evolves: "evolves db db' \<Longrightarrow> survives ts db db'"
  by (auto simp: survives_def evolves_def)

lemma survives_trans:
  assumes "survives T1 a b" and "survives T2 b c" and "T1 \<subseteq> T" and "T2 \<subseteq> T"
  shows "survives T a c"
  using assms evolves_trans unfolding survives_def by blast

lemma key_sweep:
  assumes "ord_ok U C (w_db s)"
  shows "ord_ok U C (w_db (snd (sql (sql_DeleteExpiredIdempotencyKeys t) s)))"
    "survives {t} (w_db s) (w_db (snd (sql (sql_DeleteExpiredIdempotencyKeys t) s)))"
    "w_tx (snd (sql (sql_DeleteExpiredIdempotencyKeys t) s)) = w_tx s"
proof -
  let ?db = "(w_db s)\<lparr>idempotency_keys := filter (\<lambda>k. \<not> ik_CreatedAt k < pg_time t) (idempotency_keys (w_db s))\<rparr>"
  have "ord_ok U C ?db"
    using assms by (auto simp: ord_ok_def ord_rows_ok_def ord_keys_ok_def told_def about_order_def adds_up_def
        stored_lines_def distinct_map_filter)
  moreover have "survives {t} (w_db s) ?db" "survives {t} (w_db s) (w_db s)" by (simp_all add: survives_def)
  moreover have "w_db (snd (sql (sql_DeleteExpiredIdempotencyKeys t) s)) \<in> {w_db s, ?db}"
    "w_tx (snd (sql (sql_DeleteExpiredIdempotencyKeys t) s)) = w_tx s"
    by (auto simp: sql_def sql_DeleteExpiredIdempotencyKeys_def next_outcome_def
        split: prod.splits outcome.splits list.splits)
  ultimately show "ord_ok U C (w_db (snd (sql (sql_DeleteExpiredIdempotencyKeys t) s)))"
    "survives {t} (w_db s) (w_db (snd (sql (sql_DeleteExpiredIdempotencyKeys t) s)))"
    "w_tx (snd (sql (sql_DeleteExpiredIdempotencyKeys t) s)) = w_tx s"
    using assms by auto
qed

lemma ord_steps_survive:
  assumes A: "ord_app_ok A" and new: "\<forall>req. Inl req \<in> set steps \<longrightarrow> minted (oe_U (oa_E A)) req"
    and ok: "ord_ok (oe_U (oa_E A)) (oe_C (oa_E A)) (w_db s)" and tx: "\<not> w_tx s"
  shows "survives {t. Inr t \<in> set steps} (w_db s) (w_db (fold (ord_step A) steps s))"
  using new ok tx
proof (induction steps arbitrary: s)
  case Nil
  then show ?case by (simp add: survives_evolves)
next
  case (Cons step steps)
  have now: "ord_ok (oe_U (oa_E A)) (oe_C (oa_E A)) (w_db (ord_step A step s))"
    "survives {t. Inr t = step} (w_db s) (w_db (ord_step A step s))" "w_tx (ord_step A step s) = w_tx s"
  proof (atomize (full), cases step)
    case (Inl req)
    with ord_exec_good [OF A _ Cons.prems(2,3), of req] Cons.prems(1)
    show "ord_ok (oe_U (oa_E A)) (oe_C (oa_E A)) (w_db (ord_step A step s)) \<and>
      survives {t. Inr t = step} (w_db s) (w_db (ord_step A step s)) \<and> w_tx (ord_step A step s) = w_tx s"
      by (simp add: ord_good_def survives_evolves ord_exec_tx)
  next
    case (Inr t)
    with key_sweep [OF Cons.prems(2), of t]
    show "ord_ok (oe_U (oa_E A)) (oe_C (oa_E A)) (w_db (ord_step A step s)) \<and>
      survives {t. Inr t = step} (w_db s) (w_db (ord_step A step s)) \<and> w_tx (ord_step A step s) = w_tx s"
      by simp
  qed
  have "survives {t. Inr t \<in> set steps} (w_db (ord_step A step s)) (w_db (fold (ord_step A) steps (ord_step A step s)))"
    using Cons.prems now by (intro Cons.IH) auto
  from survives_trans [OF now(2) this, of "{t. Inr t \<in> set (step # steps)}"] show ?case by auto
qed

text \<open>C12. Nothing about an order is lost or taken back. Whatever requests and key sweeps follow, in
  any mix and under whatever faults, every order that was stored is still stored with the user, the
  hold, the total and the creation time it had; a settled order keeps its row to the last column; an
  order that was waiting either still is or has moved once, its version one higher; its lines and its
  announcements are still there. A key is still there unless one of the sweeps had a
  cutoff later than the key: a key is gone only for its age.\<close>

theorem orders_settle_for_good:
  assumes "ord_app_ok A" and "\<forall>req. Inl req \<in> set steps \<longrightarrow> minted (oe_U (oa_E A)) req"
    and "ord_ok (oe_U (oa_E A)) (oe_C (oa_E A)) (w_db s)" and "\<not> w_tx s"
    and "r \<in> set (orders (w_db s))"
  shows "let db = w_db s; db' = w_db (fold (ord_step A) steps s) in
    (\<exists>r' \<in> set (orders db').
       or_ID r' = or_ID r \<and> or_UserID r' = or_UserID r \<and> or_ReservationID r' = or_ReservationID r \<and>
       or_TotalAmountMinor r' = or_TotalAmountMinor r \<and> or_CreatedAt r' = or_CreatedAt r \<and>
       (or_Status r \<in> {''paid'', ''cancelled''} \<longrightarrow> r' = r) \<and>
       (r' \<noteq> r \<longrightarrow> or_Status r' \<in> {''paid'', ''cancelled''} \<and> or_Version r' = or_Version r + 1)) \<and>
    set (order_lines db) \<subseteq> set (order_lines db') \<and> set (outbox db) \<subseteq> set (outbox db') \<and>
    (\<forall>k \<in> set (idempotency_keys db). k \<in> set (idempotency_keys db') \<or>
       (\<exists>t. Inr t \<in> set steps \<and> ik_CreatedAt k < pg_time t))"
proof -
  let ?db' = "w_db (fold (ord_step A) steps s)"
  from ord_steps_survive [OF assms(1-4)]
  have sv: "survives {t. Inr t \<in> set steps} (w_db s) ?db'" .
  then have ev: "evolves ((w_db s)\<lparr>idempotency_keys := []\<rparr>) (?db'\<lparr>idempotency_keys := []\<rparr>)"
    by (simp add: survives_def)
  have "r \<in> set (orders ((w_db s)\<lparr>idempotency_keys := []\<rparr>))" using assms(5) by simp
  from evolves_row [OF ev this] obtain r' where r': "r' \<in> set (orders ?db')" "row_moves r r'" by auto
  from r'(2) have "or_Status r \<in> {''paid'', ''cancelled''} \<longrightarrow> r' = r"
      "r' \<noteq> r \<longrightarrow> or_Status r' \<in> {''paid'', ''cancelled''} \<and> or_Version r' = or_Version r + 1"
    unfolding row_moves_def by (cases r; cases r'; auto)+
  with r'(1) row_moves_same [OF r'(2)] ev sv show ?thesis
    unfolding Let_def evolves_def survives_def by auto
qed

theorem orders_settle_for_good_witness:
  "\<exists>r \<in> set (orders (w_db (fold (ord_step shop) [Inr 7001, Inl (ReqGet shop_order shop_user)] shop_sold))).
     or_ID r = shop_order \<and> or_TotalAmountMinor r = 2100"
proof -
  from shop_sold_facts obtain r where r: "orders (w_db shop_sold) = [r]" "or_ID r = shop_order" "or_TotalAmountMinor r = 2100"
    by (cases "orders (w_db shop_sold)") auto
  have "\<forall>req. Inl req \<in> set [Inr 7001, Inl (ReqGet shop_order shop_user)] \<longrightarrow> minted (oe_U (oa_E shop)) req" by auto
  from orders_settle_for_good [OF shop_ok this shop_sold_ok, of r] r
  show ?thesis by (auto simp: Let_def)
qed

subsection \<open>Reading\<close>

text \<open>A call that gives up at the first failure: an answer that arrives under a schedule of failures
  is the one the call gives without them.\<close>

definition gives_up :: "('d, 'w, 'a) op \<Rightarrow> bool" where
  "gives_up m \<longleftrightarrow> (\<forall>s x s'. m s = (Inr x, s') \<longrightarrow> m (s\<lparr>w_sched := []\<rparr>) = (Inr x, s'\<lparr>w_sched := []\<rparr>))"

lemma gives_up_sql: "gives_up (sql q)"
proof (unfold gives_up_def, intro allI impI)
  fix s x s'
  assume "sql q s = (Inr x, s')"
  then show "sql q (s\<lparr>w_sched := []\<rparr>) = (Inr x, s'\<lparr>w_sched := []\<rparr>)"
    by (cases "w_sched s"; cases "hd (w_sched s)"; cases "q (w_db s)") (auto simp: sql_def next_outcome_def)
qed

lemma gives_up_pure: "gives_up (pure_op r)" "gives_up (ret y)" "gives_up (fail e)"
  by (auto simp: gives_up_def pure_op_def ret_def fail_def split: sum.splits)

lemma gives_up_withResult:
  "gives_up m \<Longrightarrow> (\<And>x. gives_up (k (Inr x))) \<Longrightarrow> (\<And>e s. isl (fst (k (Inl e) s))) \<Longrightarrow> gives_up (withResult m k)"
proof (unfold gives_up_def [of "withResult m k"], intro allI impI)
  fix s x s'
  assume m: "gives_up m" and k: "\<And>x. gives_up (k (Inr x))" and e: "\<And>e s. isl (fst (k (Inl e) s))"
    and r: "withResult m k s = (Inr x, s')"
  obtain a t where a: "m s = (a, t)" by (cases "m s")
  with r have ka: "k a t = (Inr x, s')" by (simp add: withResult_def)
  then obtain y where "a = Inr y" using e [of "projl a" t] by (cases a) simp_all
  with a ka m k show "withResult m k (s\<lparr>w_sched := []\<rparr>) = (Inr x, s'\<lparr>w_sched := []\<rparr>)"
    by (simp add: withResult_def gives_up_def)
qed

lemma gives_up_andThen: "gives_up m \<Longrightarrow> (\<And>x. gives_up (k x)) \<Longrightarrow> gives_up (andThen m k)"
  unfolding andThen_def by (rule gives_up_withResult) (simp_all add: fail_def)

lemma gives_up_mapErr: "gives_up m \<Longrightarrow> gives_up (mapErr h m)"
  unfolding mapErr_def by (rule gives_up_withResult) (simp_all add: gives_up_pure, simp add: fail_def)

lemma gives_up_reads:
  "gives_up (ord_GetOrder U order_id user_id)" "gives_up (ord_ListOrders U T user_id n tok)"
proof -
  have "gives_up (orders_FindByID U o1)" for o1
    unfolding orders_FindByID_def
    by (intro gives_up_andThen gives_up_withResult gives_up_sql gives_up_pure)
       (auto intro!: gives_up_andThen gives_up_mapErr gives_up_sql gives_up_pure simp: fail_def)
  then show "gives_up (ord_GetOrder U order_id user_id)"
    unfolding ord_GetOrder_def by (auto intro!: gives_up_andThen gives_up_pure)
  have "gives_up (orders_List U u after k)" for u after k
    unfolding orders_List_def lines_by_order_def
    by (auto intro!: gives_up_andThen gives_up_mapErr gives_up_sql gives_up_pure)
  then show "gives_up (ord_ListOrders U T user_id n tok)"
    unfolding ord_ListOrders_def Let_def by (auto intro!: gives_up_andThen gives_up_pure)
qed

lemma gives_up_answer:
  assumes "gives_up m" and "w_sched s = []"
  shows "isl (fst (m (s\<lparr>w_sched := fs\<rparr>))) \<or> fst (m (s\<lparr>w_sched := fs\<rparr>)) = fst (m s)"
proof (cases "fst (m (s\<lparr>w_sched := fs\<rparr>))")
  case (Inr x)
  then obtain t where "m (s\<lparr>w_sched := fs\<rparr>) = (Inr x, t)" by (cases "m (s\<lparr>w_sched := fs\<rparr>)") auto
  with assms(1) have "m (s\<lparr>w_sched := []\<rparr>) = (Inr x, t\<lparr>w_sched := []\<rparr>)"
    unfolding gives_up_def by fastforce
  moreover have "s\<lparr>w_sched := []\<rparr> = s" using assms(2) by simp
  ultimately show ?thesis using Inr by simp
qed simp

text \<open>C16. What a caller reads says nothing about other customers. In any two databases that hold
  the same orders and lines of this user, whatever they hold of everybody else, \<open>GetOrder\<close> and
  \<open>ListOrders\<close>, when no round trip fails, answer this user the same, for every order id, page size and page
  token: an order of somebody else is answered exactly like one that does not exist. When round
  trips do fail, whichever they are, the answer is an error or that same answer.\<close>

theorem orders_private:
  assumes "uuid_ok U" and "w_sched s = []" and "w_sched s' = []"
    and "distinct (map or_ID (orders (w_db s)))" and "distinct (map or_ID (orders (w_db s')))"
    and "ord_ParseUserID U user_id = Inr uid"
    and "filter (\<lambda>r. or_UserID r = uid) (orders (w_db s)) = filter (\<lambda>r. or_UserID r = uid) (orders (w_db s'))"
    and "\<forall>r \<in> set (orders (w_db s)). or_UserID r = uid \<longrightarrow>
      filter (\<lambda>l. ol_OrderID l = or_ID r) (order_lines (w_db s)) =
      filter (\<lambda>l. ol_OrderID l = or_ID r) (order_lines (w_db s'))"
    and "ord_collate (w_db s) = ord_collate (w_db s')"
  shows "fst (ord_GetOrder U order_id user_id s) = fst (ord_GetOrder U order_id user_id s') \<and>
    fst (ord_ListOrders U T user_id n tok s) = fst (ord_ListOrders U T user_id n tok s') \<and>
    (let got = fst (ord_GetOrder U order_id user_id (s\<lparr>w_sched := faults\<rparr>)) in
      isl got \<or> got = fst (ord_GetOrder U order_id user_id s)) \<and>
    (let got = fst (ord_ListOrders U T user_id n tok (s\<lparr>w_sched := faults\<rparr>)) in
      isl got \<or> got = fst (ord_ListOrders U T user_id n tok s))"
proof (intro conjI)
  show "let got = fst (ord_GetOrder U order_id user_id (s\<lparr>w_sched := faults\<rparr>)) in
      isl got \<or> got = fst (ord_GetOrder U order_id user_id s)"
    "let got = fst (ord_ListOrders U T user_id n tok (s\<lparr>w_sched := faults\<rparr>)) in
      isl got \<or> got = fst (ord_ListOrders U T user_id n tok s)"
    unfolding Let_def by (rule gives_up_answer [OF _ assms(2)], rule gives_up_reads)+
  have view: "same_view uid (w_db s) (w_db s')"
    unfolding same_view_def own_def stored_lines_def
  proof (intro conjI ballI)
    fix r assume "r \<in> set (filter (\<lambda>r. or_UserID r = uid) (orders (w_db s)))"
    with assms(8) show "filter (\<lambda>l. ol_OrderID l = or_ID r) (order_lines (w_db s)) =
      filter (\<lambda>l. ol_OrderID l = or_ID r) (order_lines (w_db s'))" by simp
  qed (rule assms(7,9))+
  then have own: "own (w_db s') uid = own (w_db s) uid" by (simp add: same_view_def)
  have load: "load (w_db s) r = load (w_db s') r" if "r \<in> set (own (w_db s) uid)" for r
    using same_view_load [OF view that] .
  show "fst (ord_GetOrder U order_id user_id s) = fst (ord_GetOrder U order_id user_id s')"
  proof (cases "ord_ParseOrderID U order_id")
    case (Inl e)
    then show ?thesis by (simp add: ord_GetOrder_def runs)
  next
    case (Inr oid)
    show ?thesis
      unfolding GetOrder_calm [OF assms(2,1,4) Inr assms(6)] GetOrder_calm [OF assms(3,1,5) Inr assms(6)] own
      using load by (auto split: option.split dest!: find_key_Some)
  qed
  have p: "uuid_Parse U uid = Inr uid"
    using assms(1,6) ord_parseUUID_Inr by (simp add: ord_ParseUserID_def)
  show "fst (ord_ListOrders U T user_id n tok s) = fst (ord_ListOrders U T user_id n tok s')"
  proof (cases "decodeCursor U T tok")
    case (Inl e)
    with assms(6) show ?thesis by (simp add: ord_ListOrders_def runs)
  next
    case (Inr after)
    have eq: "map (load (w_db s)) (take m (newest_first (filter P (own (w_db s) uid)))) =
        map (load (w_db s')) (take m (newest_first (filter P (own (w_db s) uid))))" for m P
      using load by (auto dest!: in_set_takeD)
    show ?thesis
      using Inr assms(6)
      by (simp add: ord_ListOrders_def runs List_calm [OF assms(2) p] List_calm [OF assms(3) p] own Let_def eq)
  qed
qed

definition shop_row :: "gostring \<Rightarrow> gostring \<Rightarrow> gotime \<Rightarrow> ord_row" where
  "shop_row oid uid t = \<lparr>or_ID = oid, or_UserID = uid, or_Status = ''pending_payment'', or_TotalAmountMinor = 2100,
     or_TotalCurrency = ''THB'', or_ReservationID = oid, or_CreatedAt = t, or_UpdatedAt = t, or_Version = 1\<rparr>"

theorem orders_private_witness:
  "fst (ord_GetOrder canonical_uuids shop_order shop_user (shop_world\<lparr>w_db := shop_db\<lparr>orders := [shop_row shop_order shop_hold 0]\<rparr>\<rparr>)) =
   fst (ord_GetOrder canonical_uuids shop_order shop_user shop_world)"
proof -
  let ?s = "shop_world\<lparr>w_db := shop_db\<lparr>orders := [shop_row shop_order shop_hold 0]\<rparr>\<rparr>"
  have u: "ord_ParseUserID canonical_uuids shop_user = Inr shop_user" by code_simp
  have "shop_hold \<noteq> shop_user" by code_simp
  with orders_private [OF uuid_ok_canonical _ _ _ _ u, of ?s shop_world] show ?thesis
    by (simp add: shop_world_def shop_db_def shop_row_def)
qed

text \<open>What the claim does not extend to: \<open>FindByID\<close> reads the lines before the owner is compared, so
  when that read fails the caller of a foreign order learns that it exists, while a missing order
  still answers \<open>NotFound\<close>.\<close>

lemma foreign_order_told_apart:
  "fst (ord_GetOrder canonical_uuids shop_order shop_user
      (shop_world\<lparr>w_db := shop_db\<lparr>orders := [shop_row shop_order shop_hold 0]\<rparr>, w_sched := [Done, Failed]\<rparr>)) =
    Inl (wrap conn_err KindInternal ''get order lines'')"
  "fst (ord_GetOrder canonical_uuids shop_order shop_user (shop_world\<lparr>w_sched := [Done, Failed]\<rparr>)) =
    Inl ErrOrderNotFound"
  by code_simp+

text \<open>C17. Paging is complete: a client that follows the page tokens, with any page size and one
  call more than it has orders at most, is handed every order of its own exactly once, newest
  first, in pages no longer than the size asked for, the last of them without a token; each token
  is accepted by the service that issued it.\<close>

theorem order_pages_complete:
  assumes "uuid_ok U" and "time_text_ok T" and "w_sched s = []"
    and "distinct (map or_ID (orders (w_db s)))"
    and "\<forall>r \<in> set (orders (w_db s)). uuid_Parse U (or_ID r) = Inr (or_ID r) \<and> pg_time (or_CreatedAt r) = or_CreatedAt r"
    and "ord_ParseUserID U user_id = Inr uid"
    and "length (filter (\<lambda>r. or_UserID r = uid) (orders (w_db s))) < fuel"
  shows "let pages = ord_pages U T user_id ps fuel [] s; os = concat (map pg_Orders pages) in
    distinct (map ord_id os) \<and>
    set (map ord_id os) = or_ID ` {r \<in> set (orders (w_db s)). or_UserID r = uid} \<and>
    sorted_wrt (\<lambda>a b. ord_createdAt b < ord_createdAt a \<or>
      (ord_createdAt b = ord_createdAt a \<and> ord_id b < ord_id a)) os \<and>
    (\<forall>p \<in> set pages. length (pg_Orders p) \<le> nat (ord_page_size ps)) \<and>
    pages \<noteq> [] \<and> pg_NextPageToken (last pages) = []"
proof -
  let ?ms = "newest_first (own (w_db s) uid)"
  have db: "listable U (w_db s)" using assms(4,5) by (simp add: listable_def)
  have fuel: "length ?ms - 0 < fuel" using assms(7) by (simp add: own_def)
  have first: "token_at T ?ms 0 = []" by simp
  have d: "distinct (map or_ID (own (w_db s) uid))"
    using assms(4) by (simp add: own_def distinct_map_filter)
  then have "distinct (map or_ID ?ms)" by (simp add: newest_first_def rev_map [symmetric])
  moreover have "set (map or_ID ?ms) = or_ID ` {r \<in> set (orders (w_db s)). or_UserID r = uid}"
    by (simp add: own_def)
  moreover have "sorted_wrt (\<lambda>a b. ord_createdAt b < ord_createdAt a \<or>
      (ord_createdAt b = ord_createdAt a \<and> ord_id b < ord_id a)) (map (load (w_db s)) ?ms)"
    using newest_first_sorted [OF d] by (simp add: sorted_wrt_map newer_def [abs_def])
  ultimately show ?thesis
    using ord_pages_from [OF assms(3,1,2) db assms(6) _ fuel, of ps, unfolded first]
    unfolding Let_def by (simp del: set_concat add: comp_def)
qed

definition shop_shelf :: "(ord_db, string list) world" where
  "shop_shelf = shop_world\<lparr>w_db := shop_db\<lparr>orders :=
     [shop_row shop_order shop_user 1000, shop_row shop_hold shop_hold 2000, shop_row shop_other shop_user 3000]\<rparr>\<rparr>"

lemma shop_shelf_facts:
  "w_sched shop_shelf = []" "map or_ID (orders (w_db shop_shelf)) = [shop_order, shop_hold, shop_other]"
  "\<forall>r \<in> set (orders (w_db shop_shelf)). uuid_Parse canonical_uuids (or_ID r) = Inr (or_ID r) \<and> pg_time (or_CreatedAt r) = or_CreatedAt r"
  "filter (\<lambda>r. or_UserID r = shop_user) (orders (w_db shop_shelf)) = [shop_row shop_order shop_user 1000, shop_row shop_other shop_user 3000]"
proof -
  have "shop_hold \<noteq> shop_user" by code_simp
  with shop_ids show "w_sched shop_shelf = []" "map or_ID (orders (w_db shop_shelf)) = [shop_order, shop_hold, shop_other]"
    "\<forall>r \<in> set (orders (w_db shop_shelf)). uuid_Parse canonical_uuids (or_ID r) = Inr (or_ID r) \<and> pg_time (or_CreatedAt r) = or_CreatedAt r"
    "filter (\<lambda>r. or_UserID r = shop_user) (orders (w_db shop_shelf)) = [shop_row shop_order shop_user 1000, shop_row shop_other shop_user 3000]"
    by (auto simp: shop_shelf_def shop_world_def shop_db_def shop_row_def canonical_uuids_def pg_time_def)
qed

theorem order_pages_complete_witness:
  "let os = concat (map pg_Orders (ord_pages canonical_uuids shop_time shop_user 1 3 [] shop_shelf)) in
    distinct (map ord_id os) \<and> set (map ord_id os) = {shop_order, shop_other}"
proof -
  have u: "ord_ParseUserID canonical_uuids shop_user = Inr shop_user" by code_simp
  have d: "distinct (map or_ID (orders (w_db shop_shelf)))" unfolding shop_shelf_facts(2) by code_simp
  have "{r \<in> set (orders (w_db shop_shelf)). or_UserID r = shop_user} =
      {shop_row shop_order shop_user 1000, shop_row shop_other shop_user 3000}"
    using arg_cong [OF shop_shelf_facts(4), of set] by simp
  then have "or_ID ` {r \<in> set (orders (w_db shop_shelf)). or_UserID r = shop_user} = {shop_order, shop_other}"
    by (simp add: shop_row_def)
  then show ?thesis
    using order_pages_complete [OF uuid_ok_canonical shop_time_ok shop_shelf_facts(1) d shop_shelf_facts(3) u, of 3 1]
    unfolding shop_shelf_facts(4) Let_def by simp
qed

end
