(* ===== verification/OrdCheckout.thy ===== *)
theory OrdCheckout
  imports OrdClaims
begin

text \<open>
  Claims about checkout and the saga: the fingerprint of a cart, a retried checkout, the hold of a
  checkout that fails, saga messages delivered again, and the sweep of unpaid orders.
\<close>

subsection \<open>The fingerprint of a cart\<close>

lemma line_text_inj:
  assumes "CHR '':'' \<notin> set (rsl_SKU a)" and "CHR '':'' \<notin> set (rsl_SKU b)"
    and "request_line_text a = request_line_text b"
  shows "a = b"
proof -
  from assms(3) have "strings_Cut (CHR '':'') (rsl_SKU a @ CHR '':'' # show_int (rsl_Quantity a)) =
      strings_Cut (CHR '':'') (rsl_SKU b @ CHR '':'' # show_int (rsl_Quantity b))"
    by (simp add: request_line_text_def)
  then have "rsl_SKU a = rsl_SKU b" "show_int (rsl_Quantity a) = show_int (rsl_Quantity b)"
    by (simp_all add: cut_join assms(1,2))
  then show ?thesis by (auto dest: show_int_inj intro: ReservationLine.equality)
qed

lemma nul_separated:
  assumes "\<forall>t \<in> set xs \<union> set ys. CHR 0x00 \<notin> set t"
    and "concat (map (\<lambda>t. CHR 0x00 # t) xs) = concat (map (\<lambda>t. CHR 0x00 # t) ys)"
  shows "xs = ys"
  using assms
proof (induction xs arbitrary: ys)
  case Nil
  then show ?case by (cases ys) auto
next
  case (Cons x xs)
  then obtain y ys' where ys: "ys = y # ys'" by (cases ys) auto
  have part: "takeWhile (\<lambda>c. c \<noteq> CHR 0x00) (t @ concat (map (\<lambda>t. CHR 0x00 # t) r)) = t"
    if "CHR 0x00 \<notin> set t" for t and r :: "string list"
  proof (cases r)
    case Nil
    with that show ?thesis by (auto simp: takeWhile_eq_all_conv)
  next
    case (Cons a list)
    from that show ?thesis unfolding Cons by (induction t) auto
  qed
  from Cons.prems(2) have eq: "x @ concat (map (\<lambda>t. CHR 0x00 # t) xs) = y @ concat (map (\<lambda>t. CHR 0x00 # t) ys')"
    unfolding ys by simp
  have "x = y" using part [of x xs] part [of y ys'] Cons.prems(1) eq unfolding ys by auto
  with eq Cons.prems(1) Cons.IH [of ys'] show ?case unfolding ys by auto
qed

lemma image_mset_inj:
  assumes f: "inj_on f S" and sub: "set_mset A \<subseteq> S" "set_mset B \<subseteq> S" and eq: "image_mset f A = image_mset f B"
  shows "A = B"
proof -
  have undo: "image_mset (inv_into S f) (image_mset f X) = X" if "set_mset X \<subseteq> S" for X
  proof -
    have "inv_into S f (f x) = x" if "x \<in># X" for x
      using f \<open>set_mset X \<subseteq> S\<close> that by (meson inv_into_f_f subsetD)
    then show ?thesis unfolding multiset.map_comp by (intro multiset.map_ident_strong) (simp add: comp_def)
  qed
  from undo [OF sub(1)] undo [OF sub(2)] show ?thesis unfolding eq by (rule box_equals [OF refl])
qed

definition sku_text :: "gostring \<Rightarrow> bool" where
  "sku_text s \<longleftrightarrow> (\<forall>c \<in> set s. upper_alnum c \<or> c = CHR ''-'')"

lemma sku_text_chars:
  assumes "sku_text s"
  shows "CHR '':'' \<notin> set s" "CHR 0x00 \<notin> set s"
  using assms by (auto simp: sku_text_def upper_alnum_def less_eq_char_def)

lemma line_text_no_nul: "sku_text (rsl_SKU l) \<Longrightarrow> CHR 0x00 \<notin> set (request_line_text l)"
  using sku_text_chars show_int_chars [of "CHR 0x00" "rsl_Quantity l"]
  by (auto simp: request_line_text_def digit_def less_eq_char_def)

lemma hash_input_mset: "mset a = mset b \<Longrightarrow> hash_input u a = hash_input u b"
proof -
  assume "mset a = mset b"
  then have "mset (map request_line_text a) = mset (map request_line_text b)" by simp
  then have "sort (map request_line_text a) = sort (map request_line_text b)"
    by (metis sorted_list_of_multiset_mset)
  then show ?thesis by (simp add: hash_input_def)
qed

lemma hash_input_inj:
  assumes "length u = length v" and "\<forall>l \<in> set a \<union> set b. sku_text (rsl_SKU l)"
    and "hash_input u a = hash_input v b"
  shows "u = v \<and> mset a = mset b"
proof -
  let ?f = "\<lambda>ls. sort (map request_line_text ls)"
  from assms(1,3) have u: "u = v" and c: "concat (map (\<lambda>t. CHR 0x00 # t) (?f a)) = concat (map (\<lambda>t. CHR 0x00 # t) (?f b))"
    by (auto simp: hash_input_def)
  have "\<forall>t \<in> set (?f a) \<union> set (?f b). CHR 0x00 \<notin> set t"
    using assms(2) line_text_no_nul by auto
  from nul_separated [OF this c] have "mset (map request_line_text a) = mset (map request_line_text b)"
    by (metis mset_sort)
  then have im: "image_mset request_line_text (mset a) = image_mset request_line_text (mset b)" by simp
  have "inj_on request_line_text (set a \<union> set b)"
    using assms(2) line_text_inj sku_text_chars(1) by (auto simp: inj_on_def)
  then have "mset a = mset b"
    using im by (intro image_mset_inj [of request_line_text "set a \<union> set b"]) auto
  with u show ?thesis by simp
qed

lemma requestedLine_sku: "requestedLine x = Inr l \<Longrightarrow> sku_text (rsl_SKU l)"
  by (auto simp: requestedLine_def sku_text_def split: sum.splits dest: ord_NewSKU_chars)

text \<open>Two texts on which a hash collides.\<close>

definition collides :: "(gostring \<Rightarrow> gostring) \<Rightarrow> gostring \<Rightarrow> gostring \<Rightarrow> bool" where
  "collides H x y \<longleftrightarrow> x \<noteq> y \<and> H x = H y"

text \<open>C18. The fingerprint of a request tells carts apart and nothing else. Of two requests whose lines
  parse, the texts that are hashed are the same exactly when they are of the same user and ask for the
  same lines, each as often, in whatever order. So two such requests have one fingerprint, and of
  any others the fingerprints differ, unless the hash, whichever it is, collides on those two texts.\<close>

theorem cart_fingerprint:
  assumes "uuid_ok U" and "ord_ParseUserID U a = Inr u" and "ord_ParseUserID U b = Inr v"
    and "requestedLines ls = Inr req" and "requestedLines ls' = Inr req'"
  shows "(hash_input u req = hash_input v req' \<longleftrightarrow> u = v \<and> mset req = mset req') \<and>
    (hashRequest H u req = hashRequest H v req' \<longleftrightarrow>
      (u = v \<and> mset req = mset req') \<or> collides H (hash_input u req) (hash_input v req'))"
proof -
  have len: "length u = length v"
    using assms(2,3) ord_parseUUID_Inr [OF _ assms(1)] uuid_ok_Parse [OF assms(1)]
    by (metis ord_ParseUserID_def)
  have sku: "\<forall>l \<in> set r. sku_text (rsl_SKU l)" if "requestedLines l0 = Inr r" for l0 r
  proof -
    from that have "list_all2 (\<lambda>x l. requestedLine x = Inr l) l0 r"
      by (simp add: requestedLines_def map_res_Inr split: if_splits)
    then show ?thesis
      by (force simp: list_all2_conv_all_nth in_set_conv_nth intro: requestedLine_sku)
  qed
  have S: "\<forall>l \<in> set req \<union> set req'. sku_text (rsl_SKU l)"
    using sku [OF assms(4)] sku [OF assms(5)] by blast
  have "hash_input u req = hash_input v req' \<longleftrightarrow> u = v \<and> mset req = mset req'"
    using hash_input_inj [OF len S] hash_input_mset by blast
  then show ?thesis unfolding hashRequest_def collides_def by metis
qed

text \<open>With a hash of a fixed length: the same cart in another order and spelling, and a cart with one more mug.\<close>

theorem cart_fingerprint_witness:
  "\<exists>a b c. requestedLines [\<lparr>ckl_SKU = ''mug-red'', ckl_Quantity = 2\<rparr>, \<lparr>ckl_SKU = ''CAP'', ckl_Quantity = 1\<rparr>] = Inr a \<and>
    requestedLines [\<lparr>ckl_SKU = '' cap '', ckl_Quantity = 1\<rparr>, \<lparr>ckl_SKU = ''MUG-RED'', ckl_Quantity = 2\<rparr>] = Inr b \<and>
    requestedLines [\<lparr>ckl_SKU = ''mug-red'', ckl_Quantity = 3\<rparr>, \<lparr>ckl_SKU = ''CAP'', ckl_Quantity = 1\<rparr>] = Inr c \<and>
    hashRequest (take 60) shop_user a = hashRequest (take 60) shop_user b \<and>
    hashRequest (take 60) shop_user a \<noteq> hashRequest (take 60) shop_user c"
proof -
  let ?l1 = "[\<lparr>ckl_SKU = ''mug-red'', ckl_Quantity = 2\<rparr>, \<lparr>ckl_SKU = ''CAP'', ckl_Quantity = 1\<rparr>]"
  let ?l2 = "[\<lparr>ckl_SKU = '' cap '', ckl_Quantity = 1\<rparr>, \<lparr>ckl_SKU = ''MUG-RED'', ckl_Quantity = 2\<rparr>]"
  let ?l3 = "[\<lparr>ckl_SKU = ''mug-red'', ckl_Quantity = 3\<rparr>, \<lparr>ckl_SKU = ''CAP'', ckl_Quantity = 1\<rparr>]"
  let ?a = "[\<lparr>rsl_SKU = ''MUG-RED'', rsl_Quantity = 2\<rparr>, \<lparr>rsl_SKU = ''CAP'', rsl_Quantity = 1\<rparr>]"
  let ?b = "[\<lparr>rsl_SKU = ''CAP'', rsl_Quantity = 1\<rparr>, \<lparr>rsl_SKU = ''MUG-RED'', rsl_Quantity = 2\<rparr>]"
  let ?c = "[\<lparr>rsl_SKU = ''MUG-RED'', rsl_Quantity = 3\<rparr>, \<lparr>rsl_SKU = ''CAP'', rsl_Quantity = 1\<rparr>]"
  have u: "ord_ParseUserID canonical_uuids shop_user = Inr shop_user" by code_simp
  have p: "requestedLines ?l1 = Inr ?a" "requestedLines ?l2 = Inr ?b" "requestedLines ?l3 = Inr ?c" by code_simp+
  have "hashRequest (take 60) shop_user ?a = hashRequest (take 60) shop_user ?b"
    using cart_fingerprint [OF uuid_ok_canonical u u p(1,2), of "take 60"] by simp
  moreover have "\<not> collides (take 60) (hash_input shop_user ?a) (hash_input shop_user ?c)" by code_simp
  then have "hashRequest (take 60) shop_user ?a \<noteq> hashRequest (take 60) shop_user ?c"
    using cart_fingerprint [OF uuid_ok_canonical u u p(1,3), of "take 60"] by simp
  ultimately show ?thesis using p by simp
qed

subsection \<open>A checkout takes effect once\<close>

lemma ord_Checkout_effect:
  assumes A: "uuid_ok (oe_U E)" "codec_ok (oe_C E)" "canonical_holds (oe_U E) G"
    and new: "uuid_Parse (oe_U E) new_id = Inr new_id"
    and ok: "ord_ok (oe_U E) (oe_C E) (w_db s)" and tx: "\<not> w_tx s"
    and s': "s' = snd (ord_Checkout E G H new_id cmd s)" and moved: "orders (w_db s') \<noteq> orders (w_db s)"
  obtains uid req rid ls o' where "ord_ParseUserID (oe_U E) (ck_UserID cmd) = Inr uid" "ck_IdempotencyKey cmd \<noteq> []"
    "requestedLines (ck_Lines cmd) = Inr req" "ord_good E (w_db s) (w_db s')"
    "map (\<lambda>l. (oln_sku l, oln_quantity l)) ls = map (\<lambda>l. (rsl_SKU l, rsl_Quantity l)) req"
    "placed uid (ck_IdempotencyKey cmd) (hashRequest H uid req) new_id rid ls (w_db s) (w_db s') o'"
proof (cases "ord_ParseUserID (oe_U E) (ck_UserID cmd)")
  case (Inl e)
  with s' moved show ?thesis by (simp add: ord_Checkout_def pure_then)
next
  case (Inr uid)
  then have canon: "uuid_Parse (oe_U E) uid = Inr uid"
    using ord_parseUUID_Inr A(1) by (simp add: ord_ParseUserID_def)
  have key: "ck_IdempotencyKey cmd \<noteq> []"
    using s' moved Inr by (auto simp: ord_Checkout_def pure_then)
  obtain req where req: "requestedLines (ck_Lines cmd) = Inr req"
    using s' moved Inr key by (auto simp: ord_Checkout_def pure_then split: sum.splits)
  have run: "s' = snd (checkout_body E G uid (ck_IdempotencyKey cmd) (hashRequest H uid req) new_id req s)"
    using s' Inr key req by (simp add: ord_Checkout_def pure_then)
  from checkout_body_effect [OF A(2,1,3) new canon ok tx, of "ck_IdempotencyKey cmd" "hashRequest H uid req" req, folded run]
    moved obtain rid ls o' where "ord_good E (w_db s) (w_db s')"
      "map (\<lambda>l. (oln_sku l, oln_quantity l)) ls = map (\<lambda>l. (rsl_SKU l, rsl_Quantity l)) req"
      "placed uid (ck_IdempotencyKey cmd) (hashRequest H uid req) new_id rid ls (w_db s) (w_db s') o'" by auto
  from that [OF Inr key req this] show ?thesis .
qed

lemma checkout_replays:
  assumes s: "w_sched s = []" and U: "uuid_ok (oe_U E)" and ok: "ord_ok (oe_U E) (oe_C E) (w_db s)"
    and user: "ord_ParseUserID (oe_U E) (ck_UserID cmd) = Inr uid" and key: "ck_IdempotencyKey cmd \<noteq> []"
    and req: "requestedLines (ck_Lines cmd) = Inr req"
    and k: "k \<in> set (idempotency_keys (w_db s))" "ik_UserID k = uid" "ik_Key k = ck_IdempotencyKey cmd"
      "ik_RequestHash k = hashRequest H uid req"
    and r: "r \<in> set (orders (w_db s))" "or_ID r = ik_OrderID k"
  shows "ord_Checkout E G H new_id cmd s = (Inr (load (w_db s) r), s)"
proof -
  have p: "uuid_Parse (oe_U E) uid = Inr uid"
    using user U ord_parseUUID_Inr by (simp add: ord_ParseUserID_def)
  have dk: "distinct (map (\<lambda>k. (ik_UserID k, ik_Key k)) (idempotency_keys (w_db s)))"
    and dr: "distinct (map or_ID (orders (w_db s)))" and pr: "uuid_Parse (oe_U E) (or_ID r) = Inr (or_ID r)"
    using ok r(1) by (auto simp: ord_ok_def ord_keys_ok_def ord_rows_ok_def)
  have fk: "List.find (\<lambda>k. (ik_UserID k, ik_Key k) = (uid, ck_IdempotencyKey cmd)) (idempotency_keys (w_db s)) = Some k"
    using find_distinct [OF dk k(1)] k(2,3) by simp
  have fr: "List.find (\<lambda>r. or_ID r = ik_OrderID k) (orders (w_db s)) = Some r"
    using find_distinct [OF dr r(1)] r(2) by simp
  have f: "orders_FindByID (oe_U E) (ik_OrderID k) s = (Inr (load (w_db s) r), s)"
    using FindByID_calm [OF s, of "oe_U E" "ik_OrderID k" "ik_OrderID k"] pr r(2) fr by simp
  have "ord_replay (oe_U E) uid (ck_IdempotencyKey cmd) (hashRequest H uid req) s = (Inr (Some (load (w_db s) r)), s)"
    using p fk f k(4)
    by (simp add: ord_replay_def idem_Find_def runs ord_parseID_def sql_no_fault [OF s] sql_GetIdempotencyKey_def claimOf_def)
  then show ?thesis
    using user key req by (simp add: ord_Checkout_def checkout_body_def runs)
qed

text \<open>C13. A checkout takes effect once. If a checkout stored an order, whether or not the caller
  heard of it and whatever happened since, then asking again under the same key for the same lines, in any
  order, answers with that order and changes nothing: no second order, no second hold, no call
  to the catalog or the inventory.\<close>

theorem checkout_takes_effect_once:
  fixes A :: "'w ord_app" and s :: "(ord_db, 'w) world" and cmd :: CheckoutCommand
    and new_id :: gostring and reqs :: "ord_req list"
  defines "s1 \<equiv> ord_exec A (ReqCheckout new_id cmd) s"
  defines "s2 \<equiv> fold (ord_exec A) reqs s1"
  assumes "ord_app_ok A" and "minted (oe_U (oa_E A)) (ReqCheckout new_id cmd)"
    and "\<forall>req \<in> set reqs. minted (oe_U (oa_E A)) req"
    and "ord_ok (oe_U (oa_E A)) (oe_C (oa_E A)) (w_db s)" and "\<not> w_tx s"
    and "orders (w_db s1) \<noteq> orders (w_db s)" and "w_sched s2 = []"
    and "ck_UserID again = ck_UserID cmd" and "ck_IdempotencyKey again = ck_IdempotencyKey cmd"
    and "mset (ck_Lines again) = mset (ck_Lines cmd)"
  shows "\<exists>r o'. orders (w_db s1) = orders (w_db s) @ [r] \<and> or_ID r = new_id \<and>
    ord_Checkout (oa_E A) (oa_G A) (oa_H A) another_id again s2 = (Inr o', s2) \<and>
    ord_id o' = or_ID r \<and> ord_reservationID o' = or_ReservationID r \<and>
    ord_total o' = \<lparr>amountMinor = or_TotalAmountMinor r, currency = or_TotalCurrency r\<rparr>"
proof -
  let ?E = "oa_E A" and ?H = "oa_H A" and ?key = "ck_IdempotencyKey cmd"
  have A: "uuid_ok (oe_U ?E)" "codec_ok (oe_C ?E)" "canonical_holds (oe_U ?E) (oa_G A)"
    using assms(3) by (simp_all add: ord_app_ok_def)
  have new: "uuid_Parse (oe_U ?E) new_id = Inr new_id" using assms(4) by simp
  have s1: "s1 = snd (ord_Checkout ?E (oa_G A) ?H new_id cmd s)" by (simp add: s1_def)
  obtain uid req rid ls o' where e: "ord_ParseUserID (oe_U ?E) (ck_UserID cmd) = Inr uid" "?key \<noteq> []"
      "requestedLines (ck_Lines cmd) = Inr req" "ord_good ?E (w_db s) (w_db s1)"
      "placed uid ?key (hashRequest ?H uid req) new_id rid ls (w_db s) (w_db s1) o'"
    by (rule ord_Checkout_effect [OF A new assms(6,7) s1 assms(8)]) (rule that; assumption)
  let ?k = "\<lparr>ik_UserID = uid, ik_Key = ?key, ik_RequestHash = hashRequest ?H uid req, ik_OrderID = new_id,
      ik_CreatedAt = db_now (w_db s)\<rparr>"
  from e(5) obtain r where r: "orders (w_db s1) = orders (w_db s) @ [r]" "or_ID r = new_id"
      and keys: "idempotency_keys (w_db s1) = idempotency_keys (w_db s) @ [?k]"
    unfolding placed_def by blast
  define k where "k = ?k"
  with keys have k: "k \<in> set (idempotency_keys (w_db s1))" "ik_UserID k = uid" "ik_Key k = ?key"
      "ik_RequestHash k = hashRequest ?H uid req" "ik_OrderID k = new_id" by simp_all
  have "\<not> w_tx s1" using assms(7) by (simp add: s1_def ord_exec_tx del: ord_exec.simps)
  then have good: "ord_good ?E (w_db s1) (w_db s2)"
    using ord_history_good [OF assms(3,5), of s1] e(4) by (simp add: ord_good_def s2_def)
  then have ev: "evolves (w_db s1) (w_db s2)" and ok2: "ord_ok (oe_U ?E) (oe_C ?E) (w_db s2)"
    by (simp_all add: ord_good_def)
  have "r \<in> set (orders (w_db s1))" using r(1) by simp
  then obtain r2 where r2: "r2 \<in> set (orders (w_db s2))" "row_moves r r2"
    by (rule evolves_row [OF ev])
  note same = row_moves_same [OF r2(2)]
  have k2: "k \<in> set (idempotency_keys (w_db s2))" using k(1) ev by (auto simp: evolves_def)
  have "ck_Lines cmd \<noteq> []" "map_res requestedLine (ck_Lines cmd) = Inr req"
    using e(3) by (auto simp: requestedLines_def split: if_splits)
  moreover from this(2) obtain req' where req': "map_res requestedLine (ck_Lines again) = Inr req'" "mset req' = mset req"
    by (rule map_res_mset [OF _ assms(12)]) (rule that; assumption)
  ultimately have again: "requestedLines (ck_Lines again) = Inr req'"
    using assms(12) by (auto simp: requestedLines_def)
  have hash: "ik_RequestHash k = hashRequest ?H uid req'"
    using k(4) hash_input_mset [OF req'(2)] by (simp add: hashRequest_def)
  have "ord_Checkout ?E (oa_G A) ?H another_id again s2 = (Inr (load (w_db s2) r2), s2)"
    using checkout_replays [OF assms(9) A(1) ok2 _ _ again k2 k(2) _ hash r2(1)] e(1,2) assms(10,11) k(3,5) r(2) same
    by simp
  moreover have "ord_id (load (w_db s2) r2) = or_ID r" "ord_reservationID (load (w_db s2) r2) = or_ReservationID r"
      "ord_total (load (w_db s2) r2) = \<lparr>amountMinor = or_TotalAmountMinor r, currency = or_TotalCurrency r\<rparr>"
    using same by (simp_all add: load_def)
  ultimately show ?thesis using r by blast
qed

text \<open>The ninth round trip of a checkout of one line is its commit: here its answer is lost.\<close>

definition shop_unlucky :: "(ord_db, string list) world" where
  "shop_unlucky = shop_world\<lparr>w_sched := replicate 8 Done @ [Lost]\<rparr>"

definition shop_heard :: "err + Order" where
  "shop_heard = fst (ord_Checkout (oa_E shop) (oa_G shop) (oa_H shop) shop_order shop_cart shop_unlucky)"

definition shop_lost :: "(ord_db, string list) world" where
  "shop_lost = ord_exec shop (ReqCheckout shop_order shop_cart) shop_unlucky"

lemma shop_lost_facts:
  "isl shop_heard" "map (\<lambda>r. (or_ID r, or_Status r)) (orders (w_db shop_lost)) = [(shop_order, ''pending_payment'')]"
  "(w_ext shop_lost, w_sched shop_lost) = ([''reserve'', ''release''], [])"
  by code_simp+

theorem checkout_takes_effect_once_witness:
  "\<exists>o'. ord_Checkout (oa_E shop) (oa_G shop) (oa_H shop) shop_other shop_cart shop_lost = (Inr o', shop_lost) \<and>
    ord_id o' = shop_order"
proof -
  have u: "w_db shop_unlucky = w_db shop_world" "\<not> w_tx shop_unlucky"
    by (simp_all add: shop_unlucky_def shop_world_def)
  have "orders (w_db shop_lost) \<noteq> orders (w_db shop_unlucky)"
    using shop_lost_facts(2) by (auto simp: u shop_world_def shop_db_def)
  with checkout_takes_effect_once [OF shop_ok shop_minted(1) _ _ u(2), of "[]" shop_cart shop_cart shop_other]
    shop_db_ok u(1) shop_lost_facts(3) show ?thesis
    by (auto simp: shop_lost_def simp del: ord_exec.simps)
qed

subsection \<open>A commit whose answer is lost\<close>





subsection \<open>Messages delivered again\<close>

lemma claimThen_effect:
  assumes tx: "\<not> w_tx s" and call: "\<And>rid. read_only (call rid)"
    and run: "saga_claimThen U ev rid call s = (r, s')"
  shows "(claimed_by (w_db s) checkoutSagaConsumerGroup ev \<longrightarrow> w_db s' = w_db s \<and> w_ext s' = w_ext s) \<and>
    (w_db s' \<noteq> w_db s \<longrightarrow>
      (\<exists>p t1 t2. ord_ParseReservationID U rid = Inr p \<and> call p t1 = (Inr (), t2) \<and>
        w_ext t1 = w_ext s \<and> w_ext t2 = w_ext s' \<and> claimed_by (w_db s') checkoutSagaConsumerGroup ev)) \<and>
    (r = Inr () \<longrightarrow> claimed_by (w_db s') checkoutSagaConsumerGroup ev)"
proof (cases "ev = [] \<or> isl (ord_ParseReservationID U rid)")
  case True
  with run show ?thesis by (auto simp: saga_claimThen_def runs split: sum.splits if_splits)
next
  case False
  then obtain p where p: "ord_ParseReservationID U rid = Inr p" by (cases "ord_ParseReservationID U rid") auto
  with run False have d: "Do (claim_then_tx ev (call p)) s = (r, s')" by (simp add: saga_claimThen_def runs)
  have body: "claimed_by (w_db t2) checkoutSagaConsumerGroup ev \<and>
      (claimed_by (w_db t1) checkoutSagaConsumerGroup ev \<longrightarrow> w_db t2 = w_db t1 \<and> w_ext t2 = w_ext t1) \<and>
      (\<not> claimed_by (w_db t1) checkoutSagaConsumerGroup ev \<longrightarrow>
        (\<exists>t. call p t = (Inr (), t2) \<and> w_ext t = w_ext t1))"
    if "claim_then_tx ev (call p) t1 = (Inr u, t2)" for t1 t2 u
  proof -
    from that obtain took t where c: "ord_inbox_Claim checkoutSagaConsumerGroup ev t1 = (Inr took, t)"
        "(if \<not> took then ret () else call p) t = (Inr u, t2)"
      unfolding claim_then_tx_def andThen_Inr by blast
    note i = ord_inbox_Inr [OF c(1)]
    show ?thesis
    proof (cases took)
      case True
      with c(2) have "call p t = (Inr (), t2)" by simp
      with i True read_onlyD [OF call this] show ?thesis by auto
    next
      case False
      with c(2) i show ?thesis by (auto simp: ret_simps)
    qed
  qed
  have claimed: "w_ext t2 = w_ext t1" if "claimed_by (w_db t1) checkoutSagaConsumerGroup ev"
      "claim_then_tx ev (call p) t1 = (r1, t2)" for t1 t2 r1
  proof -
    obtain r0 t where c: "ord_inbox_Claim checkoutSagaConsumerGroup ev t1 = (r0, t)"
      by (cases "ord_inbox_Claim checkoutSagaConsumerGroup ev t1")
    have e: "w_ext t = w_ext t1"
      using c by (rule quietD [rotated]) (unfold ord_inbox_Claim_def inbox_Claim_def, intro quiets)
    show ?thesis
    proof (cases r0)
      case (Inl e0)
      with c that(2) e show ?thesis by (auto simp: claim_then_tx_def runs)
    next
      case (Inr took)
      with ord_inbox_Inr(1) [of checkoutSagaConsumerGroup ev t1 took t] c that(1) have "\<not> took" by simp
      with c that(2) e Inr show ?thesis by (auto simp: claim_then_tx_def runs)
    qed
  qed
  from d tx show ?thesis
  proof (cases rule: Do_cases)
    case not_begun
    then show ?thesis by auto
  next
    case (undone r1 s1 s2)
    then show ?thesis using claimed [of s1 r1 s2] by auto
  next
    case (kept x s1 s2)
    then show ?thesis using body [OF kept(1)] p by auto
  qed
qed

text \<open>C14. Inventory is told once about a settled order. Whatever faults hit the step that commits
  or releases a hold: the event is recorded as handled only if inventory accepted the call, in
  the same delivery; a delivery that answers success has recorded it; and an event recorded
  as handled is never sent to inventory again, nor does it change anything.\<close>

theorem saga_calls_once:
  fixes G :: "'w ord_clients" and s :: "(ord_db, 'w) world"
  assumes "\<not> w_tx s" and "rse_EventID ev \<noteq> []"
    and "(step, call) \<in> {(saga_CommitReservation U G ev, ic_CommitReservation G), (saga_ReleaseReservation U G ev, ic_ReleaseReservation G)}"
    and "step s = (r, s')"
  shows "let handled = (\<lambda>db. (''order.checkout-saga'', rse_EventID ev) \<in>
      set (map (\<lambda>p. (pe_ConsumerGroup p, pe_EventID p)) (processed_events db))) in
    (handled (w_db s) \<longrightarrow> w_db s' = w_db s \<and> w_ext s' = w_ext s) \<and>
    (\<not> handled (w_db s) \<and> handled (w_db s') \<longrightarrow>
       (\<exists>rid res. ord_ParseReservationID U (rse_ReservationID ev) = Inr rid \<and> call rid (w_ext s) = (Inr res, w_ext s'))) \<and>
    (r = Inr () \<longrightarrow> handled (w_db s'))"
proof -
  define gw where "gw = (\<lambda>rid. andThen (rpc (call rid)) (\<lambda>_. ret ()) :: ('w, unit) ord_op)"
  have run: "saga_claimThen U (rse_EventID ev) (rse_ReservationID ev) gw s = (r, s')"
    using assms(3,4)
    by (auto simp: gw_def saga_CommitReservation_def saga_ReleaseReservation_def gw_Commit_def [abs_def] gw_Release_def [abs_def])
  have ro: "read_only (gw rid)" for rid unfolding gw_def by (auto intro!: read_only_andThen)
  have gwd: "\<exists>res. call rid (w_ext t1) = (Inr res, w_ext t2)" if "gw rid t1 = (Inr (), t2)" for rid t1 t2
    using that by (auto simp: gw_def andThen_Inr ret_simps dest!: rpc_success)
  have c: "claimed_by db checkoutSagaConsumerGroup e \<longleftrightarrow>
      (''order.checkout-saga'', e) \<in> set (map (\<lambda>p. (pe_ConsumerGroup p, pe_EventID p)) (processed_events db))" for db e
    by (simp add: claimed_by_def checkoutSagaConsumerGroup_def)
  note e = claimThen_effect [OF assms(1) ro run, unfolded c]
  show ?thesis
    unfolding Let_def
  proof (intro conjI impI)
    assume h: "(''order.checkout-saga'', rse_EventID ev) \<notin> set (map (\<lambda>p. (pe_ConsumerGroup p, pe_EventID p)) (processed_events (w_db s))) \<and>
      (''order.checkout-saga'', rse_EventID ev) \<in> set (map (\<lambda>p. (pe_ConsumerGroup p, pe_EventID p)) (processed_events (w_db s')))"
    then have "w_db s' \<noteq> w_db s" by force
    with e obtain p t1 t2 where p: "ord_ParseReservationID U (rse_ReservationID ev) = Inr p" "gw p t1 = (Inr (), t2)"
        "w_ext t1 = w_ext s" "w_ext t2 = w_ext s'" by blast
    from gwd [OF p(2)] p(1,3,4) show "\<exists>rid res. ord_ParseReservationID U (rse_ReservationID ev) = Inr rid \<and>
        call rid (w_ext s) = (Inr res, w_ext s')" by auto
  qed (use e in blast)+
qed

theorem saga_calls_once_witness:
  "w_ext (snd (saga_CommitReservation canonical_uuids shop_clients
      \<lparr>rse_EventID = ''e'', rse_OrderID = shop_order, rse_ReservationID = shop_hold\<rparr>
      (shop_world\<lparr>w_db := shop_db\<lparr>processed_events :=
         [\<lparr>pe_ConsumerGroup = ''order.checkout-saga'', pe_EventID = ''e'', pe_ProcessedAt = 0\<rparr>]\<rparr>\<rparr>))) = []"
proof -
  let ?ev = "\<lparr>rse_EventID = ''e'', rse_OrderID = shop_order, rse_ReservationID = shop_hold\<rparr>"
  let ?s = "shop_world\<lparr>w_db := shop_db\<lparr>processed_events :=
         [\<lparr>pe_ConsumerGroup = ''order.checkout-saga'', pe_EventID = ''e'', pe_ProcessedAt = 0\<rparr>]\<rparr>\<rparr>"
  obtain r s' where run: "saga_CommitReservation canonical_uuids shop_clients ?ev ?s = (r, s')"
    by (cases "saga_CommitReservation canonical_uuids shop_clients ?ev ?s")
  from saga_calls_once [where s = ?s and ev = ?ev and U = canonical_uuids and G = shop_clients and
      step = "saga_CommitReservation canonical_uuids shop_clients ?ev" and call = "ic_CommitReservation shop_clients"] run
  show ?thesis
    by (simp add: shop_world_def Let_def)
qed

subsection \<open>The sweep of unpaid orders\<close>

text \<open>C15. The sweep cancels exactly what is due. Whatever faults hit it, a sweep either changes no
  order or cancels, oldest first, precisely the orders that still wait, that no other
  transaction holds locked and whose payment window has run out at the moment it read
  the clock, up to its limit; it answers with their number only in that case; and no order that is
  paid, cancelled or still within its window is touched.\<close>

theorem order_sweep_exact:
  assumes "codec_ok (oe_C E)" and "ord_ok (oe_U E) (oe_C E) (w_db s)" and "\<not> w_tx s"
    and "ord_ExpireStaleOrders E pol locked limit s = (res, s')"
  shows "let due = take (nat (clamp32 (if limit \<le> 0 then 100 else limit))) (sort_key or_CreatedAt
        (filter (\<lambda>r. or_Status r = ''pending_payment'' \<and>
           or_CreatedAt r \<le> pg_time (op_Now pol - op_PaymentWindow pol) \<and> or_ID r \<notin> set locked) (orders (w_db s)))) in
    (\<forall>r \<in> set due. or_CreatedAt r + op_PaymentWindow pol \<le> op_Now pol) \<and>
    (isl res \<and> orders (w_db s') = orders (w_db s) \<or>
     (isl res \<or> res = Inr (int (length due))) \<and>
     orders (w_db s') = map (\<lambda>r. if r \<in> set due
        then r\<lparr>or_Status := ''cancelled'', or_UpdatedAt := db_now (w_db s), or_Version := or_Version r + 1\<rparr>
        else r) (orders (w_db s)))"
proof -
  let ?w = "op_PaymentWindow pol" and ?now = "op_Now pol" and ?lim = "if limit \<le> 0 then ord_defaultSweepLimit else limit"
  let ?tx = "andThen (orders_ClaimStaleOrders locked (?now - ?w) ?lim) (\<lambda>claimed. ord_sweep E ?now ?w claimed 0)
    :: ('w, int) ord_op"
  let ?due = "take (nat (clamp32 ?lim)) (sort_key or_CreatedAt (stale_rows locked (?now - ?w) (w_db s)))"
  have run: "Do ?tx s = (res, s')"
    using assms(4) by (simp add: ord_ExpireStaleOrders_def Let_def)
  have within: "\<forall>r \<in> set ?due. or_CreatedAt r + ?w \<le> ?now"
    using pg_time_le [of "?now - ?w"] by (fastforce simp: stale_rows_def dest!: in_set_takeD)
  have body: "x = int (length ?due) \<and> orders (w_db t2) = cancel_rows (db_now (w_db s)) ?due (orders (w_db s))"
    if "w_db t1 = w_db s" "?tx t1 = (Inr x, t2)" for t1 t2 x
    using sweep_tx_exact [OF assms(1) _ that(2)] that(1) assms(2) by (simp add: Let_def)
  from run assms(3) have "isl res \<and> orders (w_db s') = orders (w_db s) \<or>
      (isl res \<or> res = Inr (int (length ?due))) \<and> orders (w_db s') = cancel_rows (db_now (w_db s)) ?due (orders (w_db s))"
  proof (cases rule: Do_cases)
    case (kept x s1 s2)
    then show ?thesis using body [OF kept(2,1)] by auto
  qed auto
  with within show ?thesis
    unfolding Let_def stale_rows_def cancel_rows_def cancel_row_def ord_defaultSweepLimit_def by blast
qed

theorem order_sweep_exact_witness:
  "\<exists>res s'. ord_ExpireStaleOrders shop_env \<lparr>op_PaymentWindow = 1000, op_Now = 9000\<rparr> [] 0 shop_sold = (res, s') \<and>
    res = Inr 1"
proof -
  have done': "\<not> isl (fst (ord_ExpireStaleOrders shop_env \<lparr>op_PaymentWindow = 1000, op_Now = 9000\<rparr> [] 0 shop_sold))"
    by code_simp
  obtain res s' where run: "ord_ExpireStaleOrders shop_env \<lparr>op_PaymentWindow = 1000, op_Now = 9000\<rparr> [] 0 shop_sold = (res, s')"
    by (cases "ord_ExpireStaleOrders shop_env \<lparr>op_PaymentWindow = 1000, op_Now = 9000\<rparr> [] 0 shop_sold")
  let ?due = "take (nat (clamp32 (if (0 :: int) \<le> 0 then 100 else 0))) (sort_key or_CreatedAt
        (filter (\<lambda>r. or_Status r = ''pending_payment'' \<and>
           or_CreatedAt r \<le> pg_time (op_Now \<lparr>op_PaymentWindow = 1000, op_Now = 9000\<rparr> -
             op_PaymentWindow \<lparr>op_PaymentWindow = 1000, op_Now = 9000\<rparr>) \<and> or_ID r \<notin> set []) (orders (w_db shop_sold))))"
  have one: "length ?due = 1" by code_simp
  have E: "shop_env = oa_E shop" by (simp add: shop_def)
  have C: "codec_ok (oe_C shop_env)" using shop_ok by (simp add: ord_app_ok_def E)
  have "isl res \<or> res = Inr (int (length ?due))"
    using order_sweep_exact [OF C shop_sold_ok(1) [folded E] shop_sold_ok(2) run] unfolding Let_def by blast
  with run done' show ?thesis unfolding one by (intro exI [of _ res] exI [of _ s']) auto
qed

end
