(* ===== verification/Relay.thy ===== *)
theory Relay
  imports Messaging Worker
begin

text \<open>
  \<open>pkg/outbox\<close>'s relay and \<open>pkg/kafkax\<close>: claiming a batch of unpublished rows, handing
  it to the broker and marking it published in one transaction, the loop around it, and the
  consumer that retries a message and dead-letters what no retry handles. The kafka client's
  \<open>WriteMessages\<close> is an argument, a function on what the gateways reach; \<open>acked_is_written\<close>
  is what the theorems rely on of it, and it allows a batch that fails in part.
\<close>

subsection \<open>Publishing\<close>

record RelayMessage =
  msg_ID :: int
  msg_AggregateType :: gostring
  msg_AggregateID :: gostring
  msg_EventType :: gostring
  msg_Topic :: gostring
  msg_Payload :: gostring
  msg_Headers :: "(gostring \<times> gostring) list"
  msg_CreatedAt :: gotime

record kafka_message =
  km_Topic :: gostring
  km_Key :: gostring
  km_Value :: gostring
  km_Headers :: "(gostring \<times> gostring) list"

type_synonym 'w writer = "kafka_message list \<Rightarrow> 'w \<Rightarrow> (err + unit) \<times> 'w"

definition to_kafka :: "RelayMessage \<Rightarrow> kafka_message" where
  "to_kafka m =
     \<lparr>km_Topic = msg_Topic m, km_Key = msg_AggregateID m, km_Value = msg_Payload m,
      km_Headers = msg_Headers m\<rparr>"

definition kafkax_Publish :: "'w writer \<Rightarrow> RelayMessage list \<Rightarrow> ('d, 'w, unit) op" where
  "kafkax_Publish W messages =
     (if messages = [] then ret ()
      else mapErr (\<lambda>e. WrapErr (''kafkax: publish '' @ show_int (int (length messages)) @ '' message(s): '') e [])
        (rpc (W (map to_kafka messages))))"

text \<open>\<open>FOR UPDATE SKIP LOCKED\<close>: the rows another relay holds locked are an argument.\<close>

definition sql_ClaimOutbox ::
  "int list \<Rightarrow> int \<Rightarrow> 'z msg_db_scheme \<Rightarrow> (err + outbox_row list) \<times> 'z msg_db_scheme" where
  "sql_ClaimOutbox locked limit db =
     (Inr (take (nat limit) (sort_key ob_ID
        (filter (\<lambda>r. ob_PublishedAt r = None \<and> ob_ID r \<notin> set locked) (outbox db)))), db)"

definition to_message :: "outbox_row \<Rightarrow> RelayMessage" where
  "to_message r =
     \<lparr>msg_ID = ob_ID r, msg_AggregateType = ob_AggregateType r, msg_AggregateID = ob_AggregateID r,
      msg_EventType = ob_EventType r, msg_Topic = ob_Topic r, msg_Payload = ob_Payload r,
      msg_Headers = ob_Headers r, msg_CreatedAt = ob_CreatedAt r\<rparr>"

text \<open>A query that fails may say so at once, when a row is scanned, or when the rows run out.\<close>

datatype query_stage = Querying | Scanning | Reading

fun claim_error :: "query_stage \<Rightarrow> err \<Rightarrow> err" where
  "claim_error Querying e = WrapErr ''outbox: claim batch: '' e []"
| "claim_error Scanning e = WrapErr ''outbox: scan claimed row: '' e []"
| "claim_error Reading e = WrapErr ''outbox: read claimed rows: '' e []"

definition relay_claim :: "query_stage \<Rightarrow> int list \<Rightarrow> int \<Rightarrow> ('z msg_db_scheme, 'w, RelayMessage list) op" where
  "relay_claim stage locked limit =
     andThen (mapErr (claim_error stage) (sql (sql_ClaimOutbox locked limit)))
       (\<lambda>rows. ret (map to_message rows))"

definition sql_MarkPublished :: "int list \<Rightarrow> 'z msg_db_scheme \<Rightarrow> (err + int) \<times> 'z msg_db_scheme" where
  "sql_MarkPublished ids db =
     (Inr (int (length (filter (\<lambda>r. ob_ID r \<in> set ids) (outbox db)))),
      db\<lparr>outbox := set_where (\<lambda>r. ob_ID r \<in> set ids) (\<lambda>r. r\<lparr>ob_PublishedAt := Some (db_now db)\<rparr>)
           (outbox db)\<rparr>)"

definition relay_markPublished :: "RelayMessage list \<Rightarrow> ('z msg_db_scheme, 'w, unit) op" where
  "relay_markPublished messages =
     (let ids = map msg_ID messages; n = show_int (int (length ids)) in
      andThen (mapErr (\<lambda>e. WrapErr (''outbox: mark '' @ n @ '' row(s) published: '') e [])
                (sql (sql_MarkPublished ids)))
        (\<lambda>affected.
           if affected \<noteq> int (length ids)
           then fail (PlainErr (''outbox: marked '' @ show_int affected @ '' row(s) published, want '' @ n))
           else ret ()))"

definition relay_batch ::
  "'w writer \<Rightarrow> query_stage \<Rightarrow> int list \<Rightarrow> int \<Rightarrow> ('z msg_db_scheme, 'w, int) op" where
  "relay_batch W stage locked limit =
     andThen (relay_claim stage locked limit) (\<lambda>messages.
       if messages = [] then ret 0
       else andThen (mapErr (\<lambda>e. WrapErr (''outbox: publish '' @ show_int (int (length messages)) @ '' message(s): '') e [])
              (kafkax_Publish W messages)) (\<lambda>_.
            andThen (relay_markPublished messages) (\<lambda>_. ret (int (length messages)))))"

definition relay_publishBatch ::
  "'w writer \<Rightarrow> query_stage \<Rightarrow> int list \<Rightarrow> int \<Rightarrow> ('z msg_db_scheme, 'w, int) op" where
  "relay_publishBatch W stage locked limit = Do (relay_batch W stage locked limit)"

text \<open>\<open>NewRelay\<close>'s checks of its configuration, with the error of registering the metrics as an
  argument, and \<open>Run\<close>'s loop over the batches.\<close>

definition relay_New :: "bool \<Rightarrow> err option \<Rightarrow> poll_config \<Rightarrow> int \<Rightarrow> err + poll_config" where
  "relay_New has_publisher metrics cfg stats_interval =
     (if \<not> has_publisher then Inl (PlainErr ''outbox: relay needs a publisher'')
      else if pc_BatchSize cfg < 1
      then Inl (PlainErr (''outbox: BatchSize is '' @ show_int (pc_BatchSize cfg) @ '', want at least 1''))
      else if pc_Interval cfg \<le> 0
      then Inl (PlainErr (''outbox: PollInterval is '' @ show_duration (pc_Interval cfg) @ '', want a positive duration''))
      else if pc_MaxBackoff cfg < pc_Interval cfg
      then Inl (PlainErr (''outbox: MaxBackoff is '' @ show_duration (pc_MaxBackoff cfg) @
             '', want at least PollInterval ('' @ show_duration (pc_Interval cfg) @ '')''))
      else if stats_interval \<le> 0
      then Inl (PlainErr (''outbox: StatsInterval is '' @ show_duration stats_interval @ '', want a positive duration''))
      else (case metrics of Some e \<Rightarrow> Inl e | None \<Rightarrow> Inr cfg))"

definition relay_Run :: "poll_config \<Rightarrow> (bool \<times> (err + int)) list \<Rightarrow> poll_state \<Rightarrow> poll_next list \<times> poll_state" where
  "relay_Run = poll_run"

lemma relay_New_ok: "relay_New b metrics cfg st = Inr cfg' \<Longrightarrow> cfg' = cfg \<and> poll_ok cfg"
  by (auto simp: relay_New_def poll_ok_def split: if_splits option.splits)

lemma keeps_relay [keeps]: "keeps_tx (relay_batch W stage locked n)"
  unfolding relay_batch_def relay_claim_def kafkax_Publish_def relay_markPublished_def Let_def
  by (intro keeps)

subsection \<open>What the broker is relied on for\<close>

text \<open>With every in-sync replica acknowledging, a call that returns no error has written each of its
  messages; a call that returns one may have written any of them, once or, the client retrying by
  itself, several times, in any order across partitions. Nothing that was written goes away.\<close>

definition acked_is_written :: "'w writer \<Rightarrow> ('w \<Rightarrow> kafka_message list) \<Rightarrow> bool" where
  "acked_is_written W log \<longleftrightarrow> (\<forall>batch w r w'. W batch w = (r, w') \<longrightarrow>
     (\<exists>new. log w' = log w @ new \<and> set new \<subseteq> set batch \<and> (\<not> isl r \<longrightarrow> set batch \<subseteq> set new)))"

lemma acked_is_writtenE:
  assumes "acked_is_written W log" and "W batch w = (r, w')"
  obtains new where "log w' = log w @ new" "set new \<subseteq> set batch" "\<not> isl r \<Longrightarrow> set batch \<subseteq> set new"
  using assms unfolding acked_is_written_def by blast

abbreviation wire :: "outbox_row \<Rightarrow> kafka_message" where
  "wire r \<equiv> to_kafka (to_message r)"

lemma to_message_id [simp]: "msg_ID (to_message r) = ob_ID r"
  by (simp add: to_message_def)

lemma wire_published [simp]: "wire (r\<lparr>ob_PublishedAt := p\<rparr>) = wire r"
  by (simp add: to_kafka_def to_message_def)

lemma kafkax_Publish_written:
  assumes W: "acked_is_written W log" and run: "kafkax_Publish W ms s = (r, s')"
  shows "w_db s' = w_db s \<and> (\<exists>new. log (w_ext s') = log (w_ext s) @ new \<and> set new \<subseteq> to_kafka ` set ms \<and>
    (\<not> isl r \<longrightarrow> to_kafka ` set ms \<subseteq> set new))"
proof (cases "ms = []")
  case True
  with run show ?thesis by (auto simp: kafkax_Publish_def ret_def)
next
  case False
  obtain r0 where p: "rpc (W (map to_kafka ms)) s = (r0, s')" "isl r0 = isl r"
    using run False by (auto simp: kafkax_Publish_def mapErr_def withResult_def fail_def ret_def split: prod.splits sum.splits)
  obtain rw w' where w: "W (map to_kafka ms) (w_ext s) = (rw, w')" by (cases "W (map to_kafka ms) (w_ext s)")
  obtain new where new: "log w' = log (w_ext s) @ new" "set new \<subseteq> set (map to_kafka ms)"
      "\<not> isl rw \<Longrightarrow> set (map to_kafka ms) \<subseteq> set new"
    by (rule acked_is_writtenE [OF W w]) (rule that; assumption)
  have db: "w_db s' = w_db s" using rpc_frame [OF p(1)] by simp
  show ?thesis
  proof (cases r0)
    case (Inl e)
    have "w_ext s' = w_ext s \<or> w_ext s' = w'" using rpc_ext [OF p(1)] w by simp
    then show ?thesis
    proof
      assume "w_ext s' = w_ext s"
      with db Inl p(2) show ?thesis by (intro conjI exI [of _ "[]"]) auto
    next
      assume "w_ext s' = w'"
      with db Inl p(2) new(1,2) show ?thesis by (intro conjI exI [of _ new]) auto
    qed
  next
    case (Inr u)
    from rpc_success [OF p(1) [unfolded Inr]] w have "w_ext s' = w'" "\<not> isl rw" by auto
    with db new show ?thesis by (intro conjI exI [of _ new]) auto
  qed
qed

subsection \<open>One outbox, its relays and the broker\<close>

text \<open>What happens to the outbox of a service and to the broker, with every fault: a transaction of
  the service commits records whose ids it drew when it wrote them, before or after the ids of
  transactions that committed earlier; a relay runs one cycle while others hold any rows locked;
  time passes.\<close>

inductive relay_step ::
  "'w writer \<Rightarrow> 'z msg_db_scheme \<times> 'w \<Rightarrow> 'z msg_db_scheme \<times> 'w \<Rightarrow> bool" for W where
  announce: "outbox_Write rs \<lparr>w_db = db\<lparr>outbox_next := k\<rparr>, w_ext = w, w_sched = sched, w_tx = True\<rparr> = (Inr u, s') \<Longrightarrow>
     \<forall>r \<in> set (outbox db). ob_ID r < k \<or> k + int (length rs) \<le> ob_ID r \<Longrightarrow>
     relay_step W (db, w) (w_db s', w)"
| publish: "relay_publishBatch W stage locked n \<lparr>w_db = db, w_ext = w, w_sched = sched, w_tx = False\<rparr> = (r, s') \<Longrightarrow>
     relay_step W (db, w) (w_db s', w_ext s')"
| tick: "relay_step W (db, w) (db\<lparr>db_now := t\<rparr>, w)"

definition relay_inv :: "('w \<Rightarrow> kafka_message list) \<Rightarrow> 'z msg_db_scheme \<Rightarrow> 'w \<Rightarrow> bool" where
  "relay_inv log db w \<longleftrightarrow> distinct (map ob_ID (outbox db)) \<and>
     (\<forall>r \<in> set (outbox db). ob_PublishedAt r \<noteq> None \<longrightarrow> wire r \<in> set (log w)) \<and>
     set (log w) \<subseteq> wire ` set (outbox db)"

text \<open>How a row and the log may change.\<close>

definition row_kept :: "outbox_row \<Rightarrow> outbox_row \<Rightarrow> bool" where
  "row_kept r r' \<longleftrightarrow> r' = r \<or> (ob_PublishedAt r = None \<and> (\<exists>t. r' = r\<lparr>ob_PublishedAt := Some t\<rparr>))"

definition relay_kept :: "('w \<Rightarrow> kafka_message list) \<Rightarrow> 'z msg_db_scheme \<Rightarrow> 'w \<Rightarrow> 'z msg_db_scheme \<Rightarrow> 'w \<Rightarrow> bool" where
  "relay_kept log db w db' w' \<longleftrightarrow> (\<forall>r \<in> set (outbox db). \<exists>r' \<in> set (outbox db'). row_kept r r') \<and>
     (\<exists>new. log w' = log w @ new)"

lemma row_kept_trans: "row_kept a b \<Longrightarrow> row_kept b c \<Longrightarrow> row_kept a c"
  by (auto simp: row_kept_def)

lemma relay_kept_refl: "relay_kept log db w db w"
  by (auto simp: relay_kept_def row_kept_def)

lemma relay_kept_trans:
  "relay_kept log db w db' w' \<Longrightarrow> relay_kept log db' w' db'' w'' \<Longrightarrow> relay_kept log db w db'' w''"
  unfolding relay_kept_def by (metis row_kept_trans append.assoc)

lemma relay_claimed_rows: "sql_ClaimOutbox locked n db = (Inr rows, db') \<Longrightarrow>
  db' = db \<and> set rows \<subseteq> set (outbox db) \<and> (\<forall>r \<in> set rows. ob_PublishedAt r = None)"
  by (auto simp: sql_ClaimOutbox_def dest!: in_set_takeD)

text \<open>What a transaction of the relay may leave behind: on an error the log alone.\<close>

lemma relay_batch_cases:
  assumes W: "acked_is_written W log" and run: "relay_batch W stage locked n s = (r, s')"
  obtains rows new where "set rows \<subseteq> set (outbox (w_db s))" "\<forall>b \<in> set rows. ob_PublishedAt b = None"
    "log (w_ext s') = log (w_ext s) @ new" "set new \<subseteq> wire ` set rows"
    "\<not> isl r \<Longrightarrow> wire ` set rows \<subseteq> set new \<and>
      (w_db s' = w_db s \<or> w_db s' = snd (sql_MarkPublished (map ob_ID rows) (w_db s)))"
proof -
  obtain rc s1 where c: "sql (sql_ClaimOutbox locked n) s = (rc, s1)" by (cases "sql (sql_ClaimOutbox locked n) s")
  have "snd (sql_ClaimOutbox locked n (w_db s)) = w_db s" by (simp add: sql_ClaimOutbox_def)
  with sql_frame [OF c] sql_db [OF c] have s1: "w_db s1 = w_db s" "w_ext s1 = w_ext s" by auto
  show ?thesis
  proof (cases rc)
    case (Inl e)
    with run c have "isl r" "s' = s1" by (auto simp: relay_batch_def relay_claim_def andThen_def withResult_def mapErr_def fail_def)
    with s1 show ?thesis by (intro that [of "[]" "[]"]) simp_all
  next
    case (Inr rows)
    from sql_success [OF c [unfolded Inr]] relay_claimed_rows
    have rows: "set rows \<subseteq> set (outbox (w_db s))" "\<forall>b \<in> set rows. ob_PublishedAt b = None" by metis+
    show ?thesis
    proof (cases "rows = []")
      case True
      with run c Inr have "s' = s1" by (auto simp: relay_batch_def relay_claim_def andThen_def withResult_def mapErr_def ret_def)
      with s1 True show ?thesis by (intro that [of "[]" "[]"]) simp_all
    next
      case False
      obtain rp s2 where p: "kafkax_Publish W (map to_message rows) s1 = (rp, s2)"
        by (cases "kafkax_Publish W (map to_message rows) s1")
      from kafkax_Publish_written [OF W p] s1 obtain new where new: "w_db s2 = w_db s"
          "log (w_ext s2) = log (w_ext s) @ new" "set new \<subseteq> wire ` set rows" "\<not> isl rp \<longrightarrow> wire ` set rows \<subseteq> set new"
        by (auto simp: image_image)
      show ?thesis
      proof (cases rp)
        case (Inl e)
        with run c Inr False p have "isl r" "s' = s2"
          by (auto simp: relay_batch_def relay_claim_def andThen_def withResult_def mapErr_def fail_def ret_def)
        with new rows show ?thesis by (intro that [of rows new]) simp_all
      next
        case rp: (Inr u)
        obtain rk s3 where mk: "relay_markPublished (map to_message rows) s2 = (rk, s3)"
          by (cases "relay_markPublished (map to_message rows) s2")
        obtain rm s4 where m: "sql (sql_MarkPublished (map ob_ID rows)) s2 = (rm, s4)"
          by (cases "sql (sql_MarkPublished (map ob_ID rows)) s2")
        have ids: "map msg_ID (map to_message rows) = map ob_ID rows" by (simp add: to_message_def)
        have s3: "s3 = s4" "\<not> isl rk \<longrightarrow> \<not> isl rm"
          using mk m unfolding relay_markPublished_def ids Let_def
          by (cases rm; auto simp: andThen_def withResult_def mapErr_def fail_def ret_def split: if_splits)+
        from run c Inr False p rp mk have s': "s' = s3" "\<not> isl r \<longrightarrow> \<not> isl rk"
          by (auto simp: relay_batch_def relay_claim_def andThen_def withResult_def mapErr_def fail_def ret_def
              split: sum.splits)
        have ext: "w_ext s3 = w_ext s2" using sql_frame [OF m] s3(1) by simp
        have db: "w_db s3 = w_db s \<or> w_db s3 = snd (sql_MarkPublished (map ob_ID rows) (w_db s))"
          using sql_db [OF m] s3(1) new(1) by simp
        show ?thesis
          by (rule that [of rows new]) (use rows new ext s' db rp in auto)
      qed
    qed
  qed
qed

lemma relay_invI:
  assumes "distinct (map ob_ID (outbox db))" and "\<And>r. r \<in> set (outbox db) \<Longrightarrow> ob_PublishedAt r \<noteq> None \<Longrightarrow> wire r \<in> set (log w)"
    and "set (log w) \<subseteq> wire ` set (outbox db)"
  shows "relay_inv log db w"
  using assms unfolding relay_inv_def by blast

lemma relay_invD:
  assumes "relay_inv log db w"
  shows "distinct (map ob_ID (outbox db))" "\<And>r. r \<in> set (outbox db) \<Longrightarrow> ob_PublishedAt r \<noteq> None \<Longrightarrow> wire r \<in> set (log w)"
    "set (log w) \<subseteq> wire ` set (outbox db)"
  using assms unfolding relay_inv_def by blast+

lemma log_kept:
  assumes inv: "relay_inv log db w" and "log w' = log w @ new" "set new \<subseteq> wire ` set (outbox db)"
  shows "relay_inv log db w' \<and> relay_kept log db w db w'"
proof -
  have "relay_inv log db w'"
    by (rule relay_invI) (use relay_invD [OF inv] assms(2,3) in auto)
  then show ?thesis using assms(2) by (auto simp: relay_kept_def row_kept_def)
qed

lemma mark_kept:
  assumes inv: "relay_inv log db w" and rows: "set rows \<subseteq> set (outbox db)" "\<forall>b \<in> set rows. ob_PublishedAt b = None"
    and log: "log w' = log w @ new" "set new \<subseteq> wire ` set rows" "wire ` set rows \<subseteq> set new"
  shows "relay_inv log (snd (sql_MarkPublished (map ob_ID rows) db)) w' \<and>
      relay_kept log db w (snd (sql_MarkPublished (map ob_ID rows) db)) w'"
proof -
  let ?f = "\<lambda>r. if ob_ID r \<in> ob_ID ` set rows then r\<lparr>ob_PublishedAt := Some (db_now db)\<rparr> else r"
  let ?db = "snd (sql_MarkPublished (map ob_ID rows) db)"
  note i = relay_invD [OF inv]
  have t: "outbox ?db = map ?f (outbox db)" by (simp add: sql_MarkPublished_def set_where_def)
  have mine: "r \<in> set rows" if "r \<in> set (outbox db)" "ob_ID r \<in> ob_ID ` set rows" for r
  proof -
    from that(2) obtain b where b: "b \<in> set rows" "ob_ID b = ob_ID r" by auto
    with distinct_map_inj [OF i(1), of b r] rows(1) that(1) show ?thesis by auto
  qed
  have wf: "wire (?f r) = wire r" for r by simp
  have "wire ` set (outbox ?db) = (\<lambda>r. wire (?f r)) ` set (outbox db)" unfolding t by (simp only: set_map image_image)
  then have wires: "wire ` set (outbox ?db) = wire ` set (outbox db)" unfolding wf .
  have "set new \<subseteq> wire ` set (outbox db)" using log(2) image_mono [OF rows(1), of wire] by blast
  then have "set (log w') \<subseteq> wire ` set (outbox ?db)" unfolding wires using i(3) log(1) by simp
  moreover have "wire r' \<in> set (log w')" if r': "r' \<in> set (outbox ?db)" "ob_PublishedAt r' \<noteq> None" for r'
  proof -
    from r'(1) obtain r where r: "r \<in> set (outbox db)" "r' = ?f r" unfolding t by auto
    show ?thesis
    proof (cases "ob_ID r \<in> ob_ID ` set rows")
      case True
      with mine [OF r(1)] log(3) have "wire r \<in> set new" by blast
      with r(2) log(1) show ?thesis by simp
    next
      case False
      with r r'(2) i(2) [of r] log(1) show ?thesis by simp
    qed
  qed
  moreover have "map ob_ID (outbox ?db) = map ob_ID (outbox db)" unfolding t by simp
  ultimately have "relay_inv log ?db w'" using i(1) by (intro relay_invI) simp_all
  moreover have "\<exists>r' \<in> set (outbox ?db). row_kept r r'" if r: "r \<in> set (outbox db)" for r
  proof (rule bexI [of _ "?f r"])
    show "?f r \<in> set (outbox ?db)" unfolding t using r by simp
    show "row_kept r (?f r)" using mine [OF r] rows(2) by (auto simp: row_kept_def)
  qed
  ultimately show ?thesis using log(1) by (simp add: relay_kept_def)
qed

lemma announce_kept:
  assumes inv: "relay_inv log db w" and fresh: "\<forall>r \<in> set (outbox db). ob_ID r < k \<or> k + int (length rs) \<le> ob_ID r"
  shows "relay_inv log (snd (sql_WriteOutbox rs (db\<lparr>outbox_next := k\<rparr>))) w \<and>
    relay_kept log db w (snd (sql_WriteOutbox rs (db\<lparr>outbox_next := k\<rparr>))) w"
proof -
  let ?new = "map (\<lambda>(i, r). outbox_row_of (db_now db) (k + int i) r) (enumerate 0 rs)"
  let ?db = "snd (sql_WriteOutbox rs (db\<lparr>outbox_next := k\<rparr>))"
  have t: "outbox ?db = outbox db @ ?new" by (simp add: sql_WriteOutbox_def)
  have ids: "map ob_ID ?new = map (\<lambda>i. k + int i) [0..<length rs]"
    by (rule nth_equalityI) (auto simp: nth_enumerate_eq outbox_row_of_def)
  have "distinct (map ob_ID ?new)" unfolding ids by (simp add: distinct_map inj_on_def)
  moreover have "ob_ID ` set (outbox db) \<inter> set (map ob_ID ?new) = {}" unfolding ids using fresh by force
  ultimately have "distinct (map ob_ID (outbox ?db))" unfolding t using inv by (simp add: relay_inv_def)
  moreover have "\<forall>r \<in> set ?new. ob_PublishedAt r = None" by (auto simp: outbox_row_of_def)
  ultimately show ?thesis using inv unfolding relay_inv_def relay_kept_def t
    by (auto simp: row_kept_def)
qed

lemma relay_step_kept:
  assumes W: "acked_is_written W log" and "relay_step W a b" and "relay_inv log (fst a) (snd a)"
  shows "relay_inv log (fst b) (snd b) \<and> relay_kept log (fst a) (snd a) (fst b) (snd b)"
  using assms(2,3)
proof cases
  case (announce rs k db w sched u s')
  show ?thesis
  proof (cases "rs = []")
    case True
    with announce assms(3) outbox_Write_Inr(1) [OF announce(3)] show ?thesis
      by (auto simp: relay_inv_def relay_kept_def row_kept_def)
  next
    case False
    with outbox_Write_Inr(1) [OF announce(3)] announce(1,2) announce_kept [of log db w k rs] announce(4) assms(3)
    show ?thesis by simp
  qed
next
  case (publish stage locked n db w sched r s')
  let ?s = "\<lparr>w_db = db, w_ext = w, w_sched = sched, w_tx = False\<rparr>"
  have inv: "relay_inv log db w" using assms(3) publish(1) by simp
  have d: "Do (relay_batch W stage locked n) ?s = (r, s')" using publish(3) by (simp add: relay_publishBatch_def)
  from d have "relay_inv log (w_db s') (w_ext s') \<and> relay_kept log db w (w_db s') (w_ext s')"
  proof (cases rule: Do_cases [case_names tx not_begun undone kept])
    case not_begun
    with inv show ?thesis by (simp add: relay_kept_refl)
  next
    case (undone r1 s1 s2)
    obtain rows new where b: "set rows \<subseteq> set (outbox (w_db s1))" "\<forall>b \<in> set rows. ob_PublishedAt b = None"
        "log (w_ext s2) = log (w_ext s1) @ new" "set new \<subseteq> wire ` set rows"
      by (rule relay_batch_cases [OF W undone(1)]) (rule that; assumption)
    then have "set new \<subseteq> wire ` set (outbox db)" using image_mono [of "set rows" "set (outbox db)" wire] undone(2) by auto
    with log_kept [OF inv, of "w_ext s2" new] b(3) undone show ?thesis by simp
  next
    case (kept x s1 s2)
    obtain rows new where b: "set rows \<subseteq> set (outbox (w_db s1))" "\<forall>b \<in> set rows. ob_PublishedAt b = None"
        "log (w_ext s2) = log (w_ext s1) @ new" "set new \<subseteq> wire ` set rows" "wire ` set rows \<subseteq> set new"
        "w_db s2 = w_db s1 \<or> w_db s2 = snd (sql_MarkPublished (map ob_ID rows) (w_db s1))"
      by (rule relay_batch_cases [OF W kept(1)]) (auto intro: that)
    have "set new \<subseteq> wire ` set (outbox db)" using b(1,4) image_mono [of "set rows" "set (outbox db)" wire] kept(2) by auto
    with log_kept [OF inv, of "w_ext s2" new] mark_kept [OF inv _ b(2) _ b(4,5), of "w_ext s2"] b(1,3,6) kept
    show ?thesis by auto
  qed simp
  with publish(1,2) show ?thesis by simp
next
  case (tick db w t)
  with assms(3) show ?thesis by (auto simp: relay_inv_def relay_kept_def row_kept_def)
qed

lemma relay_run_kept:
  assumes W: "acked_is_written W log" and "rtranclp (relay_step W) a b" and "relay_inv log (fst a) (snd a)"
  shows "relay_inv log (fst b) (snd b) \<and> relay_kept log (fst a) (snd a) (fst b) (snd b)"
  using assms(2)
proof (induction rule: rtranclp_induct)
  case base
  with assms(3) show ?case by (simp add: relay_kept_refl)
next
  case (step b c)
  with relay_step_kept [OF W step(2)] show ?case by (auto intro: relay_kept_trans)
qed

text \<open>C25. Nothing announced is lost. Start a service with an empty outbox and a broker that has none
  of its messages; let transactions commit records in any order of their ids, let any number of
  relays run their cycles, with a failure or a lost answer at any round trip and with batches the
  broker took only in part. Then at every moment each row marked published is on the log, the log
  holds nothing but rows of the table, and from there on no row is lost or changed except to be
  marked published, and nothing is taken off the log. Duplicates are possible, losses are not.\<close>

theorem relay_loses_nothing:
  assumes "acked_is_written W log" and "log w0 = []"
    and "rtranclp (relay_step W) (\<lparr>outbox = [], outbox_next = 1, processed_events = ps, db_now = t\<rparr>, w0) (db, w)"
    and "rtranclp (relay_step W) (db, w) (db', w')"
  shows "(\<forall>r \<in> set (outbox db). ob_PublishedAt r \<noteq> None \<longrightarrow> to_kafka (to_message r) \<in> set (log w)) \<and>
    set (log w) \<subseteq> (\<lambda>r. to_kafka (to_message r)) ` set (outbox db) \<and>
    (\<forall>r \<in> set (outbox db). \<exists>r' \<in> set (outbox db').
       r' = r \<or> (ob_PublishedAt r = None \<and> (\<exists>t. r' = r\<lparr>ob_PublishedAt := Some t\<rparr>))) \<and>
    (\<exists>new. log w' = log w @ new)"
proof -
  have "relay_inv log \<lparr>outbox = [], outbox_next = 1, processed_events = ps, db_now = t\<rparr> w0"
    using assms(2) by (simp add: relay_inv_def)
  with relay_run_kept [OF assms(1,3)] have inv: "relay_inv log db w" by simp
  with relay_run_kept [OF assms(1,4)] have "relay_kept log db w db' w'" by simp
  with inv show ?thesis by (simp add: relay_inv_def relay_kept_def row_kept_def)
qed

text \<open>A broker for the witnesses: it appends the batch, but of a batch with the topic \<open>down\<close> it takes
  the first message only and fails.\<close>

definition partial_writer :: "kafka_message list writer" where
  "partial_writer batch log =
     (if km_Topic ` set batch \<subseteq> {''t''} then (Inr (), log @ batch)
      else (Inl (PlainErr ''kafka: leader not available''), log @ take 1 batch))"

lemma partial_writer_ok: "acked_is_written partial_writer (\<lambda>log. log)"
  by (auto simp: acked_is_written_def partial_writer_def dest: in_set_takeD split: if_splits)

lemma announce_step:
  "rec_validate r = Inr () \<Longrightarrow> \<forall>b \<in> set (outbox db). ob_ID b < k \<or> k + 1 \<le> ob_ID b \<Longrightarrow>
   relay_step W (db, w) (snd (sql_WriteOutbox [r] (db\<lparr>outbox_next := k\<rparr>)), w)"
  using relay_step.announce [of "[r]" k db w "[]" "()"
      "\<lparr>w_db = snd (sql_WriteOutbox [r] (db\<lparr>outbox_next := k\<rparr>)), w_ext = w, w_sched = [], w_tx = True\<rparr>" W]
  by (simp add: outbox_Write_def op_inv sql_no_fault sql_WriteOutbox_def)

lemma publish_step:
  "relay_step W (db, w)
     (w_db (snd (relay_publishBatch W stage locked n \<lparr>w_db = db, w_ext = w, w_sched = sched, w_tx = False\<rparr>)),
      w_ext (snd (relay_publishBatch W stage locked n \<lparr>w_db = db, w_ext = w, w_sched = sched, w_tx = False\<rparr>)))"
  by (rule relay_step.publish) (rule prod.collapse [symmetric])

definition shelf_rec :: OutboxRecord where
  "shelf_rec = \<lparr>rec_AggregateType = ''order'', rec_AggregateID = ''o'', rec_EventType = ''OrderPaid'',
     rec_Topic = ''t'', rec_Payload = ''p'', rec_Headers = []\<rparr>"

text \<open>A row whose id is not the lowest, a publish whose commit fails, and a second publish: the message
  is on the log twice and the row is marked.\<close>

theorem relay_loses_nothing_witness:
  "\<exists>db log. rtranclp (relay_step partial_writer)
       (\<lparr>outbox = [], outbox_next = 1, processed_events = [], db_now = 5000\<rparr>, []) (db, log) \<and>
     map km_Value log = [''p'', ''p''] \<and> map ob_PublishedAt (outbox db) = [Some 5000] \<and>
     set log \<subseteq> (\<lambda>r. to_kafka (to_message r)) ` set (outbox db)"
proof -
  let ?start = "\<lparr>outbox = [], outbox_next = 1, processed_events = [], db_now = 5000\<rparr> :: msg_db"
  let ?pub = "\<lambda>db log sched. snd (relay_publishBatch partial_writer Querying [] 10
      \<lparr>w_db = db, w_ext = log, w_sched = sched, w_tx = False\<rparr>)"
  let ?db1 = "snd (sql_WriteOutbox [shelf_rec] (?start\<lparr>outbox_next := 7\<rparr>))"
  let ?s2 = "?pub ?db1 [] [Done, Done, Done, Done, Failed]"
  let ?s3 = "?pub (w_db ?s2) (w_ext ?s2) []"
  have "relay_step partial_writer (?start, []) (?db1, [])" by (rule announce_step) code_simp+
  then have "rtranclp (relay_step partial_writer) (?start, []) (?db1, [])" by (rule r_into_rtranclp)
  also have "relay_step partial_writer (?db1, []) (w_db ?s2, w_ext ?s2)" by (rule publish_step)
  also have "relay_step partial_writer (w_db ?s2, w_ext ?s2) (w_db ?s3, w_ext ?s3)" by (rule publish_step)
  finally have reach: "rtranclp (relay_step partial_writer) (?start, []) (w_db ?s3, w_ext ?s3)" .
  have v: "map km_Value (w_ext ?s3) = [''p'', ''p'']" by code_simp
  have p: "map ob_PublishedAt (outbox (w_db ?s3)) = [Some 5000]" by code_simp
  note all = relay_loses_nothing [OF partial_writer_ok refl reach rtranclp.rtrancl_refl, THEN conjunct2, THEN conjunct1]
  show ?thesis
    by (rule exI, rule exI, rule conjI, rule reach, rule conjI, rule v, rule conjI, rule p, rule all)
qed

text \<open>C26. And what is announced is published: a cycle whose round trips do not fail, with a broker that
  takes the batch, hands it exactly the lowest unpublished and unlocked ids, in their order, as
  many as the batch holds, marks exactly those rows and reports their number.\<close>

theorem relay_publishes_due:
  fixes n :: int and locked :: "int list" and s :: "('z msg_db_scheme, 'w) world"
  assumes "w_sched s = []" and "\<not> w_tx s" and "distinct (map ob_ID (outbox (w_db s)))"
  defines "due \<equiv> take (nat n) (sort_key ob_ID (filter (\<lambda>r. ob_PublishedAt r = None \<and> ob_ID r \<notin> set locked) (outbox (w_db s))))"
  assumes "due \<noteq> []" and "W (map (\<lambda>r. to_kafka (to_message r)) due) (w_ext s) = (Inr (), w')"
  shows "relay_publishBatch W stage locked n s =
    (Inr (int (length due)),
     s\<lparr>w_ext := w', w_db := (w_db s)\<lparr>outbox :=
         map (\<lambda>r. if r \<in> set due then r\<lparr>ob_PublishedAt := Some (db_now (w_db s))\<rparr> else r) (outbox (w_db s))\<rparr>\<rparr>)"
proof -
  let ?t = "outbox (w_db s)" and ?P = "\<lambda>r. ob_ID r \<in> ob_ID ` set due"
  have sub: "set due \<subseteq> set ?t" by (auto simp: due_def dest!: in_set_takeD)
  have mine: "?P r \<longleftrightarrow> r \<in> set due" if "r \<in> set ?t" for r
    using that sub distinct_map_inj [OF assms(3)] by blast
  have dd: "distinct due"
    using assms(3) by (auto simp: due_def distinct_map intro!: distinct_take)
  have "filter ?P ?t = filter (\<lambda>r. r \<in> set due) ?t" using mine by (intro filter_cong) auto
  moreover have "set (filter (\<lambda>r. r \<in> set due) ?t) = set due" using sub by auto
  moreover have "distinct (filter (\<lambda>r. r \<in> set due) ?t)" using assms(3) by (simp add: distinct_map)
  ultimately have len: "length (filter ?P ?t) = length due" using dd by (metis distinct_card)
  have mark: "map (\<lambda>r. if ?P r then r\<lparr>ob_PublishedAt := Some (db_now (w_db s))\<rparr> else r) ?t =
      map (\<lambda>r. if r \<in> set due then r\<lparr>ob_PublishedAt := Some (db_now (w_db s))\<rparr> else r) ?t"
    using mine by (intro map_cong) auto
  have claim: "sql_ClaimOutbox locked n (w_db s) = (Inr due, w_db s)" by (simp add: sql_ClaimOutbox_def due_def)
  let ?marked = "(w_db s)\<lparr>outbox :=
      map (\<lambda>r. if r \<in> set due then r\<lparr>ob_PublishedAt := Some (db_now (w_db s))\<rparr> else r) ?t\<rparr>"
  have m: "sql_MarkPublished (map ob_ID due) (w_db s) = (Inr (int (length due)), ?marked)"
    using len mark by (simp add: sql_MarkPublished_def set_where_def)
  have mk: "relay_markPublished (map to_message due) t = (Inr (), t\<lparr>w_db := ?marked\<rparr>)"
    if "w_sched t = []" "w_db t = w_db s" for t :: "('z msg_db_scheme, 'w) world"
  proof -
    have ids: "map msg_ID (map to_message due) = map ob_ID due" by simp
    have "sql (sql_MarkPublished (map ob_ID due)) t = (Inr (int (length due)), t\<lparr>w_db := ?marked\<rparr>)"
      using that m by (simp add: sql_no_fault)
    then show ?thesis
      unfolding relay_markPublished_def Let_def ids by (simp add: andThen_def withResult_def mapErr_def ret_def)
  qed
  have W: "W (map to_kafka (map to_message due)) (w_ext s) = (Inr (), w')" using assms(6) by (simp add: comp_def)
  let ?s1 = "s\<lparr>w_tx := True, w_ext := w', w_db := ?marked\<rparr>"
  have "relay_batch W stage locked n (s\<lparr>w_tx := True\<rparr>) = (Inr (int (length due)), ?s1)"
    using assms(1,5) claim W mk
    by (simp add: relay_batch_def relay_claim_def kafkax_Publish_def andThen_def withResult_def
        mapErr_def ret_def sql_no_fault rpc_no_fault)
  from Do_no_fault [where s = s and fn = "relay_batch W stage locked n", OF assms(1,2) this] assms(1,2)
  show ?thesis by (simp add: relay_publishBatch_def)
qed

definition shelf_db :: msg_db where
  "shelf_db = snd (sql_WriteOutbox [shelf_rec, shelf_rec] \<lparr>outbox = [], outbox_next = 3, processed_events = [], db_now = 5000\<rparr>)"

theorem relay_publishes_due_witness:
  "fst (relay_publishBatch partial_writer Reading [3] 10 \<lparr>w_db = shelf_db, w_ext = [], w_sched = [], w_tx = False\<rparr>) = Inr 1"
proof -
  let ?s = "\<lparr>w_db = shelf_db, w_ext = [], w_sched = [], w_tx = False\<rparr> :: (msg_db, kafka_message list) world"
  let ?due = "take (nat 10) (sort_key ob_ID (filter (\<lambda>r. ob_PublishedAt r = None \<and> ob_ID r \<notin> set [3]) (outbox (w_db ?s))))"
  have d: "distinct (map ob_ID (outbox (w_db ?s)))" by code_simp
  have n: "?due \<noteq> []" "int (length ?due) = 1" by code_simp+
  have w: "partial_writer (map (\<lambda>r. to_kafka (to_message r)) ?due) (w_ext ?s) =
      (Inr (), snd (partial_writer (map (\<lambda>r. to_kafka (to_message r)) ?due) (w_ext ?s)))"
    by code_simp
  from relay_publishes_due [where s = ?s and n = 10 and locked = "[3]" and W = partial_writer and stage = Reading,
      OF _ _ d n(1) w] n(2) show ?thesis by simp
qed

end
