(* ===== verification/Consumer.thy ===== *)
theory Consumer
  imports Relay
begin

text \<open>
  \<open>pkg/kafkax\<close>'s consumer: one message is handed to the handler up to \<open>MaxAttempts\<close>
  times, then written to the dead-letter topic, and its offset is committed only after one of the
  two. Whether the context is cancelled during the pause after an attempt, and whether it is
  cancelled when the commit fails, are arguments, and so are the kafka client's calls.
\<close>

record consumer_config =
  kc_GroupID :: gostring
  kc_Topic :: gostring
  kc_MaxAttempts :: int

definition kx_NewConsumer ::
  "gostring list \<Rightarrow> consumer_config \<Rightarrow> bool \<Rightarrow> err option \<Rightarrow> err + consumer_config" where
  "kx_NewConsumer brokers cfg has_dlq metrics =
     (if brokers = [] then Inl (PlainErr ''kafkax: consumer needs at least one broker'')
      else if kc_GroupID cfg = [] then Inl (PlainErr ''kafkax: consumer needs a group id'')
      else if kc_Topic cfg = [] then Inl (PlainErr ''kafkax: consumer needs a topic'')
      else if \<not> has_dlq then Inl (PlainErr ''kafkax: consumer needs a publisher for its dead letters'')
      else if kc_MaxAttempts cfg < 1
      then Inl (PlainErr (''kafkax: MaxAttempts is '' @ show_int (kc_MaxAttempts cfg) @ '', want at least 1''))
      else (case metrics of Some e \<Rightarrow> Inl e | None \<Rightarrow> Inr cfg))"

datatype tried = Handled | Exhausted err | Interrupted

text \<open>The loop over the attempts: the attempt to make and how many are left with it.\<close>

fun kx_attempts :: "('d, 'w, unit) op \<Rightarrow> (nat \<Rightarrow> bool) \<Rightarrow> nat \<Rightarrow> nat \<Rightarrow> ('d, 'w, tried) op" where
  "kx_attempts h cancelled attempt 0 = ret Handled"
| "kx_attempts h cancelled attempt (Suc left) =
     withResult h (\<lambda>r. case r of
        Inr _ \<Rightarrow> ret Handled
      | Inl e \<Rightarrow>
          if left = 0 then ret (Exhausted e)
          else if cancelled attempt then ret Interrupted
          else kx_attempts h cancelled (attempt + 1) left)"

definition dead_letter :: "kafka_message \<Rightarrow> err \<Rightarrow> RelayMessage" where
  "dead_letter m cause =
     \<lparr>msg_ID = 0, msg_AggregateType = [], msg_AggregateID = km_Key m, msg_EventType = [],
      msg_Topic = km_Topic m @ ''.dlq'', msg_Payload = km_Value m,
      msg_Headers = AList.update ''error_reason'' (error_text cause) (km_Headers m),
      msg_CreatedAt = 0\<rparr>"

definition kx_publishDLQ :: "'w writer \<Rightarrow> kafka_message \<Rightarrow> err \<Rightarrow> ('d, 'w, unit) op" where
  "kx_publishDLQ W m cause = kafkax_Publish W [dead_letter m cause]"

definition kx_commit :: "('w \<Rightarrow> (err + unit) \<times> 'w) \<Rightarrow> bool \<Rightarrow> ('d, 'w, unit) op" where
  "kx_commit C ctx_done =
     withResult (rpc C) (\<lambda>r. case r of
        Inr _ \<Rightarrow> ret ()
      | Inl e \<Rightarrow> if ctx_done then ret () else fail (WrapErr ''kafkax: commit offset: '' e []))"

definition kx_process ::
  "'w writer \<Rightarrow> ('w \<Rightarrow> (err + unit) \<times> 'w) \<Rightarrow> consumer_config \<Rightarrow> (nat \<Rightarrow> bool) \<Rightarrow> bool \<Rightarrow>
   (kafka_message \<Rightarrow> ('d, 'w, unit) op) \<Rightarrow> kafka_message \<Rightarrow> ('d, 'w, unit) op" where
  "kx_process W C cfg cancelled ctx_done handle m =
     andThen (kx_attempts (handle m) cancelled 1 (nat (kc_MaxAttempts cfg))) (\<lambda>t.
       case t of
         Interrupted \<Rightarrow> ret ()
       | Handled \<Rightarrow> kx_commit C ctx_done
       | Exhausted e \<Rightarrow>
           andThen (mapErr (\<lambda>e. WrapErr ''kafkax: route message to dead letter: '' e [])
                     (kx_publishDLQ W m e))
             (\<lambda>_. kx_commit C ctx_done))"

subsection \<open>No message is skipped\<close>

text \<open>What the consumer relies on of its broker, seen through the dead-letter topics and the group's
  offset: an acknowledged write is written and moves no offset, \<open>CommitMessages\<close> of the message at
  the offset moves it past that message or fails, and writes nothing.\<close>

definition consumer_broker ::
  "'w writer \<Rightarrow> ('w \<Rightarrow> (err + unit) \<times> 'w) \<Rightarrow> ('w \<Rightarrow> kafka_message list) \<Rightarrow> ('w \<Rightarrow> nat) \<Rightarrow> bool" where
  "consumer_broker W C dead offset \<longleftrightarrow>
     acked_is_written W dead \<and> (\<forall>batch w. offset (snd (W batch w)) = offset w) \<and>
     (\<forall>w. dead (snd (C w)) = dead w \<and> offset (snd (C w)) \<in> {offset w, offset w + 1} \<and>
       (\<not> isl (fst (C w)) \<longrightarrow> offset (snd (C w)) = offset w + 1))"

text \<open>A handler reaches what it reaches, but not the offset of the group that feeds it, nor its
  dead letters.\<close>

definition leaves_broker :: "('w \<Rightarrow> kafka_message list) \<Rightarrow> ('w \<Rightarrow> nat) \<Rightarrow> ('d, 'w, unit) op \<Rightarrow> bool" where
  "leaves_broker dead offset h \<longleftrightarrow> (\<forall>s. dead (w_ext (snd (h s))) = dead (w_ext s) \<and>
     offset (w_ext (snd (h s))) = offset (w_ext s))"

text \<open>The world after \<open>k\<close> calls of the handler in a row, each of which returned an error.\<close>

fun after_failures :: "('d, 'w, unit) op \<Rightarrow> nat \<Rightarrow> ('d, 'w) world \<Rightarrow> ('d, 'w) world option" where
  "after_failures h 0 s = Some s"
| "after_failures h (Suc k) s = (case h s of (Inl _, s') \<Rightarrow> after_failures h k s' | (Inr _, _) \<Rightarrow> None)"

lemma after_failures_still:
  "leaves_broker dead offset h \<Longrightarrow> after_failures h k s = Some s' \<Longrightarrow>
   dead (w_ext s') = dead (w_ext s) \<and> offset (w_ext s') = offset (w_ext s)"
proof (induction k arbitrary: s)
  case (Suc k)
  then obtain e s1 where h: "h s = (Inl e, s1)" "after_failures h k s1 = Some s'"
    by (auto split: prod.splits sum.splits)
  from Suc.prems(1) have "dead (w_ext (snd (h s))) = dead (w_ext s) \<and> offset (w_ext (snd (h s))) = offset (w_ext s)"
    unfolding leaves_broker_def by blast
  with Suc.IH [OF Suc.prems(1) h(2)] h(1) show ?case by simp
qed simp

text \<open>The loop is those calls, one after the other, in this very run.\<close>

lemma kx_attempts_run:
  assumes "kx_attempts h cancelled k n s = (r, s')" and "0 < n"
  shows "(\<exists>i < n. \<exists>s1. r = Inr Handled \<and> after_failures h i s = Some s1 \<and> h s1 = (Inr (), s')) \<or>
    (\<exists>e s1. r = Inr (Exhausted e) \<and> after_failures h (n - 1) s = Some s1 \<and> h s1 = (Inl e, s')) \<or>
    (\<exists>i < n. r = Inr Interrupted \<and> after_failures h (Suc i) s = Some s')"
  using assms
proof (induction n arbitrary: k s)
  case (Suc n)
  obtain r1 s1 where h: "h s = (r1, s1)" by (cases "h s")
  show ?case
  proof (cases r1)
    case (Inr u)
    with Suc.prems h have "r = Inr Handled \<and> after_failures h 0 s = Some s \<and> h s = (Inr (), s')"
      by (simp add: withResult_def ret_def)
    then show ?thesis by blast
  next
    case (Inl e)
    show ?thesis
    proof (cases "n = 0")
      case True
      with Suc.prems h Inl have "r = Inr (Exhausted e) \<and> after_failures h (Suc n - 1) s = Some s \<and> h s = (Inl e, s')"
        by (simp add: withResult_def ret_def)
      then show ?thesis by blast
    next
      case n: False
      show ?thesis
      proof (cases "cancelled k")
        case True
        with Suc.prems h Inl n have "r = Inr Interrupted \<and> after_failures h (Suc 0) s = Some s'"
          by (simp add: withResult_def ret_def)
        then show ?thesis by blast
      next
        case False
        with Suc.prems h Inl n have "kx_attempts h cancelled (k + 1) n s1 = (r, s')" by (simp add: withResult_def)
        from Suc.IH [OF this] n have IH:
          "(\<exists>i < n. \<exists>s2. r = Inr Handled \<and> after_failures h i s1 = Some s2 \<and> h s2 = (Inr (), s')) \<or>
           (\<exists>e s2. r = Inr (Exhausted e) \<and> after_failures h (n - 1) s1 = Some s2 \<and> h s2 = (Inl e, s')) \<or>
           (\<exists>i < n. r = Inr Interrupted \<and> after_failures h (Suc i) s1 = Some s')" by simp
        have more: "after_failures h (Suc i) s = after_failures h i s1" for i using h Inl by simp
        from n have "Suc n - 1 = Suc (n - 1)" by simp
        with IH show ?thesis unfolding more [symmetric] by (metis Suc_mono)
      qed
    qed
  qed
qed simp

lemma kx_commit_cases:
  assumes B: "consumer_broker W C dead offset" and run: "kx_commit C d s = (r, s')"
  shows "dead (w_ext s') = dead (w_ext s) \<and> offset (w_ext s') \<in> {offset (w_ext s), offset (w_ext s) + 1}"
proof -
  obtain r1 s1 where c: "rpc C s = (r1, s1)" by (cases "rpc C s")
  with run have "s' = s1"
    by (auto simp: kx_commit_def withResult_def ret_def fail_def split: sum.splits if_splits)
  moreover from B have "dead (snd (C w)) = dead w \<and> offset (snd (C w)) \<in> {offset w, offset w + 1}" for w
    unfolding consumer_broker_def by blast
  ultimately show ?thesis using rpc_ext [OF c] by (metis insertI1)
qed

lemma kx_publishDLQ_cases:
  assumes B: "consumer_broker W C dead offset" and run: "kx_publishDLQ W m e s = (r, s')"
  shows "offset (w_ext s') = offset (w_ext s) \<and>
    (\<exists>new. dead (w_ext s') = dead (w_ext s) @ new \<and> set new \<subseteq> {to_kafka (dead_letter m e)} \<and>
      (\<not> isl r \<longrightarrow> to_kafka (dead_letter m e) \<in> set new))"
proof -
  from B have W: "acked_is_written W dead" and off: "offset (snd (W batch w)) = offset w" for batch w
    unfolding consumer_broker_def by blast+
  from kafkax_Publish_written [OF W run [unfolded kx_publishDLQ_def]]
  have "\<exists>new. dead (w_ext s') = dead (w_ext s) @ new \<and> set new \<subseteq> {to_kafka (dead_letter m e)} \<and>
      (\<not> isl r \<longrightarrow> to_kafka (dead_letter m e) \<in> set new)" by auto
  moreover obtain r0 where "rpc (W [to_kafka (dead_letter m e)]) s = (r0, s')"
    using run by (auto simp: kx_publishDLQ_def kafkax_Publish_def mapErr_def withResult_def fail_def ret_def
        split: prod.splits sum.splits)
  ultimately show ?thesis using rpc_ext off by metis
qed

text \<open>C27. A consumer never skips a message: whatever fails in processing one message, the group's offset
  moves by at most one, and when it moves, then in this very run either the handler, called again
  after nothing but failures and at most \<open>MaxAttempts\<close> times in all, returned without an error; or
  every one of the \<open>MaxAttempts\<close> calls failed and the message, key and payload intact, is in the
  dead-letter topic with the last error. A run that is interrupted between attempts moves nothing.\<close>

theorem consumer_never_skips:
  assumes "kx_NewConsumer brokers cfg True metrics = Inr cfg" and "consumer_broker W C dead offset"
    and "leaves_broker dead offset (h m)"
    and "kx_process W C cfg cancelled d h m s = (r, s')"
  shows "offset (w_ext s') \<in> {offset (w_ext s), offset (w_ext s) + 1} \<and>
    (offset (w_ext s') \<noteq> offset (w_ext s) \<longrightarrow>
      (\<exists>k s1 s2. k < nat (kc_MaxAttempts cfg) \<and> after_failures (h m) k s = Some s1 \<and> h m s1 = (Inr (), s2) \<and>
         dead (w_ext s') = dead (w_ext s)) \<or>
      (\<exists>e s1 s2 new. after_failures (h m) (nat (kc_MaxAttempts cfg) - 1) s = Some s1 \<and> h m s1 = (Inl e, s2) \<and>
         dead (w_ext s') = dead (w_ext s) @ new \<and>
         \<lparr>km_Topic = km_Topic m @ ''.dlq'', km_Key = km_Key m, km_Value = km_Value m,
          km_Headers = AList.update ''error_reason'' (error_text e) (km_Headers m)\<rparr> \<in> set new))"
proof -
  let ?n = "nat (kc_MaxAttempts cfg)"
  from assms(1) have n: "0 < ?n" by (auto simp: kx_NewConsumer_def split: if_splits option.splits)
  obtain rt s1 where a: "kx_attempts (h m) cancelled 1 ?n s = (rt, s1)" by (cases "kx_attempts (h m) cancelled 1 ?n s")
  have still: "dead (w_ext t2) = dead (w_ext s) \<and> offset (w_ext t2) = offset (w_ext s)"
    if "after_failures (h m) k s = Some t1" "h m t1 = (x, t2)" for k t1 x t2
    using after_failures_still [OF assms(3) that(1)] assms(3) that(2) unfolding leaves_broker_def by (metis snd_conv)
  have letter: "to_kafka (dead_letter m e) = \<lparr>km_Topic = km_Topic m @ ''.dlq'', km_Key = km_Key m,
      km_Value = km_Value m, km_Headers = AList.update ''error_reason'' (error_text e) (km_Headers m)\<rparr>" for e
    by (simp add: to_kafka_def dead_letter_def)
  note run = assms(4) [unfolded kx_process_def andThen_def withResult_def a prod.case]
  from kx_attempts_run [OF a n] show ?thesis
  proof (elim disjE exE conjE)
    fix k t1 assume k: "k < ?n" "rt = Inr Handled" "after_failures (h m) k s = Some t1" "h m t1 = (Inr (), s1)"
    from run k(2) have "kx_commit C d s1 = (r, s')" by simp
    from kx_commit_cases [OF assms(2) this] still [OF k(3,4)] k show ?thesis by auto
  next
    fix e t1 assume k: "rt = Inr (Exhausted e)" "after_failures (h m) (?n - 1) s = Some t1" "h m t1 = (Inl e, s1)"
    obtain rp s2 where p: "kx_publishDLQ W m e s1 = (rp, s2)" by (cases "kx_publishDLQ W m e s1")
    from kx_publishDLQ_cases [OF assms(2) p] still [OF k(2,3)] obtain new where
      new: "offset (w_ext s2) = offset (w_ext s)" "dead (w_ext s2) = dead (w_ext s) @ new"
        "\<not> isl rp \<longrightarrow> to_kafka (dead_letter m e) \<in> set new" by auto
    show ?thesis
    proof (cases rp)
      case (Inl e')
      with run k(1) p have "s' = s2" by (simp add: mapErr_def withResult_def fail_def)
      with new(1) show ?thesis by simp
    next
      case (Inr u)
      with run k(1) p have "kx_commit C d s2 = (r, s')" by (simp add: mapErr_def withResult_def ret_def)
      from kx_commit_cases [OF assms(2) this] new Inr
      have c: "dead (w_ext s') = dead (w_ext s) @ new" "offset (w_ext s') \<in> {offset (w_ext s), offset (w_ext s) + 1}"
        "to_kafka (dead_letter m e) \<in> set new" by auto
      from c(1,3) k(2,3) c(2) show ?thesis unfolding letter by blast
    qed
  next
    fix k assume k: "k < ?n" "rt = Inr Interrupted" "after_failures (h m) (Suc k) s = Some s1"
    with run have "s' = s1" by (simp add: ret_def)
    with after_failures_still [OF assms(3) k(3)] show ?thesis by simp
  qed
qed

text \<open>A broker for the witness, and a handler that always fails: three attempts, one dead letter.\<close>

record broker =
  br_dead :: "kafka_message list"
  br_offset :: nat

definition dlq_writer :: "broker writer" where
  "dlq_writer batch b = (Inr (), b\<lparr>br_dead := br_dead b @ batch\<rparr>)"

definition offset_commit :: "broker \<Rightarrow> (err + unit) \<times> broker" where
  "offset_commit b = (Inr (), b\<lparr>br_offset := br_offset b + 1\<rparr>)"

lemma consumer_broker_log: "consumer_broker dlq_writer offset_commit br_dead br_offset"
  by (auto simp: consumer_broker_def acked_is_written_def dlq_writer_def offset_commit_def)

theorem consumer_never_skips_witness:
  "let m = \<lparr>km_Topic = ''t'', km_Key = ''k'', km_Value = ''v'', km_Headers = []\<rparr>;
       cfg = \<lparr>kc_GroupID = ''g'', kc_Topic = ''t'', kc_MaxAttempts = 3\<rparr>;
       s = \<lparr>w_db = (), w_ext = \<lparr>br_dead = [], br_offset = 0\<rparr>, w_sched = [], w_tx = False\<rparr> :: (unit, broker) world;
       s' = snd (kx_process dlq_writer offset_commit cfg (\<lambda>_. False) False (\<lambda>_. fail NoRows) m s)
   in br_offset (w_ext s') = 1 \<and> (\<exists>e. after_failures (fail NoRows) 2 s \<noteq> None \<and>
        \<lparr>km_Topic = ''t.dlq'', km_Key = ''k'', km_Value = ''v'', km_Headers = [(''error_reason'', error_text e)]\<rparr>
          \<in> set (br_dead (w_ext s')))"
proof -
  let ?m = "\<lparr>km_Topic = ''t'', km_Key = ''k'', km_Value = ''v'', km_Headers = []\<rparr>"
  let ?cfg = "\<lparr>kc_GroupID = ''g'', kc_Topic = ''t'', kc_MaxAttempts = 3\<rparr>"
  let ?s = "\<lparr>w_db = (), w_ext = \<lparr>br_dead = [], br_offset = 0\<rparr>, w_sched = [], w_tx = False\<rparr>
    :: (unit, broker) world"
  let ?run = "kx_process dlq_writer offset_commit ?cfg (\<lambda>_. False) False (\<lambda>_. fail NoRows) ?m ?s"
  have c: "kx_NewConsumer [''b''] ?cfg True None = Inr ?cfg" by code_simp
  have l: "leaves_broker br_dead br_offset ((\<lambda>_. fail NoRows) ?m)" by (simp add: leaves_broker_def fail_def)
  have o: "br_offset (w_ext (snd ?run)) = 1" by code_simp
  have no: "fail NoRows t1 \<noteq> (Inr (), t2)" for t1 t2 :: "(unit, broker) world" by (simp add: fail_def)
  note all = consumer_never_skips [where cancelled = "\<lambda>_. False" and d = False and s = ?s and m = ?m and
      h = "\<lambda>_. fail NoRows", OF c consumer_broker_log l prod.collapse [symmetric]]
  have "br_offset (w_ext (snd ?run)) \<noteq> br_offset (w_ext ?s)" using o by simp
  with all no obtain e s1 new where e: "after_failures (fail NoRows) (nat (kc_MaxAttempts ?cfg) - 1) ?s = Some s1"
      "br_dead (w_ext (snd ?run)) = br_dead (w_ext ?s) @ new"
      "\<lparr>km_Topic = km_Topic ?m @ ''.dlq'', km_Key = km_Key ?m, km_Value = km_Value ?m,
        km_Headers = AList.update ''error_reason'' (error_text e) (km_Headers ?m)\<rparr> \<in> set new"
    by blast
  have two: "nat (kc_MaxAttempts ?cfg) - 1 = 2" by simp
  from o e(1) [unfolded two] e(2,3) show ?thesis unfolding Let_def by (intro conjI exI [of _ e]) simp_all
qed

end
