(* ===== verification/PayDomain.thy ===== *)
theory PayDomain
  imports OrdDomain Messaging
begin

text \<open>
  \<open>services/payment/internal/domain\<close>: identifiers, methods and money, the payment attempt
  with its status machine and the events it raises, and the provider's answers that \<open>apply\<close>
  of the use case turns into transitions.
\<close>

subsection \<open>Errors, identifiers, methods and money\<close>

definition ErrPaymentNotFound :: err where
  "ErrPaymentNotFound = SentinelErr ''payment does not exist'' ''not_found''"

definition ErrPaymentSucceeded :: err where
  "ErrPaymentSucceeded = SentinelErr ''payment already succeeded'' ''conflict''"

definition ErrPaymentFailed :: err where
  "ErrPaymentFailed = SentinelErr ''payment already failed'' ''conflict''"

definition ErrProviderReferenceConflict :: err where
  "ErrProviderReferenceConflict =
     SentinelErr ''payment already names a different provider reference'' ''conflict''"

lemmas pay_sentinels = ErrPaymentNotFound_def ErrPaymentSucceeded_def ErrPaymentFailed_def
  ErrProviderReferenceConflict_def

definition pay_parseUUID :: "uuid_lib \<Rightarrow> string \<Rightarrow> gostring \<Rightarrow> err + gostring" where
  "pay_parseUUID U field s0 =
     (let s = TrimSpace s0 in
      if s = [] then Inl (ValidationErr field ''is required'')
      else if length s \<noteq> 36 then Inl (ValidationErr field ''is not a canonical UUID'')
      else (case uuid_Parse U s of
              Inl _ \<Rightarrow> Inl (ValidationErr field ''is not a UUID'')
            | Inr u \<Rightarrow> Inr u))"

definition ParsePaymentID :: "uuid_lib \<Rightarrow> gostring \<Rightarrow> err + gostring" where
  "ParsePaymentID U s = pay_parseUUID U ''id'' s"

definition pay_ParseOrderID :: "uuid_lib \<Rightarrow> gostring \<Rightarrow> err + gostring" where
  "pay_ParseOrderID U s = pay_parseUUID U ''order_id'' s"

definition pay_ParseUserID :: "uuid_lib \<Rightarrow> gostring \<Rightarrow> err + gostring" where
  "pay_ParseUserID U s = pay_parseUUID U ''user_id'' s"

lemma pay_parseUUID_same: "pay_parseUUID = ord_parseUUID"
  by (intro ext) (simp add: pay_parseUUID_def ord_parseUUID_def)

lemma pay_parse_Inr:
  assumes "uuid_ok U"
  shows "ParsePaymentID U s = Inr u \<Longrightarrow> uuid_Parse U u = Inr u"
    "pay_ParseOrderID U s = Inr u \<Longrightarrow> uuid_Parse U u = Inr u"
    "pay_ParseUserID U s = Inr u \<Longrightarrow> uuid_Parse U u = Inr u"
  using ord_parseUUID_Inr [OF _ assms]
  by (auto simp: ParsePaymentID_def pay_ParseOrderID_def pay_ParseUserID_def pay_parseUUID_same)

definition providerReferenceMax :: nat where "providerReferenceMax = 255"

definition ParseProviderReference :: "gostring \<Rightarrow> err + gostring" where
  "ParseProviderReference s0 =
     (let s = TrimSpace s0 in
      if s = [] then Inl (ValidationErr ''provider_reference'' ''is required'')
      else if length s > providerReferenceMax then Inl (ValidationErr ''provider_reference'' ''is too long'')
      else Inr s)"

definition NewMethod :: "gostring \<Rightarrow> err + gostring" where
  "NewMethod s0 =
     (let s = ToLower (TrimSpace s0);
          invalid = ValidationErr ''method'' ''is not a lowercase method name''
      in if s = [] then Inr []
         else if length s > 32 then Inl invalid
         else if list_all (\<lambda>i. lower_letter (s ! i) \<or> (i > 0 \<and> (digit (s ! i) \<or> s ! i = CHR ''_''))) [0..<length s]
         then Inr s else Inl invalid)"

definition pay_NewCurrencyCode :: "gostring \<Rightarrow> err + gostring" where
  "pay_NewCurrencyCode = NewCurrencyCode ''currency_code''"

definition pay_NewMoney :: "int \<Rightarrow> gostring \<Rightarrow> err + Money" where
  "pay_NewMoney amount cur =
     (if cur = [] then Inl (ValidationErr ''currency_code'' ''is required'')
      else if amount < 0 then Inl (ValidationErr ''amount_minor'' ''is negative'')
      else Inr \<lparr>amountMinor = amount, currency = cur\<rparr>)"

subsection \<open>The payment attempt\<close>

datatype PaymentStatus = PayPending | PaySucceeded | PayFailed | PayStatusOther string

fun pay_status_text :: "PaymentStatus \<Rightarrow> string" where
  "pay_status_text PayPending = ''pending''"
| "pay_status_text PaySucceeded = ''succeeded''"
| "pay_status_text PayFailed = ''failed''"
| "pay_status_text (PayStatusOther s) = s"

definition PaymentStatus_of :: "string \<Rightarrow> PaymentStatus" where
  "PaymentStatus_of s =
     (if s = ''pending'' then PayPending else if s = ''succeeded'' then PaySucceeded
      else if s = ''failed'' then PayFailed else PayStatusOther s)"

lemma pay_status_text_of [simp]: "pay_status_text (PaymentStatus_of s) = s"
  by (simp add: PaymentStatus_of_def)

datatype PayEvent =
  PaymentSucceeded gostring gostring gostring Money gostring
| PaymentFailed gostring gostring gostring Money gostring

fun pay_EventName :: "PayEvent \<Rightarrow> string" where
  "pay_EventName (PaymentSucceeded _ _ _ _ _) = ''PaymentSucceeded''"
| "pay_EventName (PaymentFailed _ _ _ _ _) = ''PaymentFailed''"

record Payment =
  pay_id :: gostring
  pay_orderID :: gostring
  pay_userID :: gostring
  pay_status :: PaymentStatus
  pay_amount :: Money
  pay_method :: gostring
  pay_reference :: gostring
  pay_reason :: gostring
  pay_createdAt :: gotime
  pay_updatedAt :: gotime
  pay_version :: int
  pay_events :: "PayEvent list"

definition NewPayment :: "gostring \<Rightarrow> gostring \<Rightarrow> gostring \<Rightarrow> Money \<Rightarrow> gostring \<Rightarrow> err + Payment" where
  "NewPayment pid orderID userID amount method =
     (if pid = [] then Inl (ValidationErr ''id'' ''is required'')
      else if orderID = [] then Inl (ValidationErr ''order_id'' ''is required'')
      else if userID = [] then Inl (ValidationErr ''user_id'' ''is required'')
      else if currency amount = [] then Inl (ValidationErr ''amount'' ''has no currency'')
      else if amountMinor amount \<le> 0 then Inl (ValidationErr ''amount'' ''is not a positive amount'')
      else Inr \<lparr>pay_id = pid, pay_orderID = orderID, pay_userID = userID, pay_status = PayPending,
                pay_amount = amount, pay_method = method, pay_reference = [], pay_reason = [],
                pay_createdAt = 0, pay_updatedAt = 0, pay_version = 1, pay_events = []\<rparr>)"

record PaymentSnapshot =
  ys_ID :: gostring
  ys_OrderID :: gostring
  ys_UserID :: gostring
  ys_Status :: PaymentStatus
  ys_Amount :: Money
  ys_Method :: gostring
  ys_ProviderReference :: gostring
  ys_FailureReason :: gostring
  ys_CreatedAt :: gotime
  ys_UpdatedAt :: gotime
  ys_Version :: int

definition ReconstitutePayment :: "PaymentSnapshot \<Rightarrow> Payment" where
  "ReconstitutePayment s =
     \<lparr>pay_id = ys_ID s, pay_orderID = ys_OrderID s, pay_userID = ys_UserID s, pay_status = ys_Status s,
      pay_amount = ys_Amount s, pay_method = ys_Method s, pay_reference = ys_ProviderReference s,
      pay_reason = ys_FailureReason s, pay_createdAt = ys_CreatedAt s, pay_updatedAt = ys_UpdatedAt s,
      pay_version = ys_Version s, pay_events = []\<rparr>"

definition pay_Snapshot :: "Payment \<Rightarrow> PaymentSnapshot" where
  "pay_Snapshot p =
     \<lparr>ys_ID = pay_id p, ys_OrderID = pay_orderID p, ys_UserID = pay_userID p, ys_Status = pay_status p,
      ys_Amount = pay_amount p, ys_Method = pay_method p, ys_ProviderReference = pay_reference p,
      ys_FailureReason = pay_reason p, ys_CreatedAt = pay_createdAt p, ys_UpdatedAt = pay_updatedAt p,
      ys_Version = pay_version p\<rparr>"

text \<open>A transition answers whether it moved the attempt, with the attempt it leaves.\<close>

definition AttachProviderReference :: "gostring \<Rightarrow> Payment \<Rightarrow> err + bool \<times> Payment" where
  "AttachProviderReference ref p =
     (if ref = [] then Inl (ValidationErr ''provider_reference'' ''is required'')
      else if pay_reference p \<noteq> []
      then if pay_reference p \<noteq> ref then Inl ErrProviderReferenceConflict else Inr (False, p)
      else Inr (True, p\<lparr>pay_reference := ref\<rparr>))"

definition pay_Succeed :: "gostring \<Rightarrow> Payment \<Rightarrow> err + bool \<times> Payment" where
  "pay_Succeed ref p =
     (case pay_status p of
        PaySucceeded \<Rightarrow>
          (case AttachProviderReference ref p of Inl e \<Rightarrow> Inl e | Inr (_, p') \<Rightarrow> Inr (False, p'))
      | PayFailed \<Rightarrow> Inl ErrPaymentFailed
      | _ \<Rightarrow>
          (case AttachProviderReference ref p of
             Inl e \<Rightarrow> Inl e
           | Inr (_, p') \<Rightarrow> Inr (True, p'\<lparr>pay_status := PaySucceeded,
               pay_events := pay_events p' @
                 [PaymentSucceeded (pay_id p') (pay_orderID p') (pay_userID p') (pay_amount p') (pay_reference p')]\<rparr>)))"

definition pay_Fail :: "gostring \<Rightarrow> Payment \<Rightarrow> err + bool \<times> Payment" where
  "pay_Fail reason p =
     (case pay_status p of
        PayFailed \<Rightarrow> Inr (False, p)
      | PaySucceeded \<Rightarrow> Inl ErrPaymentSucceeded
      | _ \<Rightarrow> Inr (True, p\<lparr>pay_status := PayFailed, pay_reason := reason,
               pay_events := pay_events p @
                 [PaymentFailed (pay_id p) (pay_orderID p) (pay_userID p) (pay_amount p) reason]\<rparr>))"

definition pay_PullEvents :: "Payment \<Rightarrow> PayEvent list \<times> Payment" where
  "pay_PullEvents p = (pay_events p, p\<lparr>pay_events := []\<rparr>)"

subsection \<open>Applying what the provider said\<close>

record ChargeResult =
  cr_Reference :: gostring
  cr_Status :: PaymentStatus
  cr_FailureReason :: gostring
  cr_NextActionURL :: gostring

definition pay_apply :: "ChargeResult \<Rightarrow> Payment \<Rightarrow> err + bool \<times> Payment" where
  "pay_apply r p =
     (case cr_Status r of
        PaySucceeded \<Rightarrow> pay_Succeed (cr_Reference r) p
      | PayFailed \<Rightarrow>
          (case pay_Fail (cr_FailureReason r) p of
             Inl e \<Rightarrow> Inl e
           | Inr (moved, p') \<Rightarrow>
               if \<not> moved then Inr (moved, p')
               else if cr_Reference r \<noteq> []
               then (case AttachProviderReference (cr_Reference r) p' of
                       Inl e \<Rightarrow> Inl e | Inr (_, p'') \<Rightarrow> Inr (True, p''))
               else Inr (True, p'))
      | _ \<Rightarrow> AttachProviderReference (cr_Reference r) p)"

text \<open>The states an attempt can be in: a known status, an amount to collect, and a reference once
  it has succeeded.\<close>

definition pay_sound :: "Payment \<Rightarrow> bool" where
  "pay_sound p \<longleftrightarrow> pay_status p \<in> {PayPending, PaySucceeded, PayFailed} \<and>
     (pay_status p = PaySucceeded \<longrightarrow> pay_reference p \<noteq> [])"

text \<open>Settled to the last field: a failed attempt may still be told its reference.\<close>

definition pay_settled :: "Payment \<Rightarrow> bool" where
  "pay_settled p \<longleftrightarrow> pay_status p \<in> {PaySucceeded, PayFailed} \<and> pay_reference p \<noteq> []"

definition same_answer :: "ChargeResult \<Rightarrow> ChargeResult \<Rightarrow> bool" where
  "same_answer a b \<longleftrightarrow> cr_Reference a = cr_Reference b \<and> cr_Status a = cr_Status b"

lemmas pay_moves = pay_apply_def pay_Succeed_def pay_Fail_def AttachProviderReference_def

interpretation payment: lifecycle_on pay_apply pay_settled same_answer pay_sound
proof
  fix s op moved s'
  show "pay_sound s \<Longrightarrow> pay_apply op s = Inr (moved, s') \<Longrightarrow> pay_sound s'"
    by (auto simp: pay_moves pay_sound_def split: PaymentStatus.splits if_splits)
next
  fix s op s'
  show "pay_sound s \<Longrightarrow> pay_apply op s = Inr (False, s') \<Longrightarrow> s' = s"
    by (auto simp: pay_moves pay_sound_def split: PaymentStatus.splits if_splits)
next
  fix s op moved s'
  show "pay_sound s \<Longrightarrow> pay_settled s \<Longrightarrow> pay_apply op s = Inr (moved, s') \<Longrightarrow> \<not> moved"
    by (auto simp: pay_moves pay_sound_def pay_settled_def split: PaymentStatus.splits if_splits)
next
  fix s op op' s'
  show "pay_sound s \<Longrightarrow> same_answer op op' \<Longrightarrow> pay_apply op s = Inr (True, s') \<Longrightarrow> pay_apply op' s' = Inr (False, s')"
    by (auto simp: pay_moves pay_sound_def same_answer_def split: PaymentStatus.splits if_splits)
qed

lemma NewPayment_Inr:
  assumes "NewPayment pid oid uid amount m = Inr p"
  shows "pay_id p = pid" "pay_orderID p = oid" "pay_userID p = uid" "pay_amount p = amount" "pay_method p = m"
    "pay_status p = PayPending" "pay_reference p = []" "pay_reason p = []" "pay_version p = 1" "pay_events p = []"
    "0 < amountMinor amount" "currency amount \<noteq> []" "pay_sound p"
  using assms by (auto simp: NewPayment_def pay_sound_def split: if_splits)

text \<open>What an attempt has said, given the status it is in.\<close>

fun pay_outcome :: "Payment \<Rightarrow> PayEvent list" where
  "pay_outcome p =
     (case pay_status p of
        PaySucceeded \<Rightarrow> [PaymentSucceeded (pay_id p) (pay_orderID p) (pay_userID p) (pay_amount p) (pay_reference p)]
      | PayFailed \<Rightarrow> [PaymentFailed (pay_id p) (pay_orderID p) (pay_userID p) (pay_amount p) (pay_reason p)]
      | _ \<Rightarrow> [])"

definition same_payment :: "Payment \<Rightarrow> Payment \<Rightarrow> bool" where
  "same_payment a b \<longleftrightarrow> pay_id a = pay_id b \<and> pay_orderID a = pay_orderID b \<and> pay_userID a = pay_userID b \<and>
     pay_amount a = pay_amount b \<and> pay_method a = pay_method b \<and> pay_createdAt a = pay_createdAt b \<and>
     pay_version a = pay_version b"

text \<open>What one answer may do: the fields of the order stay, a reference that is set stays, a
  settled status stays, and an event is raised exactly when the status settles.\<close>

lemma pay_apply_story:
  assumes "pay_apply r p = Inr (moved, p')" and "pay_sound p"
  shows "same_payment p' p \<and> (pay_reference p \<noteq> [] \<longrightarrow> pay_reference p' = pay_reference p) \<and>
    (pay_status p \<noteq> PayPending \<longrightarrow> pay_status p' = pay_status p \<and> pay_reason p' = pay_reason p \<and> pay_events p' = pay_events p) \<and>
    (pay_status p = PayPending \<longrightarrow>
      pay_events p' = pay_events p @ pay_outcome p')"
  using assms
  by (auto simp: pay_moves pay_sound_def same_payment_def split: PaymentStatus.splits if_splits)

lemma pay_history_story:
  assumes "NewPayment pid oid uid amount m = Inr p"
  shows "let h = history pay_apply rs p in
    same_payment h p \<and> pay_sound h \<and> pay_events h = pay_outcome h"
proof (induction rs rule: rev_induct)
  case Nil
  from NewPayment_Inr [OF assms] show ?case by (simp add: history_def same_payment_def)
next
  case (snoc r rs)
  let ?h = "history pay_apply rs p"
  have h: "history pay_apply (rs @ [r]) p = attempt pay_apply r ?h" by (simp add: history_def)
  show ?case
  proof (cases "pay_apply r ?h")
    case (Inl e)
    with snoc h show ?thesis by (simp add: attempt_def)
  next
    case (Inr x)
    obtain moved p' where st: "pay_apply r ?h = Inr (moved, p')" using Inr by (cases x) auto
    have s: "same_payment ?h p" "pay_sound ?h" "pay_events ?h = pay_outcome ?h"
      using snoc by (simp_all add: Let_def)
    note t = pay_apply_story [OF st s(2)]
    have sound: "pay_sound p'" using payment.stays [OF s(2) st] .
    have "pay_events p' = pay_outcome p'"
    proof (cases "pay_status ?h = PayPending")
      case True
      with t s(3) show ?thesis by simp
    next
      case False
      with s(2) have "pay_status ?h = PaySucceeded \<and> pay_reference ?h \<noteq> [] \<or> pay_status ?h = PayFailed"
        by (auto simp: pay_sound_def)
      with t s(3) show ?thesis by (auto simp: same_payment_def)
    qed
    with t s(1) sound h st show ?thesis by (simp add: attempt_def Let_def same_payment_def)
  qed
qed

lemma pay_settled_stays:
  assumes "pay_sound q"
  shows "pay_status q \<noteq> PayPending \<Longrightarrow> pay_status (history pay_apply l q) = pay_status q \<and>
         pay_events (history pay_apply l q) = pay_events q"
    and "pay_reference q \<noteq> [] \<Longrightarrow> pay_reference (history pay_apply l q) = pay_reference q"
proof -
  have "(pay_status q \<noteq> PayPending \<longrightarrow> pay_status (history pay_apply l q) = pay_status q \<and>
         pay_events (history pay_apply l q) = pay_events q) \<and>
      (pay_reference q \<noteq> [] \<longrightarrow> pay_reference (history pay_apply l q) = pay_reference q)"
  proof (induction l rule: rev_induct)
    case (snoc r l)
    let ?q = "history pay_apply l q"
    have h: "history pay_apply (l @ [r]) q = attempt pay_apply r ?q" by (simp add: history_def)
    show ?case
    proof (cases "pay_apply r ?q")
      case (Inr x)
      obtain moved q' where st: "pay_apply r ?q = Inr (moved, q')" using Inr by (cases x) auto
      from pay_apply_story [OF st payment.history_good [OF assms]] snoc
      show ?thesis unfolding h by (simp add: attempt_def st)
    qed (use snoc h in \<open>simp add: attempt_def\<close>)
  qed (simp add: history_def)
  then show "pay_status q \<noteq> PayPending \<Longrightarrow> pay_status (history pay_apply l q) = pay_status q \<and>
         pay_events (history pay_apply l q) = pay_events q"
    and "pay_reference q \<noteq> [] \<Longrightarrow> pay_reference (history pay_apply l q) = pay_reference q" by simp_all
qed

text \<open>C19. An attempt settles once and says so once. Whatever the provider answers and calls back,
  in any order and however often, the amount and the order of the attempt never change; it has
  raised one \<open>PaymentSucceeded\<close> naming its reference exactly when it has succeeded, one
  \<open>PaymentFailed\<close> with the reason exactly when it has failed, and nothing while it is pending;
  a status that has settled and a reference that has been recorded stay, whatever is
  answered afterwards; and the same answer twice is the answer once.\<close>

theorem payment_settles_once:
  assumes "NewPayment pid oid uid amount m = Inr p"
  shows "let h = history pay_apply rs p; h' = history pay_apply (rs @ later) p in
    pay_amount h = amount \<and> pay_orderID h = oid \<and> pay_id h = pid \<and>
    (pay_status h = PayPending \<and> pay_events h = [] \<or>
     pay_status h = PaySucceeded \<and> pay_reference h \<noteq> [] \<and>
       pay_events h = [PaymentSucceeded pid oid uid amount (pay_reference h)] \<or>
     pay_status h = PayFailed \<and> pay_events h = [PaymentFailed pid oid uid amount (pay_reason h)]) \<and>
    (pay_status h \<noteq> PayPending \<longrightarrow> pay_status h' = pay_status h \<and> pay_events h' = pay_events h) \<and>
    (pay_reference h \<noteq> [] \<longrightarrow> pay_reference h' = pay_reference h) \<and>
    history pay_apply (rs @ [r, r]) p = history pay_apply (rs @ [r]) p"
proof -
  note n = NewPayment_Inr [OF assms]
  let ?h = "history pay_apply rs p"
  have s: "same_payment ?h p" "pay_sound ?h" "pay_events ?h = pay_outcome ?h"
    using pay_history_story [OF assms, of rs] by (simp_all add: Let_def)
  from s(1) n have f: "pay_amount ?h = amount" "pay_orderID ?h = oid" "pay_id ?h = pid" "pay_userID ?h = uid"
    by (simp_all add: same_payment_def)
  have h': "history pay_apply (rs @ later) p = history pay_apply later ?h" by (simp add: history_def)
  have "same_answer r r" by (simp add: same_answer_def)
  from payment.repeat_idem [OF s(2) this]
  have twice: "history pay_apply (rs @ [r, r]) p = history pay_apply (rs @ [r]) p" by (simp add: history_def)
  have cases: "pay_status ?h = PayPending \<and> pay_events ?h = [] \<or>
     pay_status ?h = PaySucceeded \<and> pay_reference ?h \<noteq> [] \<and>
       pay_events ?h = [PaymentSucceeded pid oid uid amount (pay_reference ?h)] \<or>
     pay_status ?h = PayFailed \<and> pay_events ?h = [PaymentFailed pid oid uid amount (pay_reason ?h)]"
    using s(2) unfolding s(3) pay_sound_def by (cases "pay_status ?h") (simp_all add: f)
  from twice cases f pay_settled_stays [OF s(2), of later] show ?thesis
    unfolding Let_def h' by blast
qed

theorem payment_settles_once_witness:
  "\<exists>p. NewPayment ''p'' ''o'' ''u'' \<lparr>amountMinor = 2100, currency = ''THB''\<rparr> [] = Inr p \<and>
    pay_events (history pay_apply
      [\<lparr>cr_Reference = ''chrg_p'', cr_Status = PayPending, cr_FailureReason = [], cr_NextActionURL = ''u''\<rparr>,
       \<lparr>cr_Reference = ''chrg_p'', cr_Status = PaySucceeded, cr_FailureReason = [], cr_NextActionURL = []\<rparr>,
       \<lparr>cr_Reference = ''chrg_p'', cr_Status = PaySucceeded, cr_FailureReason = [], cr_NextActionURL = []\<rparr>,
       \<lparr>cr_Reference = ''chrg_p'', cr_Status = PayFailed, cr_FailureReason = ''late'', cr_NextActionURL = []\<rparr>] p) =
      [PaymentSucceeded ''p'' ''o'' ''u'' \<lparr>amountMinor = 2100, currency = ''THB''\<rparr> ''chrg_p'']"
proof -
  let ?m = "\<lparr>amountMinor = 2100, currency = ''THB''\<rparr>"
  let ?ok = "\<lparr>cr_Reference = ''chrg_p'', cr_Status = PaySucceeded, cr_FailureReason = [], cr_NextActionURL = []\<rparr>"
  let ?rs = "[\<lparr>cr_Reference = ''chrg_p'', cr_Status = PayPending, cr_FailureReason = [], cr_NextActionURL = ''u''\<rparr>, ?ok, ?ok,
       \<lparr>cr_Reference = ''chrg_p'', cr_Status = PayFailed, cr_FailureReason = ''late'', cr_NextActionURL = []\<rparr>]"
  obtain p where p: "NewPayment ''p'' ''o'' ''u'' ?m [] = Inr p" by (simp add: NewPayment_def)
  note n = NewPayment_Inr [OF p]
  have "pay_status (history pay_apply ?rs p) = PaySucceeded \<and> pay_reference (history pay_apply ?rs p) = ''chrg_p''"
    using n by (simp add: history_def attempt_def pay_moves)
  with payment_settles_once [OF p, of ?rs "[]" ?ok] p show ?thesis by (auto simp: Let_def)
qed

end
