(* ===== verification/PayStore.thy ===== *)
theory PayStore
  imports PayDomain Tables
begin

text \<open>
  \<open>services/payment/internal/adapter/out/postgres\<close>: the tables of the payment database with
  the constraints its migrations declare, one function per SQL statement, and the repositories.
\<close>

subsection \<open>Tables\<close>

record pay_row =
  yr_ID :: gostring
  yr_OrderID :: gostring
  yr_UserID :: gostring
  yr_Status :: string
  yr_AmountMinor :: int
  yr_AmountCurrency :: gostring
  yr_Method :: gostring
  yr_ProviderReference :: gostring
  yr_FailureReason :: gostring
  yr_CreatedAt :: gotime
  yr_UpdatedAt :: gotime
  yr_Version :: int

record pay_key_row =
  yk_UserID :: gostring
  yk_Key :: gostring
  yk_RequestHash :: gostring
  yk_PaymentID :: gostring
  yk_CreatedAt :: gotime

record pay_db = msg_db +
  payments :: "pay_row list"
  pay_keys :: "pay_key_row list"

type_synonym 'a pay_stmt = "pay_db \<Rightarrow> (err + 'a) \<times> pay_db"

definition known_pay_status :: "string \<Rightarrow> bool" where
  "known_pay_status s \<longleftrightarrow> s \<in> {''pending'', ''succeeded'', ''failed''}"

definition pay_currency_text :: "gostring \<Rightarrow> bool" where
  "pay_currency_text s \<longleftrightarrow> length s = 3 \<and> list_all is_upper s"

definition method_text :: "gostring \<Rightarrow> bool" where
  "method_text s \<longleftrightarrow> s = [] \<or>
     (lower_letter (hd s) \<and> list_all (\<lambda>c. lower_letter c \<or> digit c \<or> c = CHR ''_'') s)"

definition unresolvedConstraint :: string where
  "unresolvedConstraint = ''payments_one_unresolved_per_order_idx''"

text \<open>The partial unique index: no other attempt for the order that has not failed.\<close>

definition unresolved_elsewhere :: "gostring \<Rightarrow> gostring \<Rightarrow> pay_db \<Rightarrow> bool" where
  "unresolved_elsewhere uid orderID db \<longleftrightarrow>
     list_ex (\<lambda>r. yr_OrderID r = orderID \<and> yr_ID r \<noteq> uid \<and> yr_Status r \<noteq> ''failed'') (payments db)"

subsection \<open>Statements\<close>

definition sql_CreatePayment ::
  "gostring \<Rightarrow> gostring \<Rightarrow> gostring \<Rightarrow> string \<Rightarrow> int \<Rightarrow> gostring \<Rightarrow> gostring \<Rightarrow> pay_row pay_stmt" where
  "sql_CreatePayment uid orderID userID status amount cur method db =
     (if \<not> known_pay_status status then (Inl (check_violation ''payments_status_check''), db)
      else if amount \<le> 0 then (Inl (check_violation ''payments_amount_minor_check''), db)
      else if \<not> pay_currency_text cur then (Inl (check_violation ''payments_amount_currency_check''), db)
      else if \<not> method_text method then (Inl (check_violation ''payments_method_check''), db)
      else if uid \<in> set (map yr_ID (payments db)) then (Inl (unique_violation ''payments_pkey''), db)
      else if status \<noteq> ''failed'' \<and> unresolved_elsewhere uid orderID db
      then (Inl (unique_violation unresolvedConstraint), db)
      else let r = \<lparr>yr_ID = uid, yr_OrderID = orderID, yr_UserID = userID, yr_Status = status,
                    yr_AmountMinor = amount, yr_AmountCurrency = cur, yr_Method = method,
                    yr_ProviderReference = [], yr_FailureReason = [], yr_CreatedAt = db_now db,
                    yr_UpdatedAt = db_now db, yr_Version = 1\<rparr>
           in (Inr r, db\<lparr>payments := payments db @ [r]\<rparr>))"

definition sql_GetPayment :: "gostring \<Rightarrow> pay_row pay_stmt" where
  "sql_GetPayment uid db =
     (case List.find (\<lambda>r. yr_ID r = uid) (payments db) of
        None \<Rightarrow> (Inl NoRows, db) | Some r \<Rightarrow> (Inr r, db))"

text \<open>\<open>FOR UPDATE\<close> reads the row and keeps it locked until the transaction ends.\<close>

definition sql_GetPaymentForUpdate :: "gostring \<Rightarrow> pay_row pay_stmt" where
  "sql_GetPaymentForUpdate uid db =
     (case List.find (\<lambda>r. yr_ID r = uid) (payments db) of
        None \<Rightarrow> (Inl NoRows, db) | Some r \<Rightarrow> (Inr r, db))"

definition sql_GetPaymentsByOrderIDs :: "gostring list \<Rightarrow> pay_row list pay_stmt" where
  "sql_GetPaymentsByOrderIDs ids db =
     (Inr (sort_key yr_OrderID (sort_key (\<lambda>r. - yr_CreatedAt r)
        (filter (\<lambda>r. yr_OrderID r \<in> set ids) (payments db)))), db)"

definition sql_SettlePayment ::
  "gostring \<Rightarrow> int \<Rightarrow> string \<Rightarrow> gostring \<Rightarrow> gostring \<Rightarrow> pay_row pay_stmt" where
  "sql_SettlePayment uid version status ref reason db =
     (case update_one (\<lambda>r. yr_ID r = uid \<and> yr_Version r = version)
        (\<lambda>r. if \<not> int4 (yr_Version r + 1) then Inl out_of_range
             else if \<not> known_pay_status status then Inl (check_violation ''payments_status_check'')
             else if status \<noteq> ''failed'' \<and> unresolved_elsewhere uid (yr_OrderID r) db
             then Inl (unique_violation unresolvedConstraint)
             else Inr (r\<lparr>yr_Status := status, yr_ProviderReference := ref, yr_FailureReason := reason,
                         yr_UpdatedAt := db_now db, yr_Version := yr_Version r + 1\<rparr>))
        (payments db) of
        Inl e \<Rightarrow> (Inl e, db)
      | Inr (r, t) \<Rightarrow> (Inr r, db\<lparr>payments := t\<rparr>))"

definition pay_sql_ClaimIdempotencyKey ::
  "gostring \<Rightarrow> gostring \<Rightarrow> gostring \<Rightarrow> gostring \<Rightarrow> pay_key_row pay_stmt" where
  "pay_sql_ClaimIdempotencyKey userID key hash paymentID db =
     (if (userID, key) \<in> set (map (\<lambda>k. (yk_UserID k, yk_Key k)) (pay_keys db))
      then (Inl NoRows, db)
      else let k = \<lparr>yk_UserID = userID, yk_Key = key, yk_RequestHash = hash, yk_PaymentID = paymentID,
                    yk_CreatedAt = db_now db\<rparr>
           in (Inr k, db\<lparr>pay_keys := pay_keys db @ [k]\<rparr>))"

definition pay_sql_GetIdempotencyKey :: "gostring \<Rightarrow> gostring \<Rightarrow> pay_key_row pay_stmt" where
  "pay_sql_GetIdempotencyKey userID key db =
     (case List.find (\<lambda>k. (yk_UserID k, yk_Key k) = (userID, key)) (pay_keys db) of
        None \<Rightarrow> (Inl NoRows, db) | Some k \<Rightarrow> (Inr k, db))"

definition pay_sql_DeleteExpiredIdempotencyKeys :: "gotime \<Rightarrow> int pay_stmt" where
  "pay_sql_DeleteExpiredIdempotencyKeys t db =
     (Inr (int (length (filter (\<lambda>k. yk_CreatedAt k < pg_time t) (pay_keys db)))),
      db\<lparr>pay_keys := filter (\<lambda>k. \<not> yk_CreatedAt k < pg_time t) (pay_keys db)\<rparr>)"

subsection \<open>The idempotency store\<close>

type_synonym ('w, 'a) pay_op = "(pay_db, 'w, 'a) op"

text \<open>What the process is given and mints: the libraries, the headers of the call and the id of the
  \<open>i\<close>-th event that a version of an attempt raises.\<close>

record pay_env =
  ye_U :: uuid_lib
  ye_C :: codec
  ye_headers :: "(gostring \<times> gostring) list"
  ye_event_id :: "gostring \<Rightarrow> int \<Rightarrow> nat \<Rightarrow> gostring"

definition pay_parseID :: "uuid_lib \<Rightarrow> string \<Rightarrow> gostring \<Rightarrow> err + gostring" where
  "pay_parseID U what s =
     (case uuid_Parse U s of
        Inl e \<Rightarrow> Inl (wrap e KindInternal (''parse '' @ what))
      | Inr u \<Rightarrow> Inr u)"

record PayClaim =
  yc_RequestHash :: gostring
  yc_PaymentID :: gostring

definition pay_claimOf :: "pay_key_row \<Rightarrow> PayClaim" where
  "pay_claimOf k = \<lparr>yc_RequestHash = yk_RequestHash k, yc_PaymentID = yk_PaymentID k\<rparr>"

definition pay_idem_Find :: "uuid_lib \<Rightarrow> gostring \<Rightarrow> gostring \<Rightarrow> ('w, PayClaim option) pay_op" where
  "pay_idem_Find U userID key =
     andThen (pure_op (pay_parseID U ''user id'' userID)) (\<lambda>uid.
     withResult (sql (pay_sql_GetIdempotencyKey uid key)) (\<lambda>r. case r of
        Inr k \<Rightarrow> ret (Some (pay_claimOf k))
      | Inl e \<Rightarrow> if is_NoRows e then ret None
                 else fail (wrap e KindInternal ''read idempotency key'')))"

definition pay_idem_Claim ::
  "uuid_lib \<Rightarrow> gostring \<Rightarrow> gostring \<Rightarrow> gostring \<Rightarrow> gostring \<Rightarrow> ('w, PayClaim \<times> bool) pay_op" where
  "pay_idem_Claim U userID key hash paymentID =
     andThen (pure_op (pay_parseID U ''user id'' userID)) (\<lambda>user.
     andThen (pure_op (pay_parseID U ''payment id'' paymentID)) (\<lambda>payment.
     withResult (sql (pay_sql_ClaimIdempotencyKey user key hash payment)) (\<lambda>r. case r of
        Inr k \<Rightarrow> ret (pay_claimOf k, True)
      | Inl e \<Rightarrow>
          if \<not> is_NoRows e then fail (wrap e KindInternal ''claim idempotency key'')
          else withResult (sql (pay_sql_GetIdempotencyKey user key)) (\<lambda>r. case r of
              Inl e \<Rightarrow> fail (wrap e KindInternal ''read the claim that won'')
            | Inr existing \<Rightarrow> ret (pay_claimOf existing, False)))))"

subsection \<open>The payment repository\<close>

definition pay_toDomain :: "pay_row \<Rightarrow> Payment" where
  "pay_toDomain row =
     ReconstitutePayment
       \<lparr>ys_ID = yr_ID row, ys_OrderID = yr_OrderID row, ys_UserID = yr_UserID row,
        ys_Status = PaymentStatus_of (yr_Status row),
        ys_Amount = \<lparr>amountMinor = yr_AmountMinor row, currency = yr_AmountCurrency row\<rparr>,
        ys_Method = yr_Method row, ys_ProviderReference = yr_ProviderReference row,
        ys_FailureReason = yr_FailureReason row, ys_CreatedAt = yr_CreatedAt row,
        ys_UpdatedAt = yr_UpdatedAt row, ys_Version = yr_Version row\<rparr>"

definition pay_money :: "Money \<Rightarrow> pb_Money" where
  "pay_money m = \<lparr>mny_AmountMinor = amountMinor m, mny_CurrencyCode = currency m\<rparr>"

fun pay_toPayload :: "PayEvent \<Rightarrow> pay_row \<Rightarrow> pb_event" where
  "pay_toPayload (PaymentSucceeded pid oid uid amount ref) row =
     PbPaymentSucceeded pid oid uid (pay_money amount) ref (yr_UpdatedAt row)"
| "pay_toPayload (PaymentFailed pid oid uid amount reason) row =
     PbPaymentFailed pid oid uid (pay_money amount) reason (yr_UpdatedAt row)"

definition pay_fact :: "pay_row \<Rightarrow> PayEvent \<Rightarrow> Fact" where
  "pay_fact row e =
     \<lparr>fact_AggregateType = ''payment'', fact_AggregateID = yr_ID row, fact_EventType = pay_EventName e,
      fact_Topic = ''ecommerce.payment.events.v1'', fact_Version = yr_Version row,
      fact_OccurredAt = yr_UpdatedAt row, fact_Payload = Some (pay_toPayload e row)\<rparr>"

definition pay_record :: "pay_env \<Rightarrow> pay_row \<Rightarrow> nat \<times> PayEvent \<Rightarrow> err + OutboxRecord" where
  "pay_record E row ie =
     (case events_Record (ye_C E) (ye_headers E) (ye_event_id E (yr_ID row) (yr_Version row) (fst ie))
          (pay_fact row (snd ie)) of
        Inl e \<Rightarrow> Inl (wrap e KindInternal (''build '' @ pay_EventName (snd ie) @ '' event''))
      | Inr r \<Rightarrow> Inr r)"

definition pay_writeEvents :: "pay_env \<Rightarrow> Payment \<Rightarrow> pay_row \<Rightarrow> ('w, unit) pay_op" where
  "pay_writeEvents E p row =
     (let pulled = fst (pay_PullEvents p) in
      if pulled = [] then ret ()
      else andThen (pure_op (map_res (pay_record E row) (enumerate 0 pulled))) (\<lambda>records.
        mapErr (\<lambda>e. wrap e KindInternal ''write events to the outbox'') (outbox_Write records)))"

definition pay_identifiers :: "uuid_lib \<Rightarrow> PaymentSnapshot \<Rightarrow> err + gostring \<times> gostring \<times> gostring" where
  "pay_identifiers U s =
     (case pay_parseID U ''payment id'' (ys_ID s) of
        Inl e \<Rightarrow> Inl e
      | Inr payment \<Rightarrow>
          (case pay_parseID U ''order id'' (ys_OrderID s) of
             Inl e \<Rightarrow> Inl e
           | Inr order \<Rightarrow>
               (case pay_parseID U ''user id'' (ys_UserID s) of
                  Inl e \<Rightarrow> Inl e
                | Inr user \<Rightarrow> Inr (payment, order, user))))"

definition payments_Create :: "pay_env \<Rightarrow> Payment \<Rightarrow> ('w, Payment) pay_op" where
  "payments_Create E p =
     (let snap = pay_Snapshot p in
      andThen (pure_op (pay_identifiers (ye_U E) snap)) (\<lambda>(payment, order, user).
      withResult (sql (sql_CreatePayment payment order user (pay_status_text (ys_Status snap))
           (amountMinor (ys_Amount snap)) (currency (ys_Amount snap)) (ys_Method snap)))
        (\<lambda>r. case r of
           Inl e \<Rightarrow>
             if isConstraintViolation e unresolvedConstraint
             then fail (WithMetadata (WithReason
                    (wrap e KindConflict ''order already has an unresolved payment'')
                    ''PAYMENT_ALREADY_IN_FLIGHT'') [(''order_id'', ys_OrderID snap)])
             else fail (wrap e KindInternal ''create payment'')
         | Inr row \<Rightarrow> andThen (pay_writeEvents E p row) (\<lambda>_. ret (pay_toDomain row)))))"

definition payments_Update :: "pay_env \<Rightarrow> Payment \<Rightarrow> ('w, Payment) pay_op" where
  "payments_Update E p =
     (let snap = pay_Snapshot p in
      andThen (pure_op (pay_identifiers (ye_U E) snap)) (\<lambda>(payment, order, user).
      withResult (sql (sql_SettlePayment payment (clamp32 (ys_Version snap)) (pay_status_text (ys_Status snap))
           (ys_ProviderReference snap) (ys_FailureReason snap)))
        (\<lambda>r. case r of
           Inl e \<Rightarrow>
             if is_NoRows e
             then fail (WithReason (wrap e KindConflict ''payment was modified concurrently'') ''PAYMENT_MODIFIED'')
             else fail (wrap e KindInternal ''settle payment'')
         | Inr row \<Rightarrow> andThen (pay_writeEvents E p row) (\<lambda>_. ret (pay_toDomain row)))))"

definition payments_FindByID :: "uuid_lib \<Rightarrow> gostring \<Rightarrow> ('w, Payment) pay_op" where
  "payments_FindByID U pid =
     andThen (pure_op (pay_parseID U ''payment id'' pid)) (\<lambda>uid.
     withResult (sql (sql_GetPayment uid)) (\<lambda>r. case r of
        Inl e \<Rightarrow> if is_NoRows e then fail ErrPaymentNotFound else fail (wrap e KindInternal ''get payment'')
      | Inr row \<Rightarrow> ret (pay_toDomain row)))"

definition payments_FindByIDForUpdate :: "uuid_lib \<Rightarrow> gostring \<Rightarrow> ('w, Payment) pay_op" where
  "payments_FindByIDForUpdate U pid =
     andThen (pure_op (pay_parseID U ''payment id'' pid)) (\<lambda>uid.
     withResult (sql (sql_GetPaymentForUpdate uid)) (\<lambda>r. case r of
        Inl e \<Rightarrow> if is_NoRows e then fail ErrPaymentNotFound else fail (wrap e KindInternal ''lock payment'')
      | Inr row \<Rightarrow> ret (pay_toDomain row)))"

definition payments_FindByOrderIDs :: "uuid_lib \<Rightarrow> gostring list \<Rightarrow> ('w, Payment list) pay_op" where
  "payments_FindByOrderIDs U orderIDs =
     andThen (pure_op (map_res (pay_parseID U ''order id'') orderIDs)) (\<lambda>ids.
     andThen (mapErr (\<lambda>e. wrap e KindInternal ''get payments by order ids'') (sql (sql_GetPaymentsByOrderIDs ids)))
       (\<lambda>rows. ret (map pay_toDomain rows)))"

end
