(* ===== verification/PayProvider.thy ===== *)
theory PayProvider
  imports PayDomain
begin

text \<open>
  \<open>services/payment/internal/port/out/provider_gateway.go\<close> and
  \<open>adapter/out/provider\<close>: what the use cases ask of a payment provider, and the adapter that
  asks it over HTTP and verifies the webhooks it sends. The provider is a function on
  whatever is at the other end; HMAC-SHA256, the JSON codec, \<open>url.PathEscape\<close> and the
  quoting of \<open>%q\<close> are fields of \<open>go_lib\<close>; hexadecimal is written out.
\<close>

subsection \<open>The port\<close>

record ChargeCommand =
  cg_PaymentID :: gostring
  cg_OrderID :: gostring
  cg_Amount :: Money
  cg_Method :: gostring

record Callback =
  cb_PaymentID :: gostring
  cb_Reference :: gostring
  cb_Status :: PaymentStatus
  cb_FailureReason :: gostring

record ('d, 'w) provider_port =
  pp_Charge :: "ChargeCommand \<Rightarrow> ('d, 'w, ChargeResult) op"
  pp_Retrieve :: "gostring \<Rightarrow> ('d, 'w, ChargeResult) op"
  pp_ParseCallback :: "gostring \<Rightarrow> gostring \<Rightarrow> err + Callback"

text \<open>What the use cases rely on: a call to the provider leaves this service's database and its
  transaction alone, and what a charge answers names the charge.\<close>

locale provider_gateway =
  fixes P :: "('d, 'w) provider_port"
  assumes charge_frame: "pp_Charge P cmd s = (r, s') \<Longrightarrow> w_db s' = w_db s \<and> w_tx s' = w_tx s"
    and retrieve_frame: "pp_Retrieve P ref s = (r, s') \<Longrightarrow> w_db s' = w_db s \<and> w_tx s' = w_tx s"
    and charge_named: "pp_Charge P cmd s = (Inr a, s') \<Longrightarrow>
      cr_Reference a \<noteq> [] \<and> cr_Status a \<in> {PayPending, PaySucceeded, PayFailed}"
    and callback_named: "pp_ParseCallback P body sig = Inr b \<Longrightarrow>
      cb_Reference b \<noteq> [] \<and> cb_Status b \<in> {PayPending, PaySucceeded, PayFailed}"
begin

lemma charge_read_only: "read_only (pp_Charge P cmd)"
  by (auto simp: read_only_def dest: charge_frame)

lemma retrieve_read_only: "read_only (pp_Retrieve P ref)"
  by (auto simp: read_only_def dest: retrieve_frame)

lemma charge_keeps: "keeps_tx (pp_Charge P cmd)"
  by (auto simp: keeps_tx_def dest: charge_frame)

lemma retrieve_keeps: "keeps_tx (pp_Retrieve P ref)"
  by (auto simp: keeps_tx_def dest: retrieve_frame)

end

subsection \<open>Hexadecimal\<close>

definition hex_char :: "nat \<Rightarrow> char" where
  "hex_char n = ''0123456789abcdef'' ! n"

definition hex_value :: "char \<Rightarrow> nat option" where
  "hex_value c =
     (let n = of_char c :: nat in
      if 48 \<le> n \<and> n \<le> 57 then Some (n - 48)
      else if 97 \<le> n \<and> n \<le> 102 then Some (n - 87)
      else if 65 \<le> n \<and> n \<le> 70 then Some (n - 55)
      else None)"

fun hex_EncodeToString :: "gostring \<Rightarrow> gostring" where
  "hex_EncodeToString [] = []"
| "hex_EncodeToString (b # bs) =
     hex_char (of_char b div 16) # hex_char (of_char b mod 16) # hex_EncodeToString bs"

fun hex_DecodeString :: "gostring \<Rightarrow> gostring option" where
  "hex_DecodeString [] = Some []"
| "hex_DecodeString [_] = None"
| "hex_DecodeString (a # b # s) =
     (case (hex_value a, hex_value b) of
        (Some x, Some y) \<Rightarrow> map_option (\<lambda>bs. char_of (16 * x + y) # bs) (hex_DecodeString s)
      | _ \<Rightarrow> None)"

lemma hex_chars: "n < 16 \<Longrightarrow> hex_value (hex_char n) = Some n \<and> graphic (hex_char n)"
proof -
  have "\<forall>n \<in> set [0..<16]. hex_value (hex_char n) = Some n \<and> graphic (hex_char n)"
    unfolding hex_value_def hex_char_def graphic_def by code_simp
  moreover assume "n < 16"
  ultimately show ?thesis by simp
qed

lemma hex_halves:
  "hex_value (hex_char (of_char b div 16)) = Some (of_char b div 16)" "graphic (hex_char (of_char b div 16))"
  "hex_value (hex_char (of_char b mod 16)) = Some (of_char b mod 16)" "graphic (hex_char (of_char b mod 16))"
proof -
  have "of_char b < (256 :: nat)" by simp
  then have "of_char b div 16 < (16 :: nat)" by (simp add: less_mult_imp_div_less)
  from hex_chars [OF this] hex_chars [of "of_char b mod 16"]
  show "hex_value (hex_char (of_char b div 16)) = Some (of_char b div 16)" "graphic (hex_char (of_char b div 16))"
    "hex_value (hex_char (of_char b mod 16)) = Some (of_char b mod 16)" "graphic (hex_char (of_char b mod 16))"
    by simp_all
qed

lemma hex_roundtrip: "hex_DecodeString (hex_EncodeToString bs) = Some bs"
  by (induction bs) (simp_all add: hex_halves)

lemma hex_trim: "TrimSpace (hex_EncodeToString bs) = hex_EncodeToString bs"
proof -
  have "\<forall>c \<in> set (hex_EncodeToString bs). graphic c"
    by (induction bs) (simp_all add: hex_halves)
  then show ?thesis by (rule TrimSpace_graphic)
qed

subsection \<open>The adapter\<close>

record chargeRequest =
  crq_IdempotencyKey :: gostring
  crq_Reference :: gostring
  crq_AmountMinor :: int
  crq_Currency :: gostring
  crq_Method :: gostring

record chargeResponse =
  crs_ID :: gostring
  crs_Status :: gostring
  crs_FailureReason :: gostring
  crs_NextActionURL :: gostring

record callbackBody =
  cbk_ID :: gostring
  cbk_IdempotencyKey :: gostring
  cbk_Status :: gostring
  cbk_FailureReason :: gostring

datatype http_method = GET | POST

text \<open>\<open>gl_NewRequest\<close> is what \<open>http.NewRequestWithContext\<close> has against a method and a URL, if anything.\<close>

record go_lib =
  gl_mac :: "gostring \<Rightarrow> gostring \<Rightarrow> gostring"
  gl_request :: "chargeRequest \<Rightarrow> gostring"
  gl_read_request :: "gostring \<Rightarrow> err + chargeRequest"
  gl_response :: "chargeResponse \<Rightarrow> gostring"
  gl_read_response :: "gostring \<Rightarrow> err + chargeResponse"
  gl_callback :: "callbackBody \<Rightarrow> gostring"
  gl_read_callback :: "gostring \<Rightarrow> err + callbackBody"
  gl_NewRequest :: "http_method \<Rightarrow> gostring \<Rightarrow> err option"
  gl_PathEscape :: "gostring \<Rightarrow> gostring"
  gl_PathUnescape :: "gostring \<Rightarrow> gostring"
  gl_Quote :: "gostring \<Rightarrow> gostring"

text \<open>What is relied on of \<open>encoding/json\<close>: a callback whose texts are valid UTF-8 reads back as it was
  written. Of others the package replaces the invalid bytes, and nothing is relied on.\<close>

definition go_lib_ok :: "go_lib \<Rightarrow> bool" where
  "go_lib_ok L \<longleftrightarrow>
     (\<forall>b. valid_utf8 (cbk_ID b) \<and> valid_utf8 (cbk_IdempotencyKey b) \<and> valid_utf8 (cbk_Status b) \<and>
        valid_utf8 (cbk_FailureReason b) \<longrightarrow> gl_read_callback L (gl_callback L b) = Inr b)"

record http_request =
  hq_Method :: http_method
  hq_URL :: gostring
  hq_Body :: "gostring option"

text \<open>\<open>hr_ReadErr\<close>: the error with which reading the body ends, when the connection breaks or
  the client's timeout runs out in the middle of it.\<close>

record http_response =
  hr_Status :: int
  hr_Body :: gostring
  hr_ReadErr :: "err option"

text \<open>A server answers, or never does. It stands for the whole exchange of one \<open>http.Client.Do\<close>,
  with the redirects the client follows on the way: a 307 or 308 makes the client send the body again.\<close>

type_synonym 'w http_server = "http_request \<Rightarrow> 'w \<Rightarrow> http_response option \<times> 'w"

definition http_err :: err where
  "http_err = PlainErr ''http: the request was not answered''"

text \<open>\<open>http.Client.Do\<close>: a round trip that is answered, that never
  reached the server, whose answer was lost, or that the server never answers.\<close>

definition http_round :: "'w http_server \<Rightarrow> http_request \<Rightarrow> 'w \<Rightarrow> (err + http_response) \<times> 'w" where
  "http_round srv q w = (case srv q w of (res, w') \<Rightarrow>
     (case res of None \<Rightarrow> (Inl http_err, w') | Some a \<Rightarrow> (Inr a, w')))"

definition http_Do :: "'w http_server \<Rightarrow> http_request \<Rightarrow> ('d, 'w, http_response) op" where
  "http_Do srv q = mapErr (\<lambda>_. http_err) (rpc (http_round srv q))"

record pv_gateway =
  pv_baseURL :: gostring
  pv_secret :: gostring

definition TrimRightSlash :: "gostring \<Rightarrow> gostring" where
  "TrimRightSlash s = rev (dropWhile (\<lambda>c. c = CHR ''/'') (rev s))"

definition pv_New :: "gostring \<Rightarrow> gostring \<Rightarrow> pv_gateway" where
  "pv_New baseURL secret = \<lparr>pv_baseURL = TrimRightSlash baseURL, pv_secret = secret\<rparr>"

text \<open>\<open>io.LimitReader\<close>: nothing past the bound is read.\<close>

definition limited :: "int \<Rightarrow> gostring \<Rightarrow> gostring" where
  "limited n s = (if int (length s) \<le> n then s else take (nat n) s)"

definition maxResponseBytes :: int where "maxResponseBytes = 65536"

definition pv_call ::
  "go_lib \<Rightarrow> pv_gateway \<Rightarrow> 'w http_server \<Rightarrow> http_method \<Rightarrow> gostring \<Rightarrow> gostring option \<Rightarrow>
   ('d, 'w, chargeResponse) op" where
  "pv_call L g srv method path body =
     (case gl_NewRequest L method (pv_baseURL g @ path) of
        Some e \<Rightarrow> fail (wrap e KindInternal ''build the provider request'')
      | None \<Rightarrow>
     withResult (http_Do srv \<lparr>hq_Method = method, hq_URL = pv_baseURL g @ path, hq_Body = body\<rparr>) (\<lambda>r. case r of
        Inl e \<Rightarrow> fail (WithReason (wrap e KindInternal ''call the provider'') ''PROVIDER_UNAVAILABLE'')
      | Inr res \<Rightarrow>
          (case hr_ReadErr res of
             Some e \<Rightarrow> fail (WithReason (wrap e KindInternal ''read the provider response'') ''PROVIDER_UNAVAILABLE'')
           | None \<Rightarrow>
          let answer = limited maxResponseBytes (hr_Body res) in
          if hr_Status res = 404 then fail ErrPaymentNotFound
          else if hr_Status res < 200 \<or> hr_Status res > 299
          then fail (WithReason (New KindInternal (''the provider answered '' @ show_int (hr_Status res) @ '': '' @
                 TrimSpace answer)) ''PROVIDER_REJECTED'')
          else (case gl_read_response L answer of
                  Inl e \<Rightarrow> fail (WithReason (wrap e KindInternal ''decode the provider response'') ''PROVIDER_MALFORMED'')
                | Inr a \<Rightarrow> ret a))))"

definition pv_toStatus :: "go_lib \<Rightarrow> gostring \<Rightarrow> err + PaymentStatus" where
  "pv_toStatus L s =
     (if s = ''pending'' then Inr PayPending
      else if s = ''succeeded'' then Inr PaySucceeded
      else if s = ''failed'' then Inr PayFailed
      else Inl (WithReason (New KindInternal (''the provider reported an unknown status '' @ gl_Quote L s))
             ''PROVIDER_MALFORMED''))"

definition pv_toResult :: "go_lib \<Rightarrow> chargeResponse \<Rightarrow> err + ChargeResult" where
  "pv_toResult L a =
     (case pv_toStatus L (crs_Status a) of
        Inl e \<Rightarrow> Inl e
      | Inr status \<Rightarrow>
          (case ParseProviderReference (crs_ID a) of
             Inl e \<Rightarrow> Inl (WithReason (wrap e KindInternal ''the provider named no charge'') ''PROVIDER_MALFORMED'')
           | Inr ref \<Rightarrow> Inr \<lparr>cr_Reference = ref, cr_Status = status, cr_FailureReason = crs_FailureReason a,
                            cr_NextActionURL = crs_NextActionURL a\<rparr>))"

definition pv_Charge ::
  "go_lib \<Rightarrow> pv_gateway \<Rightarrow> 'w http_server \<Rightarrow> ChargeCommand \<Rightarrow> ('d, 'w, ChargeResult) op" where
  "pv_Charge L g srv cmd =
     andThen (pv_call L g srv POST ''/v1/charges'' (Some (gl_request L
         \<lparr>crq_IdempotencyKey = cg_PaymentID cmd, crq_Reference = cg_OrderID cmd,
          crq_AmountMinor = amountMinor (cg_Amount cmd), crq_Currency = currency (cg_Amount cmd),
          crq_Method = cg_Method cmd\<rparr>)))
       (\<lambda>answer. pure_op (pv_toResult L answer))"

definition pv_Retrieve ::
  "go_lib \<Rightarrow> pv_gateway \<Rightarrow> 'w http_server \<Rightarrow> gostring \<Rightarrow> ('d, 'w, ChargeResult) op" where
  "pv_Retrieve L g srv ref =
     andThen (pv_call L g srv GET (''/v1/charges/'' @ gl_PathEscape L ref) None)
       (\<lambda>answer. pure_op (pv_toResult L answer))"

definition pv_verify :: "go_lib \<Rightarrow> pv_gateway \<Rightarrow> gostring \<Rightarrow> gostring \<Rightarrow> err + unit" where
  "pv_verify L g payload signature =
     (let rejected = WithReason (New KindUnauthenticated ''the callback signature does not verify'')
            ''CALLBACK_SIGNATURE_INVALID'' in
      case hex_DecodeString (TrimSpace signature) of
        None \<Rightarrow> Inl rejected
      | Some given \<Rightarrow> if given \<noteq> gl_mac L (pv_secret g) payload then Inl rejected else Inr ())"

definition pv_Sign :: "go_lib \<Rightarrow> gostring \<Rightarrow> gostring \<Rightarrow> gostring" where
  "pv_Sign L secret payload = hex_EncodeToString (gl_mac L secret payload)"

definition pv_ParseCallback ::
  "uuid_lib \<Rightarrow> go_lib \<Rightarrow> pv_gateway \<Rightarrow> gostring \<Rightarrow> gostring \<Rightarrow> err + Callback" where
  "pv_ParseCallback U L g payload signature =
     (case pv_verify L g payload signature of
        Inl e \<Rightarrow> Inl e
      | Inr _ \<Rightarrow>
          (case gl_read_callback L payload of
             Inl e \<Rightarrow> Inl (WithReason (wrap e KindInvalidInput ''decode the callback body'') ''CALLBACK_MALFORMED'')
           | Inr body \<Rightarrow>
               (case ParsePaymentID U (cbk_IdempotencyKey body) of
                  Inl e \<Rightarrow> Inl (WithReason (wrap e KindInvalidInput ''the callback names no attempt of ours'')
                             ''CALLBACK_MALFORMED'')
                | Inr paymentID \<Rightarrow>
                    (case pv_toStatus L (cbk_Status body) of
                       Inl e \<Rightarrow> Inl e
                     | Inr status \<Rightarrow>
                         (case ParseProviderReference (cbk_ID body) of
                            Inl e \<Rightarrow> Inl e
                          | Inr ref \<Rightarrow> Inr \<lparr>cb_PaymentID = paymentID, cb_Reference = ref, cb_Status = status,
                              cb_FailureReason = cbk_FailureReason body\<rparr>)))))"

definition pv_port :: "uuid_lib \<Rightarrow> go_lib \<Rightarrow> pv_gateway \<Rightarrow> 'w http_server \<Rightarrow> ('d, 'w) provider_port" where
  "pv_port U L g srv =
     \<lparr>pp_Charge = pv_Charge L g srv, pp_Retrieve = pv_Retrieve L g srv, pp_ParseCallback = pv_ParseCallback U L g\<rparr>"

subsection \<open>The adapter keeps the port's contract\<close>

lemma http_still: "read_only (http_Do srv q)" "keeps_tx (http_Do srv q)"
  unfolding http_Do_def mapErr_def
  by (auto intro!: read_only_withResult keeps_withResult keeps read_only_rpc split: sum.splits)

lemma pv_call_still: "read_only (pv_call L g srv m path b)" "keeps_tx (pv_call L g srv m path b)"
  unfolding pv_call_def
  by (auto intro!: read_only_withResult keeps_withResult keeps http_still simp: Let_def split: sum.splits option.splits)

lemma pv_port_still:
  "read_only (pv_Charge L g srv cmd)" "keeps_tx (pv_Charge L g srv cmd)"
  "read_only (pv_Retrieve L g srv ref)" "keeps_tx (pv_Retrieve L g srv ref)"
  unfolding pv_Charge_def pv_Retrieve_def by (intro read_only_andThen keeps pv_call_still read_only_basic)+

lemma pv_frames:
  "pv_Charge L g srv cmd s = (r, s') \<Longrightarrow> w_db s' = w_db s \<and> w_tx s' = w_tx s"
  "pv_Retrieve L g srv ref s = (r, s') \<Longrightarrow> w_db s' = w_db s \<and> w_tx s' = w_tx s"
  using pv_port_still [of L g srv, unfolded read_only_def keeps_tx_def] by blast+

lemma pv_toStatus_known: "pv_toStatus L s = Inr st \<Longrightarrow> st \<in> {PayPending, PaySucceeded, PayFailed}"
  by (auto simp: pv_toStatus_def split: if_splits)

lemma pv_toStatus_utf8: "pv_toStatus L s = Inr st \<Longrightarrow> valid_utf8 s"
proof -
  have "valid_utf8 ''pending''" "valid_utf8 ''succeeded''" "valid_utf8 ''failed''" by code_simp+
  then show "pv_toStatus L s = Inr st \<Longrightarrow> valid_utf8 s" by (auto simp: pv_toStatus_def split: if_splits)
qed

lemma ParseProviderReference_some: "ParseProviderReference s = Inr r \<Longrightarrow> r \<noteq> []"
  by (auto simp: ParseProviderReference_def Let_def split: if_splits)

lemma pv_toResult_named:
  "pv_toResult L a = Inr r \<Longrightarrow> cr_Reference r \<noteq> [] \<and> cr_Status r \<in> {PayPending, PaySucceeded, PayFailed}"
  by (auto simp: pv_toResult_def split: sum.splits dest!: pv_toStatus_known ParseProviderReference_some)

interpretation pv: provider_gateway "pv_port U L g srv"
proof
  fix cmd s r s'
  show "pp_Charge (pv_port U L g srv) cmd s = (r, s') \<Longrightarrow> w_db s' = w_db s \<and> w_tx s' = w_tx s"
    unfolding pv_port_def by (simp add: pv_frames)
next
  fix ref s r s'
  show "pp_Retrieve (pv_port U L g srv) ref s = (r, s') \<Longrightarrow> w_db s' = w_db s \<and> w_tx s' = w_tx s"
    unfolding pv_port_def by (simp add: pv_frames)
next
  fix body sig b
  show "pp_ParseCallback (pv_port U L g srv) body sig = Inr b \<Longrightarrow>
      cb_Reference b \<noteq> [] \<and> cb_Status b \<in> {PayPending, PaySucceeded, PayFailed}"
    by (auto simp: pv_port_def pv_ParseCallback_def split: sum.splits
        dest!: pv_toStatus_known ParseProviderReference_some)
next
  fix cmd s a s'
  show "pp_Charge (pv_port U L g srv) cmd s = (Inr a, s') \<Longrightarrow>
      cr_Reference a \<noteq> [] \<and> cr_Status a \<in> {PayPending, PaySucceeded, PayFailed}"
    by (auto simp: pv_port_def pv_Charge_def op_inv dest!: pv_toResult_named)
qed

text \<open>C23. A callback is a fact only with the signature: whatever bytes arrive, they are taken as
  news about an attempt only when the signature that came with them is the hexadecimal form of the
  MAC of exactly those bytes under the gateway's secret, in any letter case and with any space
  around it; any other signature is refused as unauthenticated before the body is read. And
  what \<open>Sign\<close> produces for a body that names one of this service's attempts, in texts that are valid
  UTF-8, is accepted and says what the provider put in it.\<close>

theorem callback_authentic:
  "(pv_ParseCallback U L g payload sig = Inr c \<longrightarrow>
      hex_DecodeString (TrimSpace sig) = Some (gl_mac L (pv_secret g) payload)) \<and>
   (hex_DecodeString (TrimSpace sig) \<noteq> Some (gl_mac L (pv_secret g) payload) \<longrightarrow>
      (\<exists>e. pv_ParseCallback U L g payload sig = Inl e \<and> KindOf e = KindUnauthenticated \<and>
           first_Error e = Some (''CALLBACK_SIGNATURE_INVALID'', []))) \<and>
   (go_lib_ok L \<and> valid_utf8 i \<and> valid_utf8 key \<and> valid_utf8 why \<and>
    ParsePaymentID U key = Inr pid \<and> pv_toStatus L st = Inr status \<and> ParseProviderReference i = Inr ref \<longrightarrow>
      (let body = gl_callback L \<lparr>cbk_ID = i, cbk_IdempotencyKey = key, cbk_Status = st, cbk_FailureReason = why\<rparr>
       in pv_ParseCallback U L g body (pv_Sign L (pv_secret g) body) =
          Inr \<lparr>cb_PaymentID = pid, cb_Reference = ref, cb_Status = status, cb_FailureReason = why\<rparr>))"
proof (intro conjI impI)
  show "pv_ParseCallback U L g payload sig = Inr c \<Longrightarrow>
      hex_DecodeString (TrimSpace sig) = Some (gl_mac L (pv_secret g) payload)"
    by (auto simp: pv_ParseCallback_def pv_verify_def Let_def split: sum.splits option.splits if_splits)
next
  assume "hex_DecodeString (TrimSpace sig) \<noteq> Some (gl_mac L (pv_secret g) payload)"
  then show "\<exists>e. pv_ParseCallback U L g payload sig = Inl e \<and> KindOf e = KindUnauthenticated \<and>
           first_Error e = Some (''CALLBACK_SIGNATURE_INVALID'', [])"
    by (auto simp: pv_ParseCallback_def pv_verify_def Let_def New_def split: option.splits)
next
  assume h: "go_lib_ok L \<and> valid_utf8 i \<and> valid_utf8 key \<and> valid_utf8 why \<and>
    ParsePaymentID U key = Inr pid \<and> pv_toStatus L st = Inr status \<and> ParseProviderReference i = Inr ref"
  then have "valid_utf8 st" using pv_toStatus_utf8 by blast
  with h show "let body = gl_callback L \<lparr>cbk_ID = i, cbk_IdempotencyKey = key, cbk_Status = st, cbk_FailureReason = why\<rparr>
       in pv_ParseCallback U L g body (pv_Sign L (pv_secret g) body) =
          Inr \<lparr>cb_PaymentID = pid, cb_Reference = ref, cb_Status = status, cb_FailureReason = why\<rparr>"
    by (simp add: Let_def pv_ParseCallback_def pv_verify_def pv_Sign_def hex_trim hex_roundtrip go_lib_ok_def)
qed

text \<open>A library that can be evaluated: fields packed one after the other, every byte of a field behind
  a one and every field closed by a zero.\<close>

fun pack :: "gostring list \<Rightarrow> gostring" where
  "pack [] = []"
| "pack (s # ss) = concat (map (\<lambda>c. [CHR 0x01, c]) s) @ CHR 0x00 # pack ss"

fun unpack :: "gostring \<Rightarrow> gostring \<Rightarrow> gostring list" where
  "unpack acc [] = []"
| "unpack acc [c] = [rev acc]"
| "unpack acc (a # c # s) = (if a = CHR 0x01 then unpack (c # acc) s else rev acc # unpack [] (c # s))"

definition unpack_int :: "gostring \<Rightarrow> int" where
  "unpack_int s = (case s of [] \<Rightarrow> 0
     | c # s' \<Rightarrow> if c = CHR ''-'' then - int (read_nat s') else int (read_nat s))"

definition packed_lib :: go_lib where
  "packed_lib =
     \<lparr>gl_mac = (\<lambda>k p. rev (k @ p)),
      gl_request = (\<lambda>q. pack [crq_IdempotencyKey q, crq_Reference q, show_int (crq_AmountMinor q), crq_Currency q,
         crq_Method q]),
      gl_read_request = (\<lambda>s. case unpack [] s of
          [a, b, c, d, e] \<Rightarrow> Inr \<lparr>crq_IdempotencyKey = a, crq_Reference = b, crq_AmountMinor = unpack_int c,
            crq_Currency = d, crq_Method = e\<rparr>
        | _ \<Rightarrow> Inl (PlainErr ''malformed'')),
      gl_response = (\<lambda>a. pack [crs_ID a, crs_Status a, crs_FailureReason a, crs_NextActionURL a]),
      gl_read_response = (\<lambda>s. case unpack [] s of
          [a, b, c, d] \<Rightarrow> Inr \<lparr>crs_ID = a, crs_Status = b, crs_FailureReason = c, crs_NextActionURL = d\<rparr>
        | _ \<Rightarrow> Inl (PlainErr ''malformed'')),
      gl_callback = (\<lambda>a. pack [cbk_ID a, cbk_IdempotencyKey a, cbk_Status a, cbk_FailureReason a]),
      gl_read_callback = (\<lambda>s. case unpack [] s of
          [a, b, c, d] \<Rightarrow> Inr \<lparr>cbk_ID = a, cbk_IdempotencyKey = b, cbk_Status = c, cbk_FailureReason = d\<rparr>
        | _ \<Rightarrow> Inl (PlainErr ''malformed'')),
      gl_NewRequest = (\<lambda>m u. None), gl_PathEscape = (\<lambda>s. s), gl_PathUnescape = (\<lambda>s. s), gl_Quote = (\<lambda>s. s)\<rparr>"

lemma unpack_field:
  "unpack acc (concat (map (\<lambda>c. [CHR 0x01, c]) s) @ CHR 0x00 # r) = (rev acc @ s) # unpack [] r"
  by (induction s arbitrary: acc; cases r) auto

lemma unpack_pack: "unpack [] (pack ss) = ss"
  by (induction ss) (simp_all add: unpack_field)

lemma unpack_show_int: "unpack_int (show_int n) = n"
proof -
  obtain c s where s: "show_nat (nat n) = c # s" by (metis list.exhaust show_nat.simps append_is_Nil_conv not_Cons_self2)
  have "c \<noteq> CHR ''-''" using show_nat_digits [of c "nat n"] s dash_not_digit by auto
  then show ?thesis
    using s read_show_nat [of "nat n"] read_show_nat [of "nat (- n)"]
    by (simp add: unpack_int_def show_int_def del: read_nat.simps)
qed

lemma packed_lib_ok: "go_lib_ok packed_lib"
  by (simp add: go_lib_ok_def packed_lib_def unpack_pack unpack_show_int del: pack.simps)

theorem callback_authentic_witness:
  "let g = pv_New ''http://pay/'' ''s3cret''; U = canonical_uuids;
       key = ''11111111-1111-4111-8111-111111111111'';
       body = gl_callback packed_lib
         \<lparr>cbk_ID = ''chrg_1'', cbk_IdempotencyKey = key, cbk_Status = ''succeeded'', cbk_FailureReason = []\<rparr>
   in pv_ParseCallback U packed_lib g body (pv_Sign packed_lib ''s3cret'' body) =
        Inr \<lparr>cb_PaymentID = key, cb_Reference = ''chrg_1'', cb_Status = PaySucceeded, cb_FailureReason = []\<rparr> \<and>
      isl (pv_ParseCallback U packed_lib g body (pv_Sign packed_lib ''guess'' body))"
proof -
  let ?g = "pv_New ''http://pay/'' ''s3cret''"
  let ?key = "''11111111-1111-4111-8111-111111111111''"
  let ?body = "gl_callback packed_lib
         \<lparr>cbk_ID = ''chrg_1'', cbk_IdempotencyKey = ?key, cbk_Status = ''succeeded'', cbk_FailureReason = []\<rparr>"
  have g: "pv_secret ?g = ''s3cret''" by (simp add: pv_New_def)
  have key: "ParsePaymentID canonical_uuids ?key = Inr ?key" by code_simp
  have st: "pv_toStatus packed_lib ''succeeded'' = Inr PaySucceeded" by (simp add: pv_toStatus_def)
  have ref: "ParseProviderReference ''chrg_1'' = Inr ''chrg_1''" by code_simp
  have v: "valid_utf8 ''chrg_1''" "valid_utf8 ?key" "valid_utf8 []" by code_simp+
  have mac: "gl_mac packed_lib ''guess'' ?body \<noteq> gl_mac packed_lib ''s3cret'' ?body"
    by (simp add: packed_lib_def)
  then have forged: "hex_DecodeString (TrimSpace (pv_Sign packed_lib ''guess'' ?body)) \<noteq>
      Some (gl_mac packed_lib (pv_secret ?g) ?body)"
    by (simp add: g pv_Sign_def hex_trim hex_roundtrip)
  note c = callback_authentic [of canonical_uuids packed_lib ?g, THEN conjunct2]
  from c [THEN conjunct1, rule_format, OF forged]
  have "isl (pv_ParseCallback canonical_uuids packed_lib ?g ?body (pv_Sign packed_lib ''guess'' ?body))"
    by auto
  moreover from c [THEN conjunct2, rule_format, OF conjI [OF packed_lib_ok
      conjI [OF v(1) conjI [OF v(2) conjI [OF v(3) conjI [OF key conjI [OF st ref]]]]]]]
  have "pv_ParseCallback canonical_uuids packed_lib ?g ?body (pv_Sign packed_lib (pv_secret ?g) ?body) =
      Inr \<lparr>cb_PaymentID = ?key, cb_Reference = ''chrg_1'', cb_Status = PaySucceeded, cb_FailureReason = []\<rparr>"
    unfolding Let_def .
  ultimately show ?thesis unfolding Let_def g by (rule conjI [rotated])
qed

end
