(* ===== verification/PayApp.thy ===== *)
theory PayApp
  imports PayStore PayProvider OrdServer
begin

text \<open>
  \<open>services/payment/internal/app\<close> and \<open>adapter/out/grpcclient\<close>: starting an attempt,
  reading attempts and settling what a callback names, over the stores, the transaction manager,
  the order service and the provider's port. SHA-256 is the argument \<open>H\<close>.
\<close>

subsection \<open>The order service\<close>

record PayableOrder =
  po_ID :: gostring
  po_Total :: Money
  po_Payable :: bool

definition pay_payable :: "pb_OrderStatus \<Rightarrow> bool" where
  "pay_payable s = (s = ORDER_STATUS_PENDING_PAYMENT)"

definition payable_order :: "pb_Order \<Rightarrow> err + PayableOrder" where
  "payable_order o' =
     (case pay_NewCurrencyCode (mny_CurrencyCode (pbord_Total o')) of
        Inl e \<Rightarrow> Inl e
      | Inr cur \<Rightarrow>
          (case pay_NewMoney (mny_AmountMinor (pbord_Total o')) cur of
             Inl e \<Rightarrow> Inl e
           | Inr amount \<Rightarrow>
               Inr \<lparr>po_ID = pbord_Id o', po_Total = amount, po_Payable = pay_payable (pbord_Status o')\<rparr>))"

type_synonym 'w order_client = "gostring \<Rightarrow> 'w \<Rightarrow> (err + pb_Order) \<times> 'w"

definition gw_GetOrder :: "'w order_client \<Rightarrow> gostring \<Rightarrow> ('d, 'w, PayableOrder) op" where
  "gw_GetOrder G orderID = andThen (rpc (G orderID)) (\<lambda>o'. pure_op (payable_order o'))"

subsection \<open>Requests and their fingerprint\<close>

record InitiatePaymentCommand =
  ip_OrderID :: gostring
  ip_UserID :: gostring
  ip_IdempotencyKey :: gostring
  ip_Method :: gostring

record InitiatedPayment =
  ini_Payment :: Payment
  ini_NextActionURL :: gostring

definition pay_hash_input :: "gostring \<Rightarrow> gostring \<Rightarrow> gostring \<Rightarrow> gostring" where
  "pay_hash_input userID orderID method = concat (map (\<lambda>part. CHR 0x00 # part) [userID, orderID, method])"

definition pay_hashRequest :: "(gostring \<Rightarrow> gostring) \<Rightarrow> gostring \<Rightarrow> gostring \<Rightarrow> gostring \<Rightarrow> gostring" where
  "pay_hashRequest H userID orderID method = H (pay_hash_input userID orderID method)"

definition pay_errKeyReused :: err where
  "pay_errKeyReused = WithReason (New KindConflict ''idempotency_key was used for a different request'')
     ''IDEMPOTENCY_KEY_REUSED''"

text \<open>\<open>errReplay\<close> with the variable \<open>replayedID\<close> that the closure sets before it returns it.\<close>

definition pay_errReplay :: "gostring \<Rightarrow> err" where
  "pay_errReplay replayedID = WrapErr [] (PlainErr ''payment: idempotency key already answered'') replayedID"

fun pay_replayed_id :: "err \<Rightarrow> gostring option" where
  "pay_replayed_id (WrapErr pre e post) =
     (if pre = [] \<and> e = PlainErr ''payment: idempotency key already answered'' then Some post
      else pay_replayed_id e)"
| "pay_replayed_id (JoinErr es) = first_some (map pay_replayed_id es)"
| "pay_replayed_id (XErr _ _ _ _ (Some c)) = pay_replayed_id c"
| "pay_replayed_id (GrpcErr _ c) = pay_replayed_id c"
| "pay_replayed_id _ = None"

subsection \<open>Replaying a key and settling an attempt\<close>

definition pay_replay ::
  "uuid_lib \<Rightarrow> gostring \<Rightarrow> gostring \<Rightarrow> gostring \<Rightarrow> ('w, Payment option) pay_op" where
  "pay_replay U userID key hash =
     andThen (pay_idem_Find U userID key) (\<lambda>c. case c of
        None \<Rightarrow> ret None
      | Some claim \<Rightarrow>
          if yc_RequestHash claim \<noteq> hash then fail pay_errKeyReused
          else andThen (payments_FindByID U (yc_PaymentID claim)) (\<lambda>p. ret (Some p)))"

text \<open>A provider that will not answer costs the URL and not the request.\<close>

definition pay_withNextAction :: "(pay_db, 'w) provider_port \<Rightarrow> Payment \<Rightarrow> ('w, InitiatedPayment) pay_op" where
  "pay_withNextAction P p =
     (if pay_status p \<noteq> PayPending \<or> pay_reference p = []
      then ret \<lparr>ini_Payment = p, ini_NextActionURL = []\<rparr>
      else withResult (pp_Retrieve P (pay_reference p)) (\<lambda>r. case r of
          Inl e \<Rightarrow> ret \<lparr>ini_Payment = p, ini_NextActionURL = []\<rparr>
        | Inr result \<Rightarrow> ret \<lparr>ini_Payment = p, ini_NextActionURL = cr_NextActionURL result\<rparr>))"

definition settle_tx :: "pay_env \<Rightarrow> gostring \<Rightarrow> ChargeResult \<Rightarrow> ('w, Payment) pay_op" where
  "settle_tx E paymentID result =
     andThen (payments_FindByIDForUpdate (ye_U E) paymentID) (\<lambda>p.
     andThen (pure_op (pay_apply result p)) (\<lambda>(moved, p').
       if \<not> moved then ret p' else payments_Update E p'))"

definition pay_settle :: "pay_env \<Rightarrow> gostring \<Rightarrow> ChargeResult \<Rightarrow> ('w, Payment) pay_op" where
  "pay_settle E paymentID result = Do (settle_tx E paymentID result)"

subsection \<open>InitiatePayment\<close>

definition initiate_tx ::
  "pay_env \<Rightarrow> gostring \<Rightarrow> gostring \<Rightarrow> gostring \<Rightarrow> Payment \<Rightarrow> ('w, Payment) pay_op" where
  "initiate_tx E userID key hash built =
     andThen (pay_idem_Claim (ye_U E) userID key hash (pay_id built)) (\<lambda>(claim, taken).
       if \<not> taken
       then if yc_RequestHash claim \<noteq> hash then fail pay_errKeyReused
            else fail (pay_errReplay (yc_PaymentID claim))
       else payments_Create E built)"

text \<open>Once the attempt is stored: the charge, outside any transaction, and its answer applied to
  a freshly locked row.\<close>

definition charge_and_settle ::
  "pay_env \<Rightarrow> (pay_db, 'w) provider_port \<Rightarrow> Payment \<Rightarrow> ('w, InitiatedPayment) pay_op" where
  "charge_and_settle E P built =
     andThen (pp_Charge P \<lparr>cg_PaymentID = pay_id built, cg_OrderID = pay_orderID built,
                           cg_Amount = pay_amount built, cg_Method = pay_method built\<rparr>) (\<lambda>result.
     andThen (pay_settle E (pay_id built) result) (\<lambda>p.
       ret \<lparr>ini_Payment = p, ini_NextActionURL = cr_NextActionURL result\<rparr>))"

definition initiate_finish ::
  "pay_env \<Rightarrow> (pay_db, 'w) provider_port \<Rightarrow> Payment \<Rightarrow> err + Payment \<Rightarrow> ('w, InitiatedPayment) pay_op" where
  "initiate_finish E P built r =
     (case r of
        Inr _ \<Rightarrow> charge_and_settle E P built
      | Inl e \<Rightarrow>
          (case pay_replayed_id e of
             Some replayedID \<Rightarrow> andThen (payments_FindByID (ye_U E) replayedID) (pay_withNextAction P)
           | None \<Rightarrow> fail e))"

text \<open>A key that has no answer yet: the order is read, the attempt and the claim are written in one
  transaction, and only then is the provider called.\<close>

definition initiate_fresh ::
  "pay_env \<Rightarrow> 'w order_client \<Rightarrow> (pay_db, 'w) provider_port \<Rightarrow> gostring \<Rightarrow> gostring \<Rightarrow> gostring \<Rightarrow>
   gostring \<Rightarrow> gostring \<Rightarrow> gostring \<Rightarrow> ('w, InitiatedPayment) pay_op" where
  "initiate_fresh E G P paymentID userID orderID method key hash =
     andThen (gw_GetOrder G orderID) (\<lambda>order.
       if \<not> po_Payable order
       then fail (WithMetadata (WithReason (New KindConflict ''order is not waiting for payment'')
              ''ORDER_NOT_PAYABLE'') [(''order_id'', orderID)])
       else andThen (pure_op (NewPayment paymentID orderID userID (po_Total order) method)) (\<lambda>built.
         withResult (Do (initiate_tx E userID key hash built)) (initiate_finish E P built)))"

definition initiate_body ::
  "pay_env \<Rightarrow> 'w order_client \<Rightarrow> (pay_db, 'w) provider_port \<Rightarrow> gostring \<Rightarrow> gostring \<Rightarrow> gostring \<Rightarrow>
   gostring \<Rightarrow> gostring \<Rightarrow> gostring \<Rightarrow> ('w, InitiatedPayment) pay_op" where
  "initiate_body E G P paymentID userID orderID method key hash =
     andThen (pay_replay (ye_U E) userID key hash) (\<lambda>replayed. case replayed of
        Some p \<Rightarrow> pay_withNextAction P p
      | None \<Rightarrow> initiate_fresh E G P paymentID userID orderID method key hash)"

definition pay_InitiatePayment ::
  "pay_env \<Rightarrow> 'w order_client \<Rightarrow> (pay_db, 'w) provider_port \<Rightarrow> (gostring \<Rightarrow> gostring) \<Rightarrow> gostring \<Rightarrow>
   InitiatePaymentCommand \<Rightarrow> ('w, InitiatedPayment) pay_op" where
  "pay_InitiatePayment E G P H new_id cmd =
     andThen (pure_op (pay_ParseUserID (ye_U E) (ip_UserID cmd))) (\<lambda>userID.
     andThen (pure_op (pay_ParseOrderID (ye_U E) (ip_OrderID cmd))) (\<lambda>orderID.
     andThen (pure_op (NewMethod (ip_Method cmd))) (\<lambda>method.
       if ip_IdempotencyKey cmd = []
       then fail (WithReason (New KindInvalidInput ''idempotency_key is required'') ''IDEMPOTENCY_KEY_REQUIRED'')
       else initiate_body E G P new_id userID orderID method (ip_IdempotencyKey cmd)
              (pay_hashRequest H userID orderID method))))"

subsection \<open>Reading attempts\<close>

definition pay_GetPayment :: "uuid_lib \<Rightarrow> gostring \<Rightarrow> gostring \<Rightarrow> ('w, Payment) pay_op" where
  "pay_GetPayment U payment_id user_id =
     andThen (pure_op (pay_ParseUserID U user_id)) (\<lambda>userID.
     andThen (pure_op (ParsePaymentID U payment_id)) (\<lambda>paymentID.
     andThen (payments_FindByID U paymentID) (\<lambda>p.
       if pay_userID p \<noteq> userID then fail ErrPaymentNotFound else ret p)))"

definition pay_maxOrderIDs :: nat where "pay_maxOrderIDs = 100"

definition pay_GetPaymentsByOrderIDs ::
  "uuid_lib \<Rightarrow> gostring list \<Rightarrow> gostring \<Rightarrow> ('w, Payment list) pay_op" where
  "pay_GetPaymentsByOrderIDs U order_ids user_id =
     andThen (pure_op (pay_ParseUserID U user_id)) (\<lambda>userID.
       if order_ids = [] then fail (New KindInvalidInput ''order_ids is required'')
       else if length order_ids > pay_maxOrderIDs
       then fail (New KindInvalidInput (''order_ids has more than '' @ show_nat pay_maxOrderIDs @ '' entries''))
       else andThen (pure_op (map_res (pay_ParseOrderID U) order_ids)) (\<lambda>orderIDs.
         andThen (payments_FindByOrderIDs U orderIDs) (\<lambda>found.
           ret (filter (\<lambda>p. pay_userID p = userID) found))))"

subsection \<open>Callbacks\<close>

definition pay_HandleProviderCallback ::
  "pay_env \<Rightarrow> (pay_db, 'w) provider_port \<Rightarrow> gostring \<Rightarrow> gostring \<Rightarrow> ('w, Payment option) pay_op" where
  "pay_HandleProviderCallback E P payload signature =
     andThen (pure_op (pp_ParseCallback P payload signature)) (\<lambda>callback.
     withResult (pay_settle E (cb_PaymentID callback)
         \<lparr>cr_Reference = cb_Reference callback, cr_Status = cb_Status callback,
          cr_FailureReason = cb_FailureReason callback, cr_NextActionURL = []\<rparr>) (\<lambda>r. case r of
        Inl e \<Rightarrow> if errors_Is e ErrPaymentNotFound then ret None else fail e
      | Inr p \<Rightarrow> ret (Some p)))"

end
