(* ===== verification/PayServer.thy ===== *)
theory PayServer
  imports PayApp
begin

text \<open>
  The payment service's gRPC handlers, \<open>adapter/in/grpc\<close>. The identity a call carries is an
  argument, absent when the interceptor found none; a callback needs none.
\<close>

datatype pb_PaymentStatus =
  PAYMENT_STATUS_UNSPECIFIED | PAYMENT_STATUS_PENDING | PAYMENT_STATUS_SUCCEEDED | PAYMENT_STATUS_FAILED

record pb_Payment =
  pbp_Id :: gostring
  pbp_OrderId :: gostring
  pbp_UserId :: gostring
  pbp_Status :: pb_PaymentStatus
  pbp_Amount :: pb_Money
  pbp_ProviderReference :: gostring
  pbp_FailureReason :: gostring
  pbp_CreatedAt :: gotime
  pbp_UpdatedAt :: gotime

fun pay_toProtoStatus :: "PaymentStatus \<Rightarrow> pb_PaymentStatus" where
  "pay_toProtoStatus PayPending = PAYMENT_STATUS_PENDING"
| "pay_toProtoStatus PaySucceeded = PAYMENT_STATUS_SUCCEEDED"
| "pay_toProtoStatus PayFailed = PAYMENT_STATUS_FAILED"
| "pay_toProtoStatus (PayStatusOther _) = PAYMENT_STATUS_UNSPECIFIED"

definition pay_toProto :: "Payment \<Rightarrow> pb_Payment" where
  "pay_toProto p =
     \<lparr>pbp_Id = pay_id p, pbp_OrderId = pay_orderID p, pbp_UserId = pay_userID p,
      pbp_Status = pay_toProtoStatus (pay_status p), pbp_Amount = pay_money (pay_amount p),
      pbp_ProviderReference = pay_reference p, pbp_FailureReason = pay_reason p,
      pbp_CreatedAt = pay_createdAt p, pbp_UpdatedAt = pay_updatedAt p\<rparr>"

definition pay_caller :: "Identity option \<Rightarrow> err + gostring" where
  "pay_caller identity =
     (let refused = WithReason (New KindUnauthenticated ''this call is about the caller's own payments'')
            ''IDENTITY_REQUIRED'' in
      case identity of
        None \<Rightarrow> Inl refused
      | Some i \<Rightarrow> if idn_UserID i = [] then Inl refused else Inr (idn_UserID i))"

definition pay_h_InitiatePayment ::
  "status_pkg \<Rightarrow> pay_env \<Rightarrow> 'w order_client \<Rightarrow> (pay_db, 'w) provider_port \<Rightarrow> (gostring \<Rightarrow> gostring) \<Rightarrow>
   gostring \<Rightarrow> Identity option \<Rightarrow> gostring \<Rightarrow> gostring \<Rightarrow> gostring \<Rightarrow> ('w, pb_Payment \<times> gostring) pay_op" where
  "pay_h_InitiatePayment fe E G P H new_id identity order_id key method =
     answer fe (\<lambda>i. (pay_toProto (ini_Payment i), ini_NextActionURL i))
       (andThen (pure_op (pay_caller identity)) (\<lambda>userID.
         pay_InitiatePayment E G P H new_id
           \<lparr>ip_OrderID = order_id, ip_UserID = userID, ip_IdempotencyKey = key, ip_Method = method\<rparr>))"

definition pay_h_GetPayment ::
  "status_pkg \<Rightarrow> uuid_lib \<Rightarrow> Identity option \<Rightarrow> gostring \<Rightarrow> ('w, pb_Payment) pay_op" where
  "pay_h_GetPayment fe U identity payment_id =
     answer fe pay_toProto
       (andThen (pure_op (pay_caller identity)) (\<lambda>userID. pay_GetPayment U payment_id userID))"

definition pay_h_GetPaymentsByOrderIDs ::
  "status_pkg \<Rightarrow> uuid_lib \<Rightarrow> Identity option \<Rightarrow> gostring list \<Rightarrow> ('w, pb_Payment list) pay_op" where
  "pay_h_GetPaymentsByOrderIDs fe U identity order_ids =
     answer fe (map pay_toProto)
       (andThen (pure_op (pay_caller identity)) (\<lambda>userID. pay_GetPaymentsByOrderIDs U order_ids userID))"

definition pay_h_HandleProviderCallback ::
  "status_pkg \<Rightarrow> pay_env \<Rightarrow> (pay_db, 'w) provider_port \<Rightarrow> gostring \<Rightarrow> gostring \<Rightarrow> ('w, pb_Payment option) pay_op" where
  "pay_h_HandleProviderCallback fe E P payload signature =
     answer fe (map_option pay_toProto) (pay_HandleProviderCallback E P payload signature)"

end
