(* ===== verification/PayBooks.thy ===== *)
theory PayBooks
  imports PayServer
begin

text \<open>
  What the payment database promises between transactions: an attempt is announced exactly as its
  status says; at most one attempt for an order has not failed; an idempotency key names an
  attempt of the same user. Here are the predicates and what each write does to the tables.
\<close>

subsection \<open>Tables that only grow\<close>

definition grows :: "('r \<Rightarrow> 'r \<Rightarrow> bool) \<Rightarrow> 'r list \<Rightarrow> 'r list \<Rightarrow> bool" where
  "grows R xs ys \<longleftrightarrow> length xs \<le> length ys \<and> list_all2 R xs (take (length xs) ys)"

lemma grows_refl: "(\<And>x. R x x) \<Longrightarrow> grows R xs xs"
  by (simp add: grows_def list_all2_same)

lemma grows_append: "(\<And>x. R x x) \<Longrightarrow> grows R xs (xs @ ys)"
  by (simp add: grows_def list_all2_same)

lemma grows_replace: "(\<And>x. R x x) \<Longrightarrow> R r r' \<Longrightarrow> grows R (a @ r # b) (a @ r' # b)"
  by (auto simp: grows_def list_all2_same intro!: list_all2_appendI)

lemma grows_trans:
  assumes "\<And>x y z. R x y \<Longrightarrow> R y z \<Longrightarrow> R x z" and xy: "grows R xs ys" and yz: "grows R ys zs"
  shows "grows R xs zs"
proof -
  let ?n = "length xs"
  from yz have "list_all2 R ys (take (length ys) zs)" by (simp add: grows_def)
  then have "list_all2 R (take ?n ys) (take ?n (take (length ys) zs))" by (rule list_all2_takeI)
  moreover from xy have "min ?n (length ys) = ?n" by (simp add: grows_def)
  ultimately have "list_all2 R (take ?n ys) (take ?n zs)" by simp
  with xy have "list_all2 R xs (take ?n zs)"
    by (auto simp: grows_def intro: list_all2_trans [OF assms(1)])
  with xy yz show ?thesis by (simp add: grows_def)
qed

lemma grows_row:
  assumes "grows R xs ys" and "x \<in> set xs"
  obtains y where "y \<in> set ys" "R x y"
proof -
  from assms(2) obtain i where i: "i < length xs" "xs ! i = x" by (auto simp: in_set_conv_nth)
  with assms(1) have "R (xs ! i) (take (length xs) ys ! i)" "length xs \<le> length ys"
    by (auto simp: grows_def list_all2_conv_all_nth)
  with i that [of "ys ! i"] show ?thesis by auto
qed

subsection \<open>Announcements\<close>

definition pay_about :: "pay_row \<Rightarrow> string \<Rightarrow> pb_event option \<Rightarrow> bool" where
  "pay_about r name p \<longleftrightarrow> (case p of
     Some (PbPaymentSucceeded pid oid uid amount ref t) \<Rightarrow> name = ''PaymentSucceeded'' \<and>
       pid = yr_ID r \<and> oid = yr_OrderID r \<and> uid = yr_UserID r \<and> ref = yr_ProviderReference r \<and>
       mny_AmountMinor amount = yr_AmountMinor r \<and> mny_CurrencyCode amount = yr_AmountCurrency r
   | Some (PbPaymentFailed pid oid uid amount reason t) \<Rightarrow> name = ''PaymentFailed'' \<and>
       pid = yr_ID r \<and> oid = yr_OrderID r \<and> uid = yr_UserID r \<and> reason = yr_FailureReason r \<and>
       mny_AmountMinor amount = yr_AmountMinor r \<and> mny_CurrencyCode amount = yr_AmountCurrency r
   | _ \<Rightarrow> False)"

definition pay_says :: "codec \<Rightarrow> pay_row \<Rightarrow> string \<Rightarrow> outbox_row \<Rightarrow> bool" where
  "pay_says C r name b \<longleftrightarrow> ob_EventType b = name \<and>
     (\<exists>env. events_Decode C (ob_Payload b) = Inr env \<and> env_EventType env = name \<and>
        env_AggregateId env = yr_ID r \<and> pay_about r name (env_Payload env))"

definition pay_story :: "string \<Rightarrow> string list" where
  "pay_story status =
     (if status = ''succeeded'' then [''PaymentSucceeded'']
      else if status = ''failed'' then [''PaymentFailed''] else [])"

definition about_payment :: "pay_db \<Rightarrow> gostring \<Rightarrow> outbox_row list" where
  "about_payment db pid = filter (\<lambda>b. ob_AggregateID b = pid) (outbox db)"

definition pay_told :: "codec \<Rightarrow> pay_db \<Rightarrow> pay_row \<Rightarrow> bool" where
  "pay_told C db r \<longleftrightarrow> list_all2 (pay_says C r) (pay_story (yr_Status r)) (about_payment db (yr_ID r))"

subsection \<open>The invariant\<close>

definition unresolved :: "pay_row list \<Rightarrow> pay_row list" where
  "unresolved t = filter (\<lambda>r. yr_Status r \<noteq> ''failed'') t"

definition pay_row_ok :: "uuid_lib \<Rightarrow> codec \<Rightarrow> pay_db \<Rightarrow> pay_row \<Rightarrow> bool" where
  "pay_row_ok U C db r \<longleftrightarrow> known_pay_status (yr_Status r) \<and> 1 \<le> yr_Version r \<and> int4 (yr_Version r) \<and>
     0 < yr_AmountMinor r \<and> (yr_Status r = ''succeeded'' \<longrightarrow> yr_ProviderReference r \<noteq> []) \<and>
     uuid_Parse U (yr_ID r) = Inr (yr_ID r) \<and> pay_told C db r"

definition pay_rows_ok :: "uuid_lib \<Rightarrow> codec \<Rightarrow> pay_db \<Rightarrow> bool" where
  "pay_rows_ok U C db \<longleftrightarrow>
     distinct (map yr_ID (payments db)) \<and> distinct (map yr_OrderID (unresolved (payments db))) \<and>
     (\<forall>r \<in> set (payments db). pay_row_ok U C db r) \<and>
     (\<forall>b \<in> set (outbox db). ob_AggregateID b \<in> yr_ID ` set (payments db))"

definition pay_keys_ok :: "pay_db \<Rightarrow> bool" where
  "pay_keys_ok db \<longleftrightarrow>
     distinct (map (\<lambda>k. (yk_UserID k, yk_Key k)) (pay_keys db)) \<and>
     (\<forall>k \<in> set (pay_keys db). \<exists>r \<in> set (payments db). yr_ID r = yk_PaymentID k \<and> yr_UserID r = yk_UserID k)"

definition pay_ok :: "uuid_lib \<Rightarrow> codec \<Rightarrow> pay_db \<Rightarrow> bool" where
  "pay_ok U C db \<longleftrightarrow> pay_rows_ok U C db \<and> pay_keys_ok db"

text \<open>How an attempt may change: what was asked for stays, a settled status stays, and a reference
  stays once it is known.\<close>

definition attempt_moves :: "pay_row \<Rightarrow> pay_row \<Rightarrow> bool" where
  "attempt_moves r r' \<longleftrightarrow>
     yr_ID r' = yr_ID r \<and> yr_OrderID r' = yr_OrderID r \<and> yr_UserID r' = yr_UserID r \<and>
     yr_AmountMinor r' = yr_AmountMinor r \<and> yr_AmountCurrency r' = yr_AmountCurrency r \<and>
     yr_Method r' = yr_Method r \<and> yr_CreatedAt r' = yr_CreatedAt r \<and>
     (yr_Status r \<noteq> ''pending'' \<longrightarrow> yr_Status r' = yr_Status r \<and> yr_FailureReason r' = yr_FailureReason r) \<and>
     (yr_ProviderReference r \<noteq> [] \<longrightarrow> yr_ProviderReference r' = yr_ProviderReference r)"

definition pay_evolves :: "pay_db \<Rightarrow> pay_db \<Rightarrow> bool" where
  "pay_evolves db db' \<longleftrightarrow> grows attempt_moves (payments db) (payments db') \<and>
     (\<exists>news. outbox db' = outbox db @ news) \<and> (\<exists>more. pay_keys db' = pay_keys db @ more)"

definition pay_good :: "pay_env \<Rightarrow> pay_db \<Rightarrow> pay_db \<Rightarrow> bool" where
  "pay_good E db db' \<longleftrightarrow> pay_ok (ye_U E) (ye_C E) db' \<and> pay_evolves db db'"

lemma attempt_moves_refl [simp]: "attempt_moves r r"
  by (simp add: attempt_moves_def)

lemma attempt_moves_trans: "attempt_moves a b \<Longrightarrow> attempt_moves b c \<Longrightarrow> attempt_moves a c"
  unfolding attempt_moves_def by auto

lemma pay_evolves_refl [simp]: "pay_evolves db db"
  by (simp add: pay_evolves_def grows_refl)

lemma pay_evolves_trans: "pay_evolves a b \<Longrightarrow> pay_evolves b c \<Longrightarrow> pay_evolves a c"
  unfolding pay_evolves_def by (auto intro: grows_trans [of attempt_moves] attempt_moves_trans)

lemma pay_good_trans: "pay_good E a b \<Longrightarrow> pay_good E b c \<Longrightarrow> pay_good E a c"
  by (auto simp: pay_good_def intro: pay_evolves_trans)

lemma pay_goodI: "pay_ok (ye_U E) (ye_C E) db \<Longrightarrow> pay_good E db db"
  by (simp add: pay_good_def)

subsection \<open>What a write does\<close>

lemma pay_parseID_Inr [op_inv]: "pay_parseID U what s = Inr u \<longleftrightarrow> uuid_Parse U s = Inr u"
  by (auto simp: pay_parseID_def split: sum.splits)

lemma pay_identifiers_Inr [op_inv]:
  "pay_identifiers U s = Inr (p, o', u) \<longleftrightarrow>
     uuid_Parse U (ys_ID s) = Inr p \<and> uuid_Parse U (ys_OrderID s) = Inr o' \<and> uuid_Parse U (ys_UserID s) = Inr u"
  by (auto simp: pay_identifiers_def pay_parseID_def split: sum.splits)

definition pay_announces :: "codec \<Rightarrow> pay_row \<Rightarrow> PayEvent \<Rightarrow> outbox_row \<Rightarrow> bool" where
  "pay_announces C row e b \<longleftrightarrow> ob_AggregateID b = yr_ID row \<and> ob_EventType b = pay_EventName e \<and>
     ob_PublishedAt b = None \<and>
     (\<exists>env. events_Decode C (ob_Payload b) = Inr env \<and> env_EventType env = pay_EventName e \<and>
        env_AggregateId env = yr_ID row \<and> env_Payload env = Some (pay_toPayload e row))"

lemma pay_record_announces:
  assumes "codec_ok (ye_C E)" and "pay_record E row (i, e) = Inr rc"
  shows "pay_announces (ye_C E) row e (outbox_row_of now k rc)"
proof -
  from assms(2) have "events_Record (ye_C E) (ye_headers E) (ye_event_id E (yr_ID row) (yr_Version row) i) (pay_fact row e) = Inr rc"
    by (auto simp: pay_record_def split: sum.splits)
  from events_Record_Inr [OF assms(1) this] show ?thesis
    by (auto simp: pay_announces_def outbox_row_of_def pay_fact_def)
qed

lemma pay_writeEvents_Inr:
  assumes C: "codec_ok (ye_C E)" and run: "pay_writeEvents E p row s = (Inr u, s')"
  obtains news k where "w_db s' = (w_db s)\<lparr>outbox := outbox (w_db s) @ news, outbox_next := k\<rparr>"
    "list_all2 (pay_announces (ye_C E) row) (pay_events p) news" "w_ext s' = w_ext s" "w_tx s' = w_tx s"
proof (cases "pay_events p = []")
  case True
  with run that [of "outbox_next (w_db s)" "[]"] show ?thesis
    by (auto simp: pay_writeEvents_def pay_PullEvents_def op_inv)
next
  case False
  from run False obtain rs where rs: "map_res (pay_record E row) (enumerate 0 (pay_events p)) = Inr rs"
      "outbox_Write rs s = (Inr (), s')"
    by (auto simp: pay_writeEvents_def pay_PullEvents_def Let_def op_inv)
  from rs(1) have l: "list_all2 (\<lambda>ie rc. pay_record E row ie = Inr rc) (enumerate 0 (pay_events p)) rs"
    by (simp add: map_res_Inr)
  let ?new = "map (\<lambda>(i, r). outbox_row_of (db_now (w_db s)) (outbox_next (w_db s) + int i) r) (enumerate 0 rs)"
  from list_all2_lengthD [OF l] False have "rs \<noteq> []" by auto
  with outbox_Write_Inr [OF rs(2)] have
    w: "w_db s' = (w_db s)\<lparr>outbox := outbox (w_db s) @ ?new, outbox_next := outbox_next (w_db s) + int (length rs)\<rparr>"
       "w_ext s' = w_ext s" "w_tx s' = w_tx s"
    by (simp_all add: sql_WriteOutbox_def)
  have "list_all2 (pay_announces (ye_C E) row) (pay_events p) ?new"
    using l by (auto simp: list_all2_conv_all_nth nth_enumerate_eq intro: pay_record_announces [OF C])
  from that [OF w(1) this w(2,3)] show ?thesis .
qed

lemma pay_announced_filter:
  assumes "list_all2 (pay_announces C row) es news"
  shows "filter (\<lambda>b. ob_AggregateID b = pid) news = (if pid = yr_ID row then news else [])"
proof -
  from assms have "\<forall>b \<in> set news. ob_AggregateID b = yr_ID row"
    by (auto simp: pay_announces_def list_all2_conv_all_nth in_set_conv_nth)
  then show ?thesis by (auto simp: filter_id_conv filter_empty_conv)
qed

lemma sql_CreatePayment_Inr:
  assumes "sql_CreatePayment uid oid usr st a cur m db = (Inr row, db')"
  shows "db' = db\<lparr>payments := payments db @ [row]\<rparr>" "known_pay_status st" "0 < a"
    "row = \<lparr>yr_ID = uid, yr_OrderID = oid, yr_UserID = usr, yr_Status = st, yr_AmountMinor = a,
      yr_AmountCurrency = cur, yr_Method = m, yr_ProviderReference = [], yr_FailureReason = [],
      yr_CreatedAt = db_now db, yr_UpdatedAt = db_now db, yr_Version = 1\<rparr>"
    "uid \<notin> yr_ID ` set (payments db)" "st = ''failed'' \<or> oid \<notin> yr_OrderID ` set (unresolved (payments db))"
  using assms
  by (auto simp: sql_CreatePayment_def Let_def unresolved_elsewhere_def unresolved_def list_ex_iff split: if_splits)

definition settled_row :: "gotime \<Rightarrow> Payment \<Rightarrow> pay_row \<Rightarrow> pay_row" where
  "settled_row t p r = r\<lparr>yr_Status := pay_status_text (pay_status p), yr_ProviderReference := pay_reference p,
     yr_FailureReason := pay_reason p, yr_UpdatedAt := t, yr_Version := yr_Version r + 1\<rparr>"

lemma settled_row_simps [simp]:
  "yr_ID (settled_row t p r) = yr_ID r" "yr_OrderID (settled_row t p r) = yr_OrderID r"
  "yr_UserID (settled_row t p r) = yr_UserID r" "yr_AmountMinor (settled_row t p r) = yr_AmountMinor r"
  "yr_AmountCurrency (settled_row t p r) = yr_AmountCurrency r" "yr_Method (settled_row t p r) = yr_Method r"
  "yr_CreatedAt (settled_row t p r) = yr_CreatedAt r" "yr_Status (settled_row t p r) = pay_status_text (pay_status p)"
  "yr_ProviderReference (settled_row t p r) = pay_reference p" "yr_FailureReason (settled_row t p r) = pay_reason p"
  "yr_Version (settled_row t p r) = yr_Version r + 1" "yr_UpdatedAt (settled_row t p r) = t"
  by (simp_all add: settled_row_def)

lemma payments_Update_Inr:
  assumes C: "codec_ok (ye_C E)" and d: "distinct (map yr_ID (payments (w_db s)))"
    and run: "payments_Update E p s = (Inr p', s')"
  obtains uid r row a b news k where "uuid_Parse (ye_U E) (pay_id p) = Inr uid"
    "yr_ID r = uid" "yr_Version r = clamp32 (pay_version p)" "payments (w_db s) = a @ r # b"
    "row = settled_row (db_now (w_db s)) p r" "known_pay_status (yr_Status row)" "int4 (yr_Version row)"
    "yr_Status row = ''failed'' \<or> \<not> unresolved_elsewhere uid (yr_OrderID r) (w_db s)"
    "list_all2 (pay_announces (ye_C E) row) (pay_events p) news" "p' = pay_toDomain row"
    "w_db s' = (w_db s)\<lparr>payments := a @ row # b, outbox := outbox (w_db s) @ news, outbox_next := k\<rparr>"
    "w_ext s' = w_ext s" "w_tx s' = w_tx s"
proof -
  let ?v = "clamp32 (pay_version p)"
  from run obtain uid row s1 where 1: "uuid_Parse (ye_U E) (pay_id p) = Inr uid"
      "sql (sql_SettlePayment uid ?v (pay_status_text (pay_status p)) (pay_reference p) (pay_reason p)) s = (Inr row, s1)"
      "pay_writeEvents E p row s1 = (Inr (), s')" "p' = pay_toDomain row"
    by (auto simp: payments_Update_def pay_Snapshot_def Let_def op_inv split: if_splits)
  from sql_success [OF 1(2)] have u:
      "sql_SettlePayment uid ?v (pay_status_text (pay_status p)) (pay_reference p) (pay_reason p) (w_db s) = (Inr row, w_db s1)"
      "w_ext s1 = w_ext s" "w_tx s1 = w_tx s" by auto
  let ?P = "\<lambda>r. yr_ID r = uid \<and> yr_Version r = ?v"
  let ?f = "\<lambda>r. if \<not> int4 (yr_Version r + 1) then Inl out_of_range
             else if \<not> known_pay_status (pay_status_text (pay_status p)) then Inl (check_violation ''payments_status_check'')
             else if pay_status_text (pay_status p) \<noteq> ''failed'' \<and> unresolved_elsewhere uid (yr_OrderID r) (w_db s)
             then Inl (unique_violation unresolvedConstraint)
             else Inr (settled_row (db_now (w_db s)) p r)"
  from u(1) obtain t where t: "update_one ?P ?f (payments (w_db s)) = Inr (row, t)"
      "w_db s1 = (w_db s)\<lparr>payments := t\<rparr>"
    unfolding sql_SettlePayment_def settled_row_def by (auto split: sum.splits prod.splits)
  have one: "one_row yr_ID ?P (payments (w_db s))" by (rule one_rowI [OF d, where v = uid]) simp
  from update_one_split [OF one t(1)] obtain r a b where v: "?P r" "?f r = Inr row"
      "payments (w_db s) = a @ r # b" "t = a @ row # b" by blast
  from v(2) have f: "int4 (yr_Version r + 1)" "known_pay_status (pay_status_text (pay_status p))"
      "row = settled_row (db_now (w_db s)) p r"
      "pay_status_text (pay_status p) = ''failed'' \<or> \<not> unresolved_elsewhere uid (yr_OrderID r) (w_db s)"
    by (auto split: if_splits)
  from pay_writeEvents_Inr [OF C 1(3)] obtain news k where n:
      "w_db s' = (w_db s1)\<lparr>outbox := outbox (w_db s1) @ news, outbox_next := k\<rparr>"
      "list_all2 (pay_announces (ye_C E) row) (pay_events p) news" "w_ext s' = w_ext s1" "w_tx s' = w_tx s1" by blast
  have db: "w_db s' = (w_db s)\<lparr>payments := a @ row # b, outbox := outbox (w_db s) @ news, outbox_next := k\<rparr>"
    using n(1) t(2) v(4) by simp
  show ?thesis
    by (rule that [OF 1(1) _ _ v(3) f(3) _ _ _ n(2) 1(4) db]) (use v(1) f u n(3,4) in simp_all)
qed

subsection \<open>Settling keeps the books\<close>

lemma loaded_payment [simp]:
  "pay_id (pay_toDomain r) = yr_ID r" "pay_orderID (pay_toDomain r) = yr_OrderID r"
  "pay_userID (pay_toDomain r) = yr_UserID r" "pay_status (pay_toDomain r) = PaymentStatus_of (yr_Status r)"
  "pay_amount (pay_toDomain r) = \<lparr>amountMinor = yr_AmountMinor r, currency = yr_AmountCurrency r\<rparr>"
  "pay_method (pay_toDomain r) = yr_Method r" "pay_reference (pay_toDomain r) = yr_ProviderReference r"
  "pay_reason (pay_toDomain r) = yr_FailureReason r" "pay_version (pay_toDomain r) = yr_Version r"
  "pay_createdAt (pay_toDomain r) = yr_CreatedAt r" "pay_updatedAt (pay_toDomain r) = yr_UpdatedAt r"
  "pay_events (pay_toDomain r) = []"
  by (simp_all add: pay_toDomain_def ReconstitutePayment_def)

lemma PaymentStatus_text [simp]:
  "PaymentStatus_of s = PayPending \<longleftrightarrow> s = ''pending''" "PaymentStatus_of s = PaySucceeded \<longleftrightarrow> s = ''succeeded''"
  "PaymentStatus_of s = PayFailed \<longleftrightarrow> s = ''failed''"
  by (auto simp: PaymentStatus_of_def)

lemma pay_row_sound: "pay_row_ok U C db r \<Longrightarrow> pay_sound (pay_toDomain r)"
  by (auto simp: pay_row_ok_def pay_sound_def known_pay_status_def)

lemma pay_says_same:
  assumes "yr_ID r' = yr_ID r" "yr_OrderID r' = yr_OrderID r" "yr_UserID r' = yr_UserID r"
    "yr_AmountMinor r' = yr_AmountMinor r" "yr_AmountCurrency r' = yr_AmountCurrency r"
    "name = ''PaymentSucceeded'' \<Longrightarrow> yr_ProviderReference r' = yr_ProviderReference r"
    "name = ''PaymentFailed'' \<Longrightarrow> yr_FailureReason r' = yr_FailureReason r"
  shows "pay_says C r' name = pay_says C r name"
proof -
  have "pay_about r' name q = pay_about r name q" for q
    using assms by (cases "name = ''PaymentSucceeded''"; cases "name = ''PaymentFailed''")
      (simp_all add: pay_about_def split: option.splits pb_event.splits)
  with assms(1) show ?thesis by (intro ext) (simp add: pay_says_def)
qed

lemma pay_story_names: "list_all2 (pay_says C r') (pay_story st) bs = list_all2 (pay_says C r) (pay_story st) bs"
  if "st = ''succeeded'' \<Longrightarrow> pay_says C r' ''PaymentSucceeded'' = pay_says C r ''PaymentSucceeded''"
    "st = ''failed'' \<Longrightarrow> pay_says C r' ''PaymentFailed'' = pay_says C r ''PaymentFailed''"
  using that unfolding pay_story_def list_all2_Cons1 by (auto simp: list_all2_Cons1)

text \<open>What an answer makes of the row it is applied to.\<close>

lemma applied_row:
  assumes ap: "pay_apply res (pay_toDomain r) = Inr (moved, p)" and ok: "pay_row_ok U C db r"
  shows "pay_id p = yr_ID r" "pay_version p = yr_Version r" "pay_sound p" "pay_orderID p = yr_OrderID r"
    "pay_userID p = yr_UserID r" "pay_amount p = \<lparr>amountMinor = yr_AmountMinor r, currency = yr_AmountCurrency r\<rparr>"
    "attempt_moves r (settled_row t p r)"
    "yr_Status r \<noteq> ''pending'' \<Longrightarrow> pay_events p = [] \<and> pay_status_text (pay_status p) = yr_Status r"
    "yr_Status r = ''pending'' \<Longrightarrow> pay_events p = pay_outcome p"
proof -
  note sound = pay_row_sound [OF ok]
  note st = pay_apply_story [OF ap sound]
  from st have same: "same_payment p (pay_toDomain r)" by blast
  then show "pay_id p = yr_ID r" "pay_version p = yr_Version r" "pay_orderID p = yr_OrderID r"
    "pay_userID p = yr_UserID r" "pay_amount p = \<lparr>amountMinor = yr_AmountMinor r, currency = yr_AmountCurrency r\<rparr>"
    by (simp_all add: same_payment_def)
  show "pay_sound p" using payment.stays [OF sound ap] .
  from st show "yr_Status r \<noteq> ''pending'' \<Longrightarrow> pay_events p = [] \<and> pay_status_text (pay_status p) = yr_Status r"
    by simp
  from st show "yr_Status r = ''pending'' \<Longrightarrow> pay_events p = pay_outcome p" by simp
  from st show "attempt_moves r (settled_row t p r)"
    by (auto simp: attempt_moves_def)
qed

lemma outcome_told:
  assumes news: "list_all2 (pay_announces C row) (pay_outcome p) news" and s: "pay_sound p"
    and p: "row = settled_row t p r" "pay_id p = yr_ID r" "pay_orderID p = yr_OrderID r"
    "pay_userID p = yr_UserID r" "pay_amount p = \<lparr>amountMinor = yr_AmountMinor r, currency = yr_AmountCurrency r\<rparr>"
  shows "list_all2 (pay_says C row) (pay_story (yr_Status row)) news"
proof -
  from s consider "pay_status p = PayPending" | "pay_status p = PaySucceeded" | "pay_status p = PayFailed"
    by (auto simp: pay_sound_def)
  then show ?thesis
    using news p
    by cases (auto simp: pay_story_def list_all2_Cons1 pay_announces_def pay_says_def pay_about_def pay_money_def)
qed

lemma settle_row_keeps:
  assumes ok: "pay_ok U C db" and t: "payments db = a @ r # b"
    and ap: "pay_apply res (pay_toDomain r) = Inr (moved, p)" and row: "row = settled_row now p r"
    and v: "int4 (yr_Version row)"
    and one: "yr_Status row = ''failed'' \<or> \<not> unresolved_elsewhere (yr_ID r) (yr_OrderID r) db"
    and news: "list_all2 (pay_announces C row) (pay_events p) news"
    and db': "db' = db\<lparr>payments := a @ row # b, outbox := outbox db @ news, outbox_next := k\<rparr>"
  shows "pay_ok U C db' \<and> pay_evolves db db'"
proof -
  from ok have ro: "pay_rows_ok U C db" and ks: "pay_keys_ok db" by (auto simp: pay_ok_def)
  have rok: "pay_row_ok U C db r" using ro by (simp add: pay_rows_ok_def t)
  note p = applied_row [OF ap rok]
  from ro have d: "distinct (map yr_ID (a @ r # b))" by (simp add: pay_rows_ok_def t)
  have ids: "map yr_ID (payments db') = map yr_ID (payments db)" by (simp add: db' t row)
  then have idset: "yr_ID ` set (payments db') = yr_ID ` set (payments db)" by (metis set_map)
  have about: "about_payment db' i = about_payment db i @ (if i = yr_ID r then news else [])" for i
    using pay_announced_filter [OF news] by (simp add: about_payment_def db' row)
  have told: "pay_told C db' row"
  proof (cases "yr_Status r = ''pending''")
    case True
    with rok have "about_payment db (yr_ID r) = []" by (simp add: pay_row_ok_def pay_told_def pay_story_def)
    moreover have "list_all2 (pay_says C row) (pay_story (yr_Status row)) news"
      using outcome_told [OF _ p(3) row p(1,4,5,6)] news p(9) [OF True] by simp
    ultimately show ?thesis by (simp add: pay_told_def about row)
  next
    case False
    with p(8) news have n: "news = []" "yr_Status row = yr_Status r" by (auto simp: row)
    from rok have old: "list_all2 (pay_says C r) (pay_story (yr_Status r)) (about_payment db (yr_ID r))"
      by (simp add: pay_row_ok_def pay_told_def)
    have m: "attempt_moves r row" unfolding row by (rule p(7))
    have "list_all2 (pay_says C row) (pay_story (yr_Status r)) (about_payment db (yr_ID r))"
    proof (subst pay_story_names [where r = r])
      show "yr_Status r = ''succeeded'' \<Longrightarrow> pay_says C row ''PaymentSucceeded'' = pay_says C r ''PaymentSucceeded''"
        using m rok by (intro pay_says_same) (auto simp: attempt_moves_def pay_row_ok_def)
      show "yr_Status r = ''failed'' \<Longrightarrow> pay_says C row ''PaymentFailed'' = pay_says C r ''PaymentFailed''"
        using m by (intro pay_says_same) (auto simp: attempt_moves_def)
    qed (rule old)
    then show ?thesis using n by (simp add: pay_told_def about row)
  qed
  have other: "pay_row_ok U C db' x = pay_row_ok U C db x" if "x \<in> set a \<union> set b" for x
  proof -
    from d have "yr_ID r \<notin> yr_ID ` (set a \<union> set b)" by auto
    with that have "yr_ID x \<noteq> yr_ID r" by (metis image_eqI)
    then show ?thesis by (simp add: pay_row_ok_def pay_told_def about)
  qed
  have "pay_row_ok U C db' row"
    using rok told v p(3) by (auto simp: pay_row_ok_def row pay_sound_def known_pay_status_def)
  then have rows: "\<forall>x \<in> set (payments db'). pay_row_ok U C db' x"
    using ro other by (auto simp: db' t pay_rows_ok_def)
  have "distinct (map yr_OrderID (unresolved (payments db')))"
  proof (cases "yr_Status row = ''failed''")
    case True
    then have "unresolved (payments db') = unresolved a @ unresolved b" by (simp add: db' unresolved_def)
    moreover from ro have "distinct (map yr_OrderID (unresolved (a @ r # b)))" by (simp add: pay_rows_ok_def t)
    ultimately show ?thesis by (auto simp: unresolved_def split: if_splits)
  next
    case False
    have "yr_ID x \<noteq> yr_ID r" if "x \<in> set a \<union> set b" for x
      using d that by (auto simp: image_iff)
    with False one have no: "yr_OrderID r \<notin> yr_OrderID ` set (unresolved a @ unresolved b)"
      by (fastforce simp: unresolved_elsewhere_def unresolved_def list_ex_iff t)
    from ro have "distinct (map yr_OrderID (unresolved a @ unresolved b))"
      by (auto simp: pay_rows_ok_def t unresolved_def split: if_splits)
    then show ?thesis using no False by (simp add: db' unresolved_def row) blast
  qed
  moreover have "\<forall>x \<in> set (outbox db'). ob_AggregateID x \<in> yr_ID ` set (payments db')"
  proof -
    from news have "\<forall>x \<in> set news. ob_AggregateID x = yr_ID r"
      by (auto simp: pay_announces_def list_all2_conv_all_nth in_set_conv_nth row)
    with ro show ?thesis unfolding idset by (auto simp: db' pay_rows_ok_def t)
  qed
  ultimately have "pay_rows_ok U C db'" using ro rows by (simp add: pay_rows_ok_def ids)
  moreover have "pay_keys_ok db'"
    using ks unfolding pay_keys_ok_def by (auto simp: db' t row)
  moreover have "pay_evolves db db'"
    using p(7) [of now] by (auto simp: pay_evolves_def db' t row intro: grows_replace)
  ultimately show ?thesis by (simp add: pay_ok_def)
qed

subsection \<open>Reading and claiming\<close>

lemma pay_reading:
  "snd (sql_GetPayment uid d) = d" "snd (sql_GetPaymentForUpdate uid d) = d"
  "snd (sql_GetPaymentsByOrderIDs ids d) = d" "snd (pay_sql_GetIdempotencyKey u k d) = d"
  by (simp_all add: sql_GetPayment_def sql_GetPaymentForUpdate_def sql_GetPaymentsByOrderIDs_def
      pay_sql_GetIdempotencyKey_def split: option.splits)

lemma payments_Find_Inr:
  assumes "payments_FindByID U pid s = (Inr p, s') \<or> payments_FindByIDForUpdate U pid s = (Inr p, s')"
  obtains uid r where "uuid_Parse U pid = Inr uid" "List.find (\<lambda>r. yr_ID r = uid) (payments (w_db s)) = Some r"
    "r \<in> set (payments (w_db s))" "yr_ID r = uid" "p = pay_toDomain r"
    "w_db s' = w_db s" "w_ext s' = w_ext s" "w_tx s' = w_tx s"
proof -
  from assms obtain uid r q where 1: "uuid_Parse U pid = Inr uid"
      "sql q s = (Inr r, s')" "q = sql_GetPayment uid \<or> q = sql_GetPaymentForUpdate uid" "p = pay_toDomain r"
    by (auto simp: payments_FindByID_def payments_FindByIDForUpdate_def op_inv split: if_splits)
  from sql_success [OF 1(2)] 1(3) have f: "List.find (\<lambda>r. yr_ID r = uid) (payments (w_db s)) = Some r"
      "w_db s' = w_db s" "w_ext s' = w_ext s" "w_tx s' = w_tx s"
    by (auto simp: sql_GetPayment_def sql_GetPaymentForUpdate_def split: option.splits)
  with that [OF 1(1) f(1)] find_key_Some [OF f(1)] 1(4) show ?thesis by blast
qed

lemma pay_Claim_taken:
  assumes "pay_idem_Claim U u key h pid s = (Inr (c, True), s')"
  obtains user p where "uuid_Parse U u = Inr user" "uuid_Parse U pid = Inr p"
      "(user, key) \<notin> (\<lambda>k. (yk_UserID k, yk_Key k)) ` set (pay_keys (w_db s))"
      "w_db s' = (w_db s)\<lparr>pay_keys := pay_keys (w_db s) @
         [\<lparr>yk_UserID = user, yk_Key = key, yk_RequestHash = h, yk_PaymentID = p, yk_CreatedAt = db_now (w_db s)\<rparr>]\<rparr>"
      "w_ext s' = w_ext s" "w_tx s' = w_tx s"
proof -
  from assms obtain user p k where 1: "uuid_Parse U u = Inr user" "uuid_Parse U pid = Inr p"
      "sql (pay_sql_ClaimIdempotencyKey user key h p) s = (Inr k, s')"
    by (auto simp: pay_idem_Claim_def op_inv split: if_splits)
  from sql_success [OF 1(3)] have k: "pay_sql_ClaimIdempotencyKey user key h p (w_db s) = (Inr k, w_db s')"
      "w_ext s' = w_ext s" "w_tx s' = w_tx s" by auto
  show ?thesis
    by (rule that [OF 1(1,2) _ _ k(2,3)])
      (use k(1) in \<open>auto simp: pay_sql_ClaimIdempotencyKey_def Let_def split: if_splits\<close>)
qed

subsection \<open>The transactions\<close>

lemma settle_tx_good:
  assumes C: "codec_ok (ye_C E)" and U: "uuid_ok (ye_U E)" and ok: "pay_ok (ye_U E) (ye_C E) (w_db s)"
    and run: "settle_tx E pid res s = (Inr p', s')"
  shows "pay_good E (w_db s) (w_db s') \<and> w_ext s' = w_ext s"
proof -
  from run obtain p s1 moved q where 1: "payments_FindByIDForUpdate (ye_U E) pid s = (Inr p, s1)"
      "pay_apply res p = Inr (moved, q)" "(if \<not> moved then ret q else payments_Update E q) s1 = (Inr p', s')"
    by (auto simp: settle_tx_def andThen_Inr pure_op_simps)
  from payments_Find_Inr [OF disjI2 [OF 1(1)]] obtain r where r: "r \<in> set (payments (w_db s))"
      "p = pay_toDomain r" "w_db s1 = w_db s" "w_ext s1 = w_ext s" by blast
  show ?thesis
  proof (cases moved)
    case False
    with 1(3) r ok show ?thesis by (simp add: op_inv pay_goodI)
  next
    case True
    with 1(3) have u: "payments_Update E q s1 = (Inr p', s')" by simp
    from ok have d: "distinct (map yr_ID (payments (w_db s1)))" by (simp add: r pay_ok_def pay_rows_ok_def)
    from ok r(1) have rok: "pay_row_ok (ye_U E) (ye_C E) (w_db s) r" by (auto simp: pay_ok_def pay_rows_ok_def)
    note ap = 1(2) [unfolded r(2) True]
    note a = applied_row [OF ap rok]
    have cv: "clamp32 (yr_Version r) = yr_Version r" "uuid_Parse (ye_U E) (yr_ID r) = Inr (yr_ID r)"
      using rok by (simp_all add: pay_row_ok_def int4_def)
    obtain uid r1 row x y news k where v:
      "uuid_Parse (ye_U E) (pay_id q) = Inr uid" "yr_ID r1 = uid" "payments (w_db s1) = x @ r1 # y"
      "row = settled_row (db_now (w_db s1)) q r1" "int4 (yr_Version row)"
      "yr_Status row = ''failed'' \<or> \<not> unresolved_elsewhere uid (yr_OrderID r1) (w_db s1)"
      "list_all2 (pay_announces (ye_C E) row) (pay_events q) news"
      "w_db s' = (w_db s1)\<lparr>payments := x @ row # y, outbox := outbox (w_db s1) @ news, outbox_next := k\<rparr>"
      "w_ext s' = w_ext s1"
      by (rule payments_Update_Inr [OF C d u]) (rule that; assumption)
    from v(1) a(1) cv have uid: "uid = yr_ID r" by simp
    from v(3) have "r1 \<in> set (payments (w_db s1))" by simp
    with d r v(2) uid have r1: "r1 = r" by (metis distinct_map_inj)
    from settle_row_keeps [OF ok _ ap v(4) [unfolded r1] v(5) _ v(7) v(8) [unfolded r(3)]] v(2,3,6,9) r(3,4) r1
    show ?thesis by (simp add: pay_good_def)
  qed
qed

text \<open>The attempt a request stores: its row, its key, and nothing else.\<close>

definition attempt_stored ::
  "gostring \<Rightarrow> gostring \<Rightarrow> gostring \<Rightarrow> Payment \<Rightarrow> pay_db \<Rightarrow> pay_db \<Rightarrow> bool" where
  "attempt_stored userID key hash built db db' \<longleftrightarrow>
     (\<exists>row. payments db' = payments db @ [row] \<and> pay_toDomain row = built\<lparr>pay_createdAt := db_now db, pay_updatedAt := db_now db\<rparr> \<and>
        yr_ID row = pay_id built \<and> yr_OrderID row = pay_orderID built \<and> yr_UserID row = userID \<and>
        yr_AmountMinor row = amountMinor (pay_amount built) \<and> yr_AmountCurrency row = currency (pay_amount built) \<and>
        yr_Method row = pay_method built \<and> yr_Status row = ''pending'' \<and> yr_ProviderReference row = [] \<and>
        pay_id built \<notin> yr_ID ` set (payments db) \<and>
        pay_orderID built \<notin> yr_OrderID ` set (unresolved (payments db)) \<and>
        pay_keys db' = pay_keys db @
          [\<lparr>yk_UserID = userID, yk_Key = key, yk_RequestHash = hash, yk_PaymentID = pay_id built, yk_CreatedAt = db_now db\<rparr>])"

lemma initiate_tx_stores:
  assumes C: "codec_ok (ye_C E)" and ok: "pay_ok (ye_U E) (ye_C E) (w_db s)"
    and built: "NewPayment pid oid uid amount m = Inr built"
    and canon: "uuid_Parse (ye_U E) pid = Inr pid" "uuid_Parse (ye_U E) oid = Inr oid" "uuid_Parse (ye_U E) uid = Inr uid"
    and run: "initiate_tx E uid key hash built s = (Inr p, s')"
  shows "pay_good E (w_db s) (w_db s') \<and> attempt_stored uid key hash built (w_db s) (w_db s') \<and> w_ext s' = w_ext s"
proof -
  note b = NewPayment_Inr [OF built]
  from run obtain c taken s1 where 1: "pay_idem_Claim (ye_U E) uid key hash (pay_id built) s = (Inr (c, taken), s1)"
      "(if \<not> taken then if yc_RequestHash c \<noteq> hash then fail pay_errKeyReused else fail (pay_errReplay (yc_PaymentID c))
        else payments_Create E built) s1 = (Inr p, s')"
    by (auto simp: initiate_tx_def andThen_Inr)
  from 1(2) have taken: "taken" by (auto simp: fail_simps split: if_splits)
  let ?k = "\<lparr>yk_UserID = uid, yk_Key = key, yk_RequestHash = hash, yk_PaymentID = pid, yk_CreatedAt = db_now (w_db s)\<rparr>"
  from 1(1) taken have "pay_idem_Claim (ye_U E) uid key hash pid s = (Inr (c, True), s1)" by (simp add: b(1))
  then have cl: "(uid, key) \<notin> (\<lambda>k. (yk_UserID k, yk_Key k)) ` set (pay_keys (w_db s))"
      "w_db s1 = (w_db s)\<lparr>pay_keys := pay_keys (w_db s) @ [?k]\<rparr>" "w_ext s1 = w_ext s"
    using canon by (auto elim!: pay_Claim_taken)
  from 1(2) taken obtain row s2 where r: "sql (sql_CreatePayment pid oid uid ''pending'' (amountMinor amount) (currency amount) m) s1 = (Inr row, s2)"
      "pay_writeEvents E built row s2 = (Inr (), s')"
    using canon b
    by (auto simp: payments_Create_def pay_Snapshot_def Let_def op_inv split: if_splits)
  from sql_success [OF r(1)] have q: "sql_CreatePayment pid oid uid ''pending'' (amountMinor amount) (currency amount) m (w_db s1) = (Inr row, w_db s2)"
      "w_ext s2 = w_ext s1" by auto
  note row = sql_CreatePayment_Inr [OF q(1)]
  from r(2) b(10) have s': "w_db s' = w_db s2" "w_ext s' = w_ext s2"
    by (auto simp: pay_writeEvents_def pay_PullEvents_def op_inv)
  have db: "w_db s' = (w_db s)\<lparr>payments := payments (w_db s) @ [row], pay_keys := pay_keys (w_db s) @ [?k]\<rparr>"
    by (simp add: s' row(1) cl(2))
  have new: "pid \<notin> yr_ID ` set (payments (w_db s))" "oid \<notin> yr_OrderID ` set (unresolved (payments (w_db s)))"
    using row(5,6) by (simp_all add: cl(2))
  from ok have ro: "pay_rows_ok (ye_U E) (ye_C E) (w_db s)" and ks: "pay_keys_ok (w_db s)" by (auto simp: pay_ok_def)
  from ro new(1) have nob: "about_payment (w_db s) pid = []"
    by (auto simp: about_payment_def filter_empty_conv pay_rows_ok_def)
  have same: "pay_row_ok U C' (w_db s') = pay_row_ok U C' (w_db s)" for U C'
    by (intro ext) (simp add: pay_row_ok_def pay_told_def about_payment_def db)
  have "pay_row_ok (ye_U E) (ye_C E) (w_db s) row"
    using canon row(2,3) nob unfolding row(4)
    by (simp add: pay_row_ok_def pay_told_def pay_story_def int4_def MaxInt32_def)
  then have "pay_rows_ok (ye_U E) (ye_C E) (w_db s')"
    using ro new unfolding pay_rows_ok_def same by (auto simp: db row(4) unresolved_def)
  moreover have "pay_keys_ok (w_db s')"
    using ks cl(1) unfolding pay_keys_ok_def by (auto simp: db row(4))
  moreover have "pay_evolves (w_db s) (w_db s')" by (simp add: pay_evolves_def db grows_append)
  moreover have "attempt_stored uid key hash built (w_db s) (w_db s')"
    unfolding attempt_stored_def
    by (rule exI [of _ row]) (use b new in \<open>simp add: db row(4) cl(2) pay_toDomain_def ReconstitutePayment_def PaymentStatus_of_def\<close>)
  ultimately show ?thesis by (simp add: pay_good_def pay_ok_def s' q(2) cl(3))
qed

end
