(* ===== verification/Triples.thy ===== *)
theory Triples
  imports World
begin

text \<open>
  What an operation guarantees, stated as a precondition on the world and a postcondition on the
  result and the world it leaves, with one rule per way of composing operations.
\<close>

definition triple ::
  "(('d, 'w) world \<Rightarrow> bool) \<Rightarrow> ('d, 'w, 'a) op \<Rightarrow> (err + 'a \<Rightarrow> ('d, 'w) world \<Rightarrow> bool) \<Rightarrow> bool" where
  "triple P m Q \<longleftrightarrow> (\<forall>s r s'. P s \<longrightarrow> m s = (r, s') \<longrightarrow> Q r s')"

named_theorems triples \<open>composition of triples\<close>

lemma tripleI: "(\<And>s r s'. P s \<Longrightarrow> m s = (r, s') \<Longrightarrow> Q r s') \<Longrightarrow> triple P m Q"
  by (simp add: triple_def)

lemma tripleD: "triple P m Q \<Longrightarrow> P s \<Longrightarrow> m s = (r, s') \<Longrightarrow> Q r s'"
  by (simp add: triple_def)

lemma triple_run: "triple P m Q \<Longrightarrow> P s \<Longrightarrow> Q (fst (m s)) (snd (m s))"
  by (cases "m s") (auto dest: tripleD)

lemma triple_post: "triple P m Q \<Longrightarrow> (\<And>r s. Q r s \<Longrightarrow> Q' r s) \<Longrightarrow> triple P m Q'"
  by (simp add: triple_def)

lemma triple_pre: "triple P m Q \<Longrightarrow> (\<And>s. P' s \<Longrightarrow> P s) \<Longrightarrow> triple P' m Q"
  unfolding triple_def by blast

lemma triple_bind: "triple P m Q \<Longrightarrow> (\<And>r. triple (Q r) (k r) R) \<Longrightarrow> triple P (withResult m k) R"
  unfolding triple_def withResult_eq by metis

text \<open>An invariant on the world, whatever the results.\<close>

lemma triple_basic [triples]:
  "triple I (ret x) (\<lambda>_. I)" "triple I (fail e) (\<lambda>_. I)" "triple I (pure_op r) (\<lambda>_. I)"
  by (auto simp: triple_def op_inv)

lemma triple_withResult [triples]:
  "triple I m (\<lambda>_. I) \<Longrightarrow> (\<And>r. triple I (k r) (\<lambda>_. I)) \<Longrightarrow> triple I (withResult m k) (\<lambda>_. I)"
  by (rule triple_bind)

lemma triple_cases [triples]:
  "(\<And>e. triple I (f e) (\<lambda>_. I)) \<Longrightarrow> (\<And>x. triple I (g x) (\<lambda>_. I)) \<Longrightarrow>
     triple I (case r of Inl e \<Rightarrow> f e | Inr x \<Rightarrow> g x) (\<lambda>_. I)"
  "(\<And>x y. triple I (h x y) (\<lambda>_. I)) \<Longrightarrow> triple I (case p of (x, y) \<Rightarrow> h x y) (\<lambda>_. I)"
  "triple I m (\<lambda>_. I) \<Longrightarrow> (\<And>x. triple I (l x) (\<lambda>_. I)) \<Longrightarrow>
     triple I (case o' of None \<Rightarrow> m | Some x \<Rightarrow> l x) (\<lambda>_. I)"
  "triple I m (\<lambda>_. I) \<Longrightarrow> triple I n (\<lambda>_. I) \<Longrightarrow> triple I (if b then m else n) (\<lambda>_. I)"
  by (simp_all split: sum.splits prod.splits option.splits)

lemma triple_andThen [triples]:
  "triple I m (\<lambda>_. I) \<Longrightarrow> (\<And>x. triple I (f x) (\<lambda>_. I)) \<Longrightarrow> triple I (andThen m f) (\<lambda>_. I)"
  unfolding andThen_def by (intro triples)

lemma triple_checked [triples]:
  "(\<And>x. r = Inr x \<Longrightarrow> triple I (f x) (\<lambda>_. I)) \<Longrightarrow> triple I (andThen (pure_op r) f) (\<lambda>_. I)"
  by (cases r) (auto simp: triple_def pure_then)

lemma triple_mapErr [triples]: "triple I m (\<lambda>_. I) \<Longrightarrow> triple I (mapErr h m) (\<lambda>_. I)"
  unfolding mapErr_def by (intro triples)

text \<open>An operation that touches neither the database, the transaction nor the gateways.\<close>

lemma triple_still:
  assumes "read_only m" and "keeps_tx m" and "quiet m"
    and "\<And>s s'. I s \<Longrightarrow> w_db s' = w_db s \<Longrightarrow> w_ext s' = w_ext s \<Longrightarrow> w_tx s' = w_tx s \<Longrightarrow> I s'"
  shows "triple I m (\<lambda>_. I)"
  using assms unfolding triple_def read_only_def keeps_tx_def quiet_def by blast

text \<open>A transaction whose body calls no gateway.\<close>

lemma triple_Do:
  assumes quiet: "quiet fn" and closed: "\<And>s. P s \<Longrightarrow> \<not> w_tx s"
    and none: "\<And>s s' e. P s \<Longrightarrow> w_db s' = w_db s \<Longrightarrow> w_ext s' = w_ext s \<Longrightarrow> \<not> w_tx s' \<Longrightarrow> Q (Inl e) s'"
    and done1: "\<And>s s1 x s2 s' r. P s \<Longrightarrow> w_db s1 = w_db s \<Longrightarrow> w_ext s1 = w_ext s \<Longrightarrow> fn s1 = (Inr x, s2) \<Longrightarrow>
      w_db s' = w_db s2 \<Longrightarrow> w_ext s' = w_ext s \<Longrightarrow> \<not> w_tx s' \<Longrightarrow> r = Inr x \<or> isl r \<Longrightarrow> Q r s'"
  shows "triple P (Do fn) Q"
proof (rule tripleI)
  fix s r s'
  assume P: "P s" and run: "Do fn s = (r, s')"
  show "Q r s'"
  proof (cases rule: Do_cases [OF run closed [OF P], case_names not_begun undone kept])
    case not_begun
    then obtain e where "r = Inl e" by (cases r) auto
    with none [OF P] not_begun show ?thesis by simp
  next
    case (undone r1 s1 s2)
    then obtain e where "r = Inl e" by (cases r) auto
    with none [OF P] undone quietD [OF quiet undone(1)] show ?thesis by simp
  next
    case (kept x s1 s2)
    with done1 [OF P kept(2,3,1)] quietD [OF quiet kept(1)] show ?thesis by simp
  qed
qed

end
