(* ===== verification/PayRuns.thy ===== *)
theory PayRuns
  imports PayBooks OrdClaims Triples
begin

text \<open>
  Requests to the payment service and what every one of them keeps, whatever the schedule of
  faults: the books of the database together with the books of what the provider was asked.
\<close>

subsection \<open>Requests\<close>

datatype pay_req =
  PayInitiate gostring InitiatePaymentCommand
| PayGet gostring gostring
| PayGetMany "gostring list" gostring
| PayCallback gostring gostring

record 'w pay_app =
  ya_E :: pay_env
  ya_G :: "'w order_client"
  ya_P :: "(pay_db, 'w) provider_port"
  ya_H :: "gostring \<Rightarrow> gostring"

fun pay_exec :: "'w pay_app \<Rightarrow> pay_req \<Rightarrow> (pay_db, 'w) world \<Rightarrow> (pay_db, 'w) world" where
  "pay_exec A (PayInitiate new_id cmd) s = snd (pay_InitiatePayment (ya_E A) (ya_G A) (ya_P A) (ya_H A) new_id cmd s)"
| "pay_exec A (PayGet pid uid) s = snd (pay_GetPayment (ye_U (ya_E A)) pid uid s)"
| "pay_exec A (PayGetMany ids uid) s = snd (pay_GetPaymentsByOrderIDs (ye_U (ya_E A)) ids uid s)"
| "pay_exec A (PayCallback payload sig) s = snd (pay_HandleProviderCallback (ya_E A) (ya_P A) payload sig s)"

fun pay_minted :: "uuid_lib \<Rightarrow> pay_req \<Rightarrow> bool" where
  "pay_minted U (PayInitiate new_id cmd) = (uuid_Parse U new_id = Inr new_id)"
| "pay_minted U _ = True"

subsection \<open>What leaves the database, the transaction and the gateways alone\<close>

lemma pay_reads_only:
  "read_only (pay_idem_Find U u k)" "read_only (payments_FindByID U pid)" "read_only (payments_FindByOrderIDs U ids)"
  "read_only (pay_replay U u k h)" "read_only (gw_GetOrder G oid)" "read_only (pay_GetPayment U pid uid)"
  "read_only (pay_GetPaymentsByOrderIDs U ids uid)"
proof -
  show i: "read_only (pay_idem_Find U u k)"
    unfolding pay_idem_Find_def
    by (auto intro!: read_only_andThen read_only_withResult read_only_sql simp: pay_reading split: sum.splits)
  show f: "read_only (payments_FindByID U pid)" for pid
    unfolding payments_FindByID_def
    by (auto intro!: read_only_andThen read_only_withResult read_only_sql simp: pay_reading split: sum.splits)
  show m: "read_only (payments_FindByOrderIDs U ids)" for ids
    unfolding payments_FindByOrderIDs_def
    by (auto intro!: read_only_andThen read_only_mapErr read_only_sql simp: pay_reading)
  show "read_only (pay_replay U u k h)"
    unfolding pay_replay_def by (auto intro!: read_only_andThen i f split: option.splits)
  show "read_only (gw_GetOrder G oid)"
    unfolding gw_GetOrder_def by (auto intro!: read_only_andThen read_only_rpc)
  show "read_only (pay_GetPayment U pid uid)"
    unfolding pay_GetPayment_def by (auto intro!: read_only_andThen f)
  show "read_only (pay_GetPaymentsByOrderIDs U ids uid)"
    unfolding pay_GetPaymentsByOrderIDs_def by (auto intro!: read_only_andThen m)
qed

lemma keeps_pay_stores [keeps]:
  "keeps_tx (pay_idem_Find U u k)" "keeps_tx (pay_idem_Claim U u k h pid)" "keeps_tx (payments_FindByID U pid)"
  "keeps_tx (payments_FindByIDForUpdate U pid)" "keeps_tx (payments_FindByOrderIDs U ids)"
  "keeps_tx (pay_writeEvents E p row)" "keeps_tx (gw_GetOrder G oid)"
  unfolding pay_idem_Find_def pay_idem_Claim_def payments_FindByID_def payments_FindByIDForUpdate_def
    payments_FindByOrderIDs_def pay_writeEvents_def gw_GetOrder_def Let_def
  by (intro keeps)+

lemma keeps_pay_repos [keeps]:
  "keeps_tx (payments_Create E p)" "keeps_tx (payments_Update E p)" "keeps_tx (pay_replay U u k h)"
  "keeps_tx (pay_GetPayment U pid uid)" "keeps_tx (pay_GetPaymentsByOrderIDs U ids uid)"
  unfolding payments_Create_def payments_Update_def pay_replay_def pay_GetPayment_def
    pay_GetPaymentsByOrderIDs_def Let_def
  by (intro keeps)+

lemma keeps_pay_txs [keeps]:
  "keeps_tx (settle_tx E pid res)" "keeps_tx (initiate_tx E u k h built)" "keeps_tx (pay_settle E pid res)"
  unfolding settle_tx_def initiate_tx_def pay_settle_def by (intro keeps)+

lemma quiet_pay_stores [quiets]:
  "quiet (pay_idem_Find U u k)" "quiet (pay_idem_Claim U u k h pid)" "quiet (payments_FindByID U pid)"
  "quiet (payments_FindByIDForUpdate U pid)" "quiet (payments_FindByOrderIDs U ids)" "quiet (pay_writeEvents E p row)"
  unfolding pay_idem_Find_def pay_idem_Claim_def payments_FindByID_def payments_FindByIDForUpdate_def
    payments_FindByOrderIDs_def pay_writeEvents_def outbox_Write_def Let_def
  by (intro quiets)+

lemma quiet_pay_repos [quiets]:
  "quiet (payments_Create E p)" "quiet (payments_Update E p)" "quiet (pay_replay U u k h)"
  "quiet (pay_GetPayment U pid uid)" "quiet (pay_GetPaymentsByOrderIDs U ids uid)"
  unfolding payments_Create_def payments_Update_def pay_replay_def pay_GetPayment_def
    pay_GetPaymentsByOrderIDs_def Let_def
  by (intro quiets)+

lemma quiet_pay_txs [quiets]:
  "quiet (settle_tx E pid res)" "quiet (initiate_tx E u k h built)" "quiet (pay_settle E pid res)"
  unfolding settle_tx_def initiate_tx_def pay_settle_def by (intro quiets)+

text \<open>The port as the payment service's use cases see it, over its own database.\<close>

locale payment_gateway = provider_gateway P for P :: "(pay_db, 'w) provider_port"
begin

lemma next_action_read_only: "read_only (pay_withNextAction P p)"
  unfolding pay_withNextAction_def
  by (auto intro!: read_only_withResult retrieve_read_only split: sum.splits)

lemma next_action_keeps: "keeps_tx (pay_withNextAction P p)"
  unfolding pay_withNextAction_def by (intro keeps retrieve_keeps)

lemma finish_keeps: "keeps_tx (initiate_finish E P built r)"
  unfolding initiate_finish_def charge_and_settle_def by (intro keeps charge_keeps next_action_keeps)

lemma body_keeps: "keeps_tx (initiate_body E G P pid uid oid m key hash)"
  unfolding initiate_body_def initiate_fresh_def by (intro keeps next_action_keeps finish_keeps)

lemma exec_keeps: "keeps_tx (pay_InitiatePayment E G P H new_id cmd)"
    "keeps_tx (pay_HandleProviderCallback E P payload sig)"
  unfolding pay_InitiatePayment_def pay_HandleProviderCallback_def by (intro keeps body_keeps)+

end

interpretation pg: payment_gateway "pv_port U L g srv" ..

definition pay_app_ok :: "'w pay_app \<Rightarrow> bool" where
  "pay_app_ok A \<longleftrightarrow> uuid_ok (ye_U (ya_E A)) \<and> codec_ok (ye_C (ya_E A)) \<and> payment_gateway (ya_P A)"

lemma pay_exec_tx:
  assumes "pay_app_ok A"
  shows "w_tx (pay_exec A req s) = w_tx s"
proof -
  from assms have g: "payment_gateway (ya_P A)" by (simp add: pay_app_ok_def)
  show ?thesis
    by (cases req) (auto intro!: keeps_txD keeps payment_gateway.exec_keeps [OF g])
qed

subsection \<open>The books of the database with the books of what was asked of the provider\<close>

definition charge_of :: "Payment \<Rightarrow> ChargeCommand" where
  "charge_of p = \<lparr>cg_PaymentID = pay_id p, cg_OrderID = pay_orderID p, cg_Amount = pay_amount p, cg_Method = pay_method p\<rparr>"

locale asking = payment_gateway P for P :: "(pay_db, 'w) provider_port" +
  fixes G :: "'w order_client" and asked :: "pay_db \<Rightarrow> 'w \<Rightarrow> bool"
  assumes order_asks: "asked db w \<Longrightarrow> asked db (snd (G oid w))"
    and retrieve_asks: "asked (w_db s) (w_ext s) \<Longrightarrow> pp_Retrieve P ref s = (r, s') \<Longrightarrow> asked (w_db s) (w_ext s')"
    and asked_grows: "asked db w \<Longrightarrow> pay_evolves db db' \<Longrightarrow> asked db' w"
    and charge_asks: "asked db (w_ext s) \<Longrightarrow> attempt_stored uid key hash built db (w_db s) \<Longrightarrow>
      pp_Charge P (charge_of built) s = (r, s') \<Longrightarrow> asked (w_db s) (w_ext s')"
begin

definition kept :: "pay_env \<Rightarrow> pay_db \<Rightarrow> (pay_db, 'w) world \<Rightarrow> bool" where
  "kept E db0 s \<longleftrightarrow> pay_ok (ye_U E) (ye_C E) (w_db s) \<and> pay_evolves db0 (w_db s) \<and>
     asked (w_db s) (w_ext s) \<and> \<not> w_tx s"

lemma kept_moves: "kept E db0 s \<Longrightarrow> pay_good E (w_db s) (w_db s') \<Longrightarrow> asked (w_db s') (w_ext s') \<Longrightarrow> \<not> w_tx s' \<Longrightarrow> kept E db0 s'"
  by (auto simp: kept_def pay_good_def intro: pay_evolves_trans)

lemma kept_same: "kept E db0 s \<Longrightarrow> w_db s' = w_db s \<Longrightarrow> w_ext s' = w_ext s \<Longrightarrow> w_tx s' = w_tx s \<Longrightarrow> kept E db0 s'"
  by (simp add: kept_def)

lemma kept_still: "read_only m \<Longrightarrow> keeps_tx m \<Longrightarrow> quiet m \<Longrightarrow> triple (kept E db0) m (\<lambda>_. kept E db0)"
  by (rule triple_still) (auto intro: kept_same)

lemma kept_reads [triples]:
  "triple (kept E db0) (pay_replay U u k h) (\<lambda>_. kept E db0)"
  "triple (kept E db0) (payments_FindByID U pid) (\<lambda>_. kept E db0)"
  "triple (kept E db0) (pay_GetPayment U pid uid) (\<lambda>_. kept E db0)"
  "triple (kept E db0) (pay_GetPaymentsByOrderIDs U ids uid) (\<lambda>_. kept E db0)"
  by (rule kept_still; intro pay_reads_only keeps quiets)+

lemma kept_retrieve: "triple (kept E db0) (pp_Retrieve P ref) (\<lambda>_. kept E db0)"
proof (rule tripleI)
  fix s r s'
  assume k: "kept E db0 s" and run: "pp_Retrieve P ref s = (r, s')"
  from retrieve_frame [OF run] retrieve_asks [OF _ run] k show "kept E db0 s'" by (auto simp: kept_def)
qed

lemma kept_order: "triple (kept E db0) (gw_GetOrder G oid) (\<lambda>_. kept E db0)"
proof -
  have "triple (kept E db0) (rpc (G oid)) (\<lambda>_. kept E db0)"
  proof (rule tripleI)
    fix s r s'
    assume k: "kept E db0 s" and run: "rpc (G oid) s = (r, s')"
    from rpc_frame [OF run] rpc_ext [OF run] order_asks [of "w_db s" "w_ext s" oid] k
    show "kept E db0 s'" by (auto simp: kept_def)
  qed
  then show ?thesis unfolding gw_GetOrder_def by (intro triples)
qed

lemma kept_settle:
  assumes C: "codec_ok (ye_C E)" and U: "uuid_ok (ye_U E)"
  shows "triple (kept E db0) (pay_settle E pid res) (\<lambda>_. kept E db0)"
  unfolding pay_settle_def
proof (rule triple_Do)
  show "quiet (settle_tx E pid res)" by (rule quiets)
  show "kept E db0 s \<Longrightarrow> \<not> w_tx s" for s by (simp add: kept_def)
  fix s s' :: "(pay_db, 'w) world"
  assume k: "kept E db0 s"
  show "w_db s' = w_db s \<Longrightarrow> w_ext s' = w_ext s \<Longrightarrow> \<not> w_tx s' \<Longrightarrow> kept E db0 s'"
    using k by (simp add: kept_def)
  fix s1 s2 x
  assume "w_db s1 = w_db s" and run: "settle_tx E pid res s1 = (Inr x, s2)"
    and s': "w_db s' = w_db s2" "w_ext s' = w_ext s" "\<not> w_tx s'"
  then have g: "pay_good E (w_db s) (w_db s')"
    using settle_tx_good [OF C U _ run] k by (simp add: kept_def)
  then show "kept E db0 s'"
    using k s' by (intro kept_moves [OF k g]) (auto simp: kept_def pay_good_def intro: asked_grows)
qed

lemma kept_next_action: "triple (kept E db0) (pay_withNextAction P p) (\<lambda>_. kept E db0)"
  unfolding pay_withNextAction_def by (intro triples kept_retrieve)

text \<open>Between the transaction and the charge, the attempt is stored and nobody has been asked for it.\<close>

definition recorded :: "pay_env \<Rightarrow> pay_db \<Rightarrow> Payment \<Rightarrow> (pay_db, 'w) world \<Rightarrow> bool" where
  "recorded E db0 built s \<longleftrightarrow> kept E db0 s \<and>
     (\<exists>db uid key hash. asked db (w_ext s) \<and> attempt_stored uid key hash built db (w_db s))"

lemma charge_kept: "triple (recorded E db0 built) (pp_Charge P (charge_of built)) (\<lambda>_. kept E db0)"
proof (rule tripleI)
  fix s r s'
  assume k: "recorded E db0 built s" and run: "pp_Charge P (charge_of built) s = (r, s')"
  from charge_frame [OF run] charge_asks [OF _ _ run] k show "kept E db0 s'"
    by (auto simp: recorded_def kept_def)
qed

lemma finish_kept:
  assumes "codec_ok (ye_C E)" and "uuid_ok (ye_U E)"
  shows "triple (\<lambda>s. kept E db0 s \<and> (\<not> isl r \<longrightarrow> recorded E db0 built s)) (initiate_finish E P built r) (\<lambda>_. kept E db0)"
proof (cases r)
  case (Inl e)
  then show ?thesis unfolding initiate_finish_def
    by (auto intro!: triples kept_next_action elim: triple_pre split: option.splits)
next
  case (Inr p)
  have "triple (recorded E db0 built) (charge_and_settle E P built) (\<lambda>_. kept E db0)"
    unfolding charge_and_settle_def andThen_def charge_of_def [symmetric]
    by (rule triple_bind [OF charge_kept]) (auto intro!: triples kept_settle assms split: sum.splits)
  with Inr show ?thesis by (simp add: initiate_finish_def triple_pre)
qed

lemma initiate_kept:
  assumes C: "codec_ok (ye_C E)" and U: "uuid_ok (ye_U E)"
    and canon: "uuid_Parse (ye_U E) pid = Inr pid" "uuid_Parse (ye_U E) oid = Inr oid" "uuid_Parse (ye_U E) uid = Inr uid"
  shows "triple (kept E db0) (initiate_body E G P pid uid oid m key hash) (\<lambda>_. kept E db0)"
proof -
  have tx: "triple (kept E db0) (Do (initiate_tx E uid key hash built))
      (\<lambda>r s. kept E db0 s \<and> (\<not> isl r \<longrightarrow> recorded E db0 built s))"
    if built: "NewPayment pid oid uid amount m = Inr built" for built amount
  proof (rule triple_Do)
    show "quiet (initiate_tx E uid key hash built)" by (rule quiets)
    show "kept E db0 s \<Longrightarrow> \<not> w_tx s" for s by (simp add: kept_def)
    fix s s' :: "(pay_db, 'w) world" and e :: err
    assume k: "kept E db0 s"
    show "w_db s' = w_db s \<Longrightarrow> w_ext s' = w_ext s \<Longrightarrow> \<not> w_tx s' \<Longrightarrow>
        kept E db0 s' \<and> (\<not> isl (Inl e) \<longrightarrow> recorded E db0 built s')"
      using k by (simp add: kept_def)
    fix s1 s2 x r
    assume d: "w_db s1 = w_db s" and run: "initiate_tx E uid key hash built s1 = (Inr x, s2)"
      and s': "w_db s' = w_db s2" "w_ext s' = w_ext s" "\<not> w_tx s'"
    from initiate_tx_stores [OF C _ built canon run] k d
    have g: "pay_good E (w_db s) (w_db s')" "attempt_stored uid key hash built (w_db s) (w_db s')"
      by (simp_all add: kept_def s')
    have "kept E db0 s'"
      using k s' g(1) by (intro kept_moves [OF k g(1)]) (auto simp: kept_def pay_good_def intro: asked_grows)
    moreover from k have "asked (w_db s) (w_ext s')" by (simp add: kept_def s')
    ultimately show "kept E db0 s' \<and> (\<not> isl r \<longrightarrow> recorded E db0 built s')"
      using g(2) by (auto simp: recorded_def)
  qed
  have stored: "triple (kept E db0) (withResult (Do (initiate_tx E uid key hash built)) (initiate_finish E P built)) (\<lambda>_. kept E db0)"
    if "NewPayment pid oid uid amount m = Inr built" for built amount
    by (rule triple_bind [OF tx [OF that] finish_kept [OF C U]])
  then show ?thesis unfolding initiate_body_def initiate_fresh_def
    by (intro triple_checked triple_andThen triple_cases triple_basic kept_next_action kept_order kept_reads stored)
qed

lemma exec_kept:
  assumes C: "codec_ok (ye_C E)" and U: "uuid_ok (ye_U E)"
    and A: "A = \<lparr>ya_E = E, ya_G = G, ya_P = P, ya_H = H\<rparr>" and new: "pay_minted (ye_U E) req" and k: "kept E db0 s"
  shows "kept E db0 (pay_exec A req s)"
proof (cases req)
  case (PayInitiate new_id cmd)
  have "triple (kept E db0) (pay_InitiatePayment E G P H new_id cmd) (\<lambda>_. kept E db0)"
    unfolding pay_InitiatePayment_def
    by (intro triples initiate_kept C U) (use PayInitiate new pay_parse_Inr [OF U] in auto)
  from triple_run [OF this k] PayInitiate A show ?thesis by simp
next
  case (PayGet pid uid)
  have "triple (kept E db0) (pay_GetPayment (ye_U E) pid uid) (\<lambda>_. kept E db0)"
    by (rule triples)
  from triple_run [OF this k] PayGet A show ?thesis by simp
next
  case (PayGetMany ids uid)
  have "triple (kept E db0) (pay_GetPaymentsByOrderIDs (ye_U E) ids uid) (\<lambda>_. kept E db0)"
    by (rule triples)
  from triple_run [OF this k] PayGetMany A show ?thesis by simp
next
  case (PayCallback payload sig)
  have "triple (kept E db0) (pay_HandleProviderCallback E P payload sig) (\<lambda>_. kept E db0)"
    unfolding pay_HandleProviderCallback_def by (intro triples kept_settle C U)
  from triple_run [OF this k] PayCallback A show ?thesis by simp
qed

lemma history_kept:
  assumes "codec_ok (ye_C E)" and "uuid_ok (ye_U E)"
    and "A = \<lparr>ya_E = E, ya_G = G, ya_P = P, ya_H = H\<rparr>" and "\<forall>req \<in> set reqs. pay_minted (ye_U E) req" and "kept E db0 s"
  shows "kept E db0 (fold (pay_exec A) reqs s)"
  using assms(4,5) by (induction reqs arbitrary: s) (simp_all add: exec_kept [OF assms(1-3)])

end

subsection \<open>A provider that keeps a log\<close>

text \<open>Any server with the requests that reached it, oldest first, beside its own state; the order
  service works on the rest of the world.\<close>

definition logging :: "'s http_server \<Rightarrow> (http_request list \<times> 's) http_server" where
  "logging srv q w = (case srv q (snd w) of (res, s') \<Rightarrow> (res, (fst w @ [q], s')))"

definition beside :: "'s order_client \<Rightarrow> (http_request list \<times> 's) order_client" where
  "beside G oid w = (case G oid (snd w) of (r, s') \<Rightarrow> (r, (fst w, s')))"

definition posted :: "http_request list \<times> 's \<Rightarrow> gostring option list" where
  "posted w = map hq_Body (filter (\<lambda>q. hq_Method q = POST) (fst w))"

definition asks_for :: "go_lib \<Rightarrow> pay_row \<Rightarrow> gostring option \<Rightarrow> bool" where
  "asks_for L r body \<longleftrightarrow> body = Some (gl_request L
     \<lparr>crq_IdempotencyKey = yr_ID r, crq_Reference = yr_OrderID r, crq_AmountMinor = yr_AmountMinor r,
      crq_Currency = yr_AmountCurrency r, crq_Method = yr_Method r\<rparr>)"

definition backed :: "go_lib \<Rightarrow> pay_db \<Rightarrow> gostring option \<Rightarrow> gostring \<Rightarrow> bool" where
  "backed L db body i \<longleftrightarrow> (\<exists>r \<in> set (payments db). yr_ID r = i \<and> asks_for L r body)"

definition on_record :: "go_lib \<Rightarrow> pay_db \<Rightarrow> http_request list \<times> 's \<Rightarrow> bool" where
  "on_record L db w \<longleftrightarrow> (\<exists>ids. distinct ids \<and> list_all2 (backed L db) (posted w) ids)"

lemma posted_logging: "posted (snd (logging srv q w)) = posted w @ (if hq_Method q = POST then [hq_Body q] else [])"
  by (simp add: posted_def logging_def split: prod.splits)

lemma posted_beside [simp]: "posted (snd (beside G oid w)) = posted w"
  by (simp add: posted_def beside_def split: prod.splits)

lemma then_quiet:
  assumes "withResult m k s = (r, s')" and "\<And>r. quiet (k r)"
  obtains r1 s1 where "m s = (r1, s1)" "w_ext s' = w_ext s1"
  using assms by (auto simp: withResult_eq dest: quietD)

lemma http_posts:
  assumes "http_Do (logging srv) q s = (r, s')"
  shows "posted (w_ext s') = posted (w_ext s) \<or>
    (hq_Method q = POST \<and> posted (w_ext s') = posted (w_ext s) @ [hq_Body q])"
proof -
  from assms obtain r1 s1 where "rpc (http_round (logging srv) q) s = (r1, s1)" "w_ext s' = w_ext s1"
    unfolding http_Do_def mapErr_def by (rule then_quiet) (intro quiets)
  with rpc_ext [OF this(1)] have "w_ext s' = w_ext s \<or> w_ext s' = snd (logging srv q (w_ext s))"
    by (simp add: http_round_def split: prod.splits option.splits)
  then show ?thesis using posted_logging [of srv q "w_ext s"] by (auto split: if_splits)
qed

lemma call_posts:
  assumes "pv_call L g (logging srv) method path body s = (r, s')"
  shows "posted (w_ext s') = posted (w_ext s) \<or>
    (method = POST \<and> posted (w_ext s') = posted (w_ext s) @ [body])"
proof (cases "gl_NewRequest L method (pv_baseURL g @ path)")
  case None
  let ?q = "\<lparr>hq_Method = method, hq_URL = pv_baseURL g @ path, hq_Body = body\<rparr>"
  from assms obtain r1 s1 where "http_Do (logging srv) ?q s = (r1, s1)" "w_ext s' = w_ext s1"
    unfolding pv_call_def Let_def None option.case by (rule then_quiet) (auto intro!: quiets split: sum.splits option.splits)
  with http_posts [of srv ?q s r1 s1] show ?thesis by simp
next
  case (Some e)
  with assms show ?thesis by (simp add: pv_call_def fail_def)
qed

lemma retrieve_posts:
  "pv_Retrieve L g (logging srv) ref s = (r, s') \<Longrightarrow> posted (w_ext s') = posted (w_ext s)"
  by (cases r) (auto simp: pv_Retrieve_def andThen_Inl op_inv dest!: call_posts)

definition charge_body :: "go_lib \<Rightarrow> Payment \<Rightarrow> gostring option" where
  "charge_body L p = Some (gl_request L
     \<lparr>crq_IdempotencyKey = pay_id p, crq_Reference = pay_orderID p, crq_AmountMinor = amountMinor (pay_amount p),
      crq_Currency = currency (pay_amount p), crq_Method = pay_method p\<rparr>)"

lemma charge_posts:
  "pv_Charge L g (logging srv) (charge_of p) s = (r, s') \<Longrightarrow>
   posted (w_ext s') = posted (w_ext s) \<or> posted (w_ext s') = posted (w_ext s) @ [charge_body L p]"
  by (cases r) (auto simp: pv_Charge_def andThen_Inl op_inv charge_of_def charge_body_def dest!: call_posts)

lemma on_record_grows: "on_record L db w \<Longrightarrow> pay_evolves db db' \<Longrightarrow> on_record L db' w"
proof -
  assume rec: "on_record L db w" and ev: "pay_evolves db db'"
  have "backed L db' body i" if b: "backed L db body i" for body i
  proof -
    from b obtain r where r: "r \<in> set (payments db)" "yr_ID r = i" "asks_for L r body" by (auto simp: backed_def)
    from ev have "grows attempt_moves (payments db) (payments db')" by (simp add: pay_evolves_def)
    from grows_row [OF this r(1)] obtain r' where "r' \<in> set (payments db')" "attempt_moves r r'" .
    with r(2,3) show ?thesis unfolding backed_def by (intro bexI [of _ r']) (auto simp: attempt_moves_def asks_for_def)
  qed
  with rec show ?thesis unfolding on_record_def by (blast intro: list_all2_mono)
qed

lemma on_record_charged:
  assumes rec: "on_record L db w" and st: "attempt_stored uid key hash built db db'"
    and post: "posted w' = posted w \<or> posted w' = posted w @ [charge_body L built]"
  shows "on_record L db' w'"
proof -
  from rec obtain ids where ids: "distinct ids" "list_all2 (backed L db) (posted w) ids"
    by (auto simp: on_record_def)
  from st obtain row where row: "payments db' = payments db @ [row]" "yr_ID row = pay_id built"
      "asks_for L row (charge_body L built)" "pay_id built \<notin> yr_ID ` set (payments db)"
    by (auto simp: attempt_stored_def asks_for_def charge_body_def)
  from row(1) have "backed L db body i \<Longrightarrow> backed L db' body i" for body i by (auto simp: backed_def)
  with ids(2) have old: "list_all2 (backed L db') (posted w) ids" by (rule list_all2_mono)
  from row have new: "backed L db' (charge_body L built) (pay_id built)" by (auto simp: backed_def)
  have fresh: "pay_id built \<notin> set ids"
  proof
    assume "pay_id built \<in> set ids"
    then obtain n where "n < length ids" "ids ! n = pay_id built" by (auto simp: in_set_conv_nth)
    with ids(2) have "backed L db (posted w ! n) (pay_id built)" by (auto simp: list_all2_conv_all_nth)
    with row(4) show False unfolding backed_def by (metis image_eqI)
  qed
  from post show ?thesis
  proof
    assume "posted w' = posted w"
    with ids(1) old show ?thesis by (auto simp: on_record_def)
  next
    assume "posted w' = posted w @ [charge_body L built]"
    with old new have "list_all2 (backed L db') (posted w') (ids @ [pay_id built])"
      by (simp add: list_all2_appendI)
    moreover from ids(1) fresh have "distinct (ids @ [pay_id built])" by simp
    ultimately show ?thesis unfolding on_record_def by blast
  qed
qed

interpretation logged: asking "pv_port U L g (logging srv)" "beside G" "on_record L"
proof
  fix db w oid
  show "on_record L db w \<Longrightarrow> on_record L db (snd (beside G oid w))" by (simp add: on_record_def)
next
  fix s ref r s'
  show "on_record L (w_db s) (w_ext s) \<Longrightarrow> pp_Retrieve (pv_port U L g (logging srv)) ref s = (r, s') \<Longrightarrow>
      on_record L (w_db s) (w_ext s')"
    using retrieve_posts [of L g srv ref s r s'] by (simp add: pv_port_def on_record_def)
next
  fix db w db'
  show "on_record L db w \<Longrightarrow> pay_evolves db db' \<Longrightarrow> on_record L db' w" by (rule on_record_grows)
next
  fix db s uid key hash built r s'
  assume rec: "on_record L db (w_ext s)" and st: "attempt_stored uid key hash built db (w_db s)"
    and run: "pp_Charge (pv_port U L g (logging srv)) (charge_of built) s = (r, s')"
  from run have "pv_Charge L g (logging srv) (charge_of built) s = (r, s')" by (simp add: pv_port_def)
  from on_record_charged [OF rec st charge_posts [OF this]] show "on_record L (w_db s) (w_ext s')" .
qed

text \<open>The same proofs for any port, with nothing said about what was asked.\<close>

lemma asking_nothing: "payment_gateway P \<Longrightarrow> asking P G (\<lambda>_ _. True)"
  by (simp add: asking_def asking_axioms_def)

lemma pay_history_good:
  assumes A: "pay_app_ok A" and new: "\<forall>req \<in> set reqs. pay_minted (ye_U (ya_E A)) req"
    and ok: "pay_ok (ye_U (ya_E A)) (ye_C (ya_E A)) (w_db s)" and tx: "\<not> w_tx s"
  shows "pay_good (ya_E A) (w_db s) (w_db (fold (pay_exec A) reqs s))"
proof -
  from A have "payment_gateway (ya_P A)" by (simp add: pay_app_ok_def)
  from asking_nothing [OF this] have a: "asking (ya_P A) (ya_G A) (\<lambda>_ _. True)" .
  have eq: "A = \<lparr>ya_E = ya_E A, ya_G = ya_G A, ya_P = ya_P A, ya_H = ya_H A\<rparr>" by simp
  have "asking.kept (\<lambda>_ _. True) (ya_E A) (w_db s) s"
    using ok tx by (simp add: asking.kept_def [OF a])
  from asking.history_kept [OF a _ _ eq new this] A
  show ?thesis by (simp add: pay_app_ok_def asking.kept_def [OF a] pay_good_def)
qed

end
