(* ===== verification/FakeProvider.thy ===== *)
theory FakeProvider
  imports PayApp
begin

text \<open>
  \<open>services/payment/internal/fakeprovider\<close>: the provider the system runs against, as a state:
  its charges and the webhooks it still owes. A webhook that is due is sent by \<open>fp_deliver\<close>,
  one that is sent inside a call lands in the list of those delivered.
\<close>

datatype Behaviour =
  BehaviourSucceed | BehaviourDecline | BehaviourWebhook | BehaviourDuplicateWebhook
| BehaviourWebhookFirst | BehaviourHang | BehaviourOther int

definition behaviourModulus :: int where "behaviourModulus = 100"

definition Behaviour_of :: "int \<Rightarrow> Behaviour" where
  "Behaviour_of n =
     (if n = 0 then BehaviourSucceed else if n = 1 then BehaviourDecline
      else if n = 2 then BehaviourWebhook else if n = 3 then BehaviourDuplicateWebhook
      else if n = 4 then BehaviourWebhookFirst else if n = 5 then BehaviourHang else BehaviourOther n)"

record fp_charge =
  fc_ID :: gostring
  fc_Status :: gostring
  fc_FailureReason :: gostring
  fc_NextActionURL :: gostring

record fp_config =
  fp_CallbackURL :: gostring
  fp_Secret :: gostring

text \<open>\<open>fp_owed\<close>: the settlements waiting for their delay, with the key, the charge and how often
  each is to be delivered. \<open>fp_sent\<close>: the bodies posted to the callback URL with their
  signatures, oldest first.\<close>

record fp_state =
  fp_charges :: "(gostring \<times> fp_charge) list"
  fp_owed :: "(gostring \<times> gostring \<times> nat) list"
  fp_sent :: "(gostring \<times> gostring) list"

definition chargeID :: "gostring \<Rightarrow> gostring" where
  "chargeID key = ''chrg_'' @ key"

definition fp_lookup :: "gostring \<Rightarrow> fp_state \<Rightarrow> fp_charge option" where
  "fp_lookup i st = map_of (fp_charges st) i"

definition fp_put :: "gostring \<Rightarrow> fp_charge \<Rightarrow> fp_state \<Rightarrow> fp_state" where
  "fp_put i c st = st\<lparr>fp_charges := AList.update i c (fp_charges st)\<rparr>"

definition fp_made :: "fp_config \<Rightarrow> gostring \<Rightarrow> Behaviour \<Rightarrow> fp_charge" where
  "fp_made cfg i b =
     (case b of
        BehaviourSucceed \<Rightarrow> \<lparr>fc_ID = i, fc_Status = ''succeeded'', fc_FailureReason = [], fc_NextActionURL = []\<rparr>
      | BehaviourDecline \<Rightarrow>
          \<lparr>fc_ID = i, fc_Status = ''failed'', fc_FailureReason = ''card_declined'', fc_NextActionURL = []\<rparr>
      | _ \<Rightarrow> \<lparr>fc_ID = i, fc_Status = ''pending'', fc_FailureReason = [],
             fc_NextActionURL = TrimRightSlash (fp_CallbackURL cfg) @ ''/next-action/'' @ i\<rparr>)"

definition fp_store :: "fp_config \<Rightarrow> gostring \<Rightarrow> Behaviour \<Rightarrow> fp_state \<Rightarrow> fp_charge \<times> fp_state" where
  "fp_store cfg i b st = (let made = fp_made cfg i b in (made, fp_put i made st))"

definition fp_settle :: "gostring \<Rightarrow> fp_state \<Rightarrow> fp_state" where
  "fp_settle i st =
     (case fp_lookup i st of
        None \<Rightarrow> st
      | Some c \<Rightarrow> fp_put i (c\<lparr>fc_Status := ''succeeded'', fc_NextActionURL := []\<rparr>) st)"

definition fp_deliveries :: "Behaviour \<Rightarrow> nat" where
  "fp_deliveries b = (if b = BehaviourDuplicateWebhook then 2 else 1)"

definition fp_send :: "go_lib \<Rightarrow> fp_config \<Rightarrow> gostring \<Rightarrow> gostring \<Rightarrow> fp_state \<Rightarrow> fp_state" where
  "fp_send L cfg key i st =
     (case fp_lookup i st of
        None \<Rightarrow> st
      | Some c \<Rightarrow>
          let body = gl_callback L \<lparr>cbk_ID = fc_ID c, cbk_IdempotencyKey = key, cbk_Status = fc_Status c,
                       cbk_FailureReason = fc_FailureReason c\<rparr>
          in st\<lparr>fp_sent := fp_sent st @ [(body, pv_Sign L (fp_Secret cfg) body)]\<rparr>)"

definition fp_sendLater :: "gostring \<Rightarrow> gostring \<Rightarrow> nat \<Rightarrow> fp_state \<Rightarrow> fp_state" where
  "fp_sendLater key i n st = st\<lparr>fp_owed := fp_owed st @ [(key, i, n)]\<rparr>"

text \<open>The goroutine of \<open>sendLater\<close> once its delay is over.\<close>

definition fp_deliver :: "go_lib \<Rightarrow> fp_config \<Rightarrow> gostring \<times> gostring \<times> nat \<Rightarrow> fp_state \<Rightarrow> fp_state" where
  "fp_deliver L cfg due st =
     (case due of (key, i, n) \<Rightarrow> (fp_send L cfg key i ^^ n) (fp_settle i st))"

definition fp_answer :: "go_lib \<Rightarrow> fp_charge \<Rightarrow> http_response" where
  "fp_answer L c = \<lparr>hr_Status = 200, hr_Body = gl_response L
     \<lparr>crs_ID = fc_ID c, crs_Status = fc_Status c, crs_FailureReason = fc_FailureReason c,
      crs_NextActionURL = fc_NextActionURL c\<rparr>, hr_ReadErr = None\<rparr>"

text \<open>The handlers answer, or, for a charge that hangs, never do: \<open>None\<close>. Of a body nothing past
  the bound is read.\<close>

definition fp_maxBody :: int where "fp_maxBody = 65536"

definition fp_create :: "go_lib \<Rightarrow> fp_config \<Rightarrow> gostring \<Rightarrow> fp_state \<Rightarrow> http_response option \<times> fp_state" where
  "fp_create L cfg body st =
     (case gl_read_request L (limited fp_maxBody body) of
        Inl e \<Rightarrow> (Some \<lparr>hr_Status = 400, hr_Body = ''malformed request'', hr_ReadErr = None\<rparr>, st)
      | Inr req \<Rightarrow>
          if crq_IdempotencyKey req = [] \<or> crq_AmountMinor req \<le> 0 \<or> crq_Currency req = []
          then (Some \<lparr>hr_Status = 400, hr_Body = ''missing idempotency_key, amount_minor or currency'', hr_ReadErr = None\<rparr>, st)
          else (case fp_lookup (chargeID (crq_IdempotencyKey req)) st of
              Some existing \<Rightarrow> (Some (fp_answer L existing), st)
            | None \<Rightarrow>
                let b = Behaviour_of (crq_AmountMinor req mod behaviourModulus) in
                if b = BehaviourHang then (None, st)
                else (case fp_store cfg (chargeID (crq_IdempotencyKey req)) b st of (made, st1) \<Rightarrow>
                  let st2 = (if b = BehaviourWebhook \<or> b = BehaviourDuplicateWebhook
                             then fp_sendLater (crq_IdempotencyKey req) (fc_ID made) (fp_deliveries b) st1
                             else if b = BehaviourWebhookFirst
                             then fp_send L cfg (crq_IdempotencyKey req) (fc_ID made) st1
                             else st1)
                  in (Some (fp_answer L made), st2))))"

definition fp_get :: "go_lib \<Rightarrow> gostring \<Rightarrow> fp_state \<Rightarrow> http_response option \<times> fp_state" where
  "fp_get L i st =
     (case fp_lookup i st of
        None \<Rightarrow> (Some \<lparr>hr_Status = 404, hr_Body = ''no such charge'', hr_ReadErr = None\<rparr>, st)
      | Some c \<Rightarrow> (Some (fp_answer L c), st))"

text \<open>\<open>Routes\<close> behind the base URL the adapter is given.\<close>

definition fp_Routes :: "go_lib \<Rightarrow> fp_config \<Rightarrow> gostring \<Rightarrow> fp_state http_server" where
  "fp_Routes L cfg base q st =
     (let path = base @ ''/v1/charges'' in
      case hq_Method q of
        POST \<Rightarrow> if hq_URL q = path then fp_create L cfg (case hq_Body q of None \<Rightarrow> [] | Some b \<Rightarrow> b) st
                else (Some \<lparr>hr_Status = 404, hr_Body = ''404 page not found'', hr_ReadErr = None\<rparr>, st)
      | GET \<Rightarrow> if take (length path + 1) (hq_URL q) = path @ ''/''
               then fp_get L (gl_PathUnescape L (drop (length path + 1) (hq_URL q))) st
               else if hq_URL q = base @ ''/healthz'' then (Some \<lparr>hr_Status = 200, hr_Body = [], hr_ReadErr = None\<rparr>, st)
               else (Some \<lparr>hr_Status = 404, hr_Body = ''404 page not found'', hr_ReadErr = None\<rparr>, st))"

end
