(* ===== verification/PayClaims.thy ===== *)
theory PayClaims
  imports PayRuns FakeProvider
begin

text \<open>
  The claims about the payment service: its books, what it asks of the provider, what blocks an
  order, what a callback does; and the till that the witnesses run on, the adapter over the fake
  provider with a log of its requests.
\<close>

subsection \<open>A till\<close>

definition till_user :: gostring where "till_user = ''00000000-0000-0000-0000-0000000000e1''"
definition till_order :: gostring where "till_order = ''00000000-0000-0000-0000-0000000000a2''"
definition till_payment :: gostring where "till_payment = ''00000000-0000-0000-0000-0000000000c4''"
definition till_retry :: gostring where "till_retry = ''00000000-0000-0000-0000-0000000000c5''"

definition till_ref :: gostring where "till_ref = ''chrg_'' @ till_payment"

definition till_said :: Envelope where
  "till_said =
     \<lparr>env_EventId = ''e'', env_EventType = ''PaymentSucceeded'', env_AggregateId = till_payment, env_Version = 3,
      env_OccurredAt = 7000, env_CorrelationId = [], env_Traceparent = [],
      env_Payload = Some (PbPaymentSucceeded till_payment till_order till_user
        \<lparr>mny_AmountMinor = 2102, mny_CurrencyCode = ''THB''\<rparr> till_ref 7000)\<rparr>"

definition till_env :: pay_env where
  "till_env = \<lparr>ye_U = canonical_uuids, ye_C = table_codec [till_said], ye_headers = [], ye_event_id = (\<lambda>pid v i. ''e'')\<rparr>"

definition till_orders :: "fp_state order_client" where
  "till_orders oid st = (Inr \<lparr>pbord_Id = oid, pbord_UserId = till_user, pbord_Status = ORDER_STATUS_PENDING_PAYMENT,
     pbord_Lines = [], pbord_Total = \<lparr>mny_AmountMinor = 2102, mny_CurrencyCode = ''THB''\<rparr>,
     pbord_ReservationId = [], pbord_CreatedAt = 0, pbord_UpdatedAt = 0\<rparr>, st)"

definition till_gateway :: pv_gateway where "till_gateway = pv_New ''http://pay'' ''s3cret''"

text \<open>A codec that keeps of a message what the till needs of it: a letter for the status and an
  identifier.\<close>

definition till_letter :: "gostring \<Rightarrow> char" where
  "till_letter s = (if s = ''succeeded'' then CHR ''s'' else if s = ''failed'' then CHR ''f'' else CHR ''p'')"

definition till_status :: "char \<Rightarrow> gostring" where
  "till_status c = (if c = CHR ''s'' then ''succeeded'' else if c = CHR ''f'' then ''failed'' else ''pending'')"

definition till_lib :: go_lib where
  "till_lib =
     \<lparr>gl_mac = (\<lambda>k p. k), gl_request = crq_IdempotencyKey,
      gl_read_request = (\<lambda>s. Inr \<lparr>crq_IdempotencyKey = s, crq_Reference = [], crq_AmountMinor = 2102,
         crq_Currency = ''THB'', crq_Method = []\<rparr>),
      gl_response = (\<lambda>a. till_letter (crs_Status a) # crs_ID a),
      gl_read_response = (\<lambda>s. Inr \<lparr>crs_ID = tl s, crs_Status = till_status (hd s), crs_FailureReason = [],
         crs_NextActionURL = ''http://pay/next''\<rparr>),
      gl_callback = (\<lambda>b. till_letter (cbk_Status b) # cbk_IdempotencyKey b),
      gl_read_callback = (\<lambda>s. Inr \<lparr>cbk_ID = chargeID (tl s), cbk_IdempotencyKey = tl s, cbk_Status = till_status (hd s),
         cbk_FailureReason = []\<rparr>),
      gl_NewRequest = (\<lambda>m u. None), gl_PathEscape = (\<lambda>s. s), gl_PathUnescape = (\<lambda>s. s), gl_Quote = (\<lambda>s. s)\<rparr>"

definition till_provider :: fp_config where
  "till_provider = \<lparr>fp_CallbackURL = ''http://shop/hook'', fp_Secret = ''s3cret''\<rparr>"

definition till :: "(http_request list \<times> fp_state) pay_app" where
  "till = \<lparr>ya_E = till_env, ya_G = beside till_orders,
     ya_P = pv_port canonical_uuids till_lib till_gateway (logging (fp_Routes till_lib till_provider ''http://pay'')),
     ya_H = (\<lambda>s. s)\<rparr>"

definition till_db :: pay_db where
  "till_db = \<lparr>outbox = [], outbox_next = 1, processed_events = [], db_now = 7000, payments = [], pay_keys = []\<rparr>"

definition till_open :: "outcome list \<Rightarrow> (pay_db, http_request list \<times> fp_state) world" where
  "till_open faults = \<lparr>w_db = till_db, w_ext = ([], \<lparr>fp_charges = [], fp_owed = [], fp_sent = []\<rparr>),
     w_sched = faults, w_tx = False\<rparr>"

definition till_cmd :: InitiatePaymentCommand where
  "till_cmd = \<lparr>ip_OrderID = till_order, ip_UserID = till_user, ip_IdempotencyKey = ''k'', ip_Method = ''card''\<rparr>"

lemma till_ids:
  "canonical_uuid till_user" "canonical_uuid till_order" "canonical_uuid till_payment" "canonical_uuid till_retry"
  by code_simp+

lemma till_parts: "uuid_ok (ye_U till_env)" "codec_ok (ye_C till_env)" "pay_minted (ye_U till_env) (PayInitiate till_payment c)"
  using till_ids by (simp_all add: till_env_def uuid_ok_canonical table_codec_ok) (simp add: canonical_uuids_def)

lemma till_ok: "pay_app_ok till"
  using till_parts by (simp add: pay_app_ok_def till_def pg.payment_gateway_axioms)

lemma till_open_ok: "pay_ok U C (w_db (till_open faults))" "\<not> w_tx (till_open faults)" "posted (w_ext (till_open faults)) = []"
  by (simp_all add: till_open_def till_db_def pay_ok_def pay_rows_ok_def pay_keys_ok_def unresolved_def posted_def)

definition till_paying :: "(pay_db, http_request list \<times> fp_state) world" where
  "till_paying = pay_exec till (PayInitiate till_payment till_cmd) (till_open [])"

lemma till_paying_facts:
  "map (\<lambda>r. (yr_ID r, yr_OrderID r, yr_Status r, yr_ProviderReference r, yr_AmountMinor r, yr_Version r))
     (payments (w_db till_paying)) = [(till_payment, till_order, ''pending'', till_ref, 2102, 2)]"
  "length (posted (w_ext till_paying)) = 1" "outbox (w_db till_paying) = []"
  by code_simp+

subsection \<open>The books of payments\<close>

text \<open>C20. Attempts are what they say they are. From consistent books, whatever requests and
  callbacks follow, whatever the provider answers and whichever round trips fail or lose their
  answer: no two attempts share an id, and no two attempts that have not failed share an order; an
  attempt asks for a positive amount, and names the provider's reference once it has succeeded; the
  messages in the outbox about it are none while it is pending, one \<open>PaymentSucceeded\<close> when it
  has succeeded and one \<open>PaymentFailed\<close> when it has failed, each decoding to that attempt, order,
  user and amount; a key answers with an attempt of the user who used it; and every earlier attempt
  is still there, for the same order and amount, with its outcome and reference if it had them.\<close>

theorem payment_books:
  assumes "pay_app_ok A" and "\<forall>req \<in> set reqs. pay_minted (ye_U (ya_E A)) req"
    and "pay_ok (ye_U (ya_E A)) (ye_C (ya_E A)) (w_db s)" and "\<not> w_tx s"
  shows "let db = w_db (fold (pay_exec A) reqs s) in
    distinct (map yr_ID (payments db)) \<and>
    distinct (map yr_OrderID (filter (\<lambda>r. yr_Status r \<noteq> ''failed'') (payments db))) \<and>
    (\<forall>r \<in> set (payments db). 0 < yr_AmountMinor r \<and>
       (yr_Status r = ''succeeded'' \<longrightarrow> yr_ProviderReference r \<noteq> []) \<and>
       list_all2 (pay_says (ye_C (ya_E A)) r)
         (if yr_Status r = ''succeeded'' then [''PaymentSucceeded'']
          else if yr_Status r = ''failed'' then [''PaymentFailed''] else [])
         (filter (\<lambda>b. ob_AggregateID b = yr_ID r) (outbox db))) \<and>
    (\<forall>k \<in> set (pay_keys db). \<exists>r \<in> set (payments db). yr_ID r = yk_PaymentID k \<and> yr_UserID r = yk_UserID k) \<and>
    (\<forall>r \<in> set (payments (w_db s)). \<exists>r' \<in> set (payments db). attempt_moves r r')"
proof -
  from pay_history_good [OF assms]
  have ok: "pay_ok (ye_U (ya_E A)) (ye_C (ya_E A)) (w_db (fold (pay_exec A) reqs s))"
    and g: "grows attempt_moves (payments (w_db s)) (payments (w_db (fold (pay_exec A) reqs s)))"
    by (simp_all add: pay_good_def pay_evolves_def)
  then have "\<forall>r \<in> set (payments (w_db s)). \<exists>r' \<in> set (payments (w_db (fold (pay_exec A) reqs s))). attempt_moves r r'"
    by (blast elim: grows_row)
  with ok show ?thesis
    by (simp add: Let_def pay_ok_def pay_rows_ok_def pay_row_ok_def pay_keys_ok_def pay_told_def
        pay_story_def about_payment_def unresolved_def)
qed

theorem payment_books_witness:
  "\<exists>r. payments (w_db (fold (pay_exec till) [PayInitiate till_payment till_cmd] (till_open []))) = [r] \<and>
     0 < yr_AmountMinor r \<and> filter (\<lambda>b. ob_AggregateID b = yr_ID r) (outbox (w_db till_paying)) = []"
proof -
  obtain r where r: "payments (w_db till_paying) = [r]" "yr_Status r = ''pending''"
    using till_paying_facts(1) by (cases "payments (w_db till_paying)") auto
  have run: "fold (pay_exec till) [PayInitiate till_payment till_cmd] (till_open []) = till_paying"
    by (simp add: till_paying_def del: pay_exec.simps)
  have "\<forall>req \<in> set [PayInitiate till_payment till_cmd]. pay_minted (ye_U (ya_E till)) req"
    using till_parts(3) by (simp add: till_def)
  from payment_books [OF till_ok this till_open_ok(1,2) [where faults = "[]"], unfolded run] r
  show ?thesis unfolding run by (simp add: Let_def)
qed

subsection \<open>What the provider is asked\<close>

text \<open>C21. Nobody is charged off the record, and nobody twice. Behind any provider and any order
  service, whatever requests and callbacks follow and whichever round trips fail or lose their answer
  (a request the provider has acted on included): the requests for money that ever reached the
  provider, each counted once with whatever redirects the HTTP client follows on its way, belong, one each, to different attempts in the database, and each asks for exactly the
  amount, the currency, the order and the method recorded there; and of the attempts for one order at
  most one has not failed.\<close>

theorem charges_on_record:
  assumes "uuid_ok (ye_U E)" and "codec_ok (ye_C E)" and "pay_ok (ye_U E) (ye_C E) (w_db s)" and "\<not> w_tx s"
    and "posted (w_ext s) = []" and "\<forall>req \<in> set reqs. pay_minted (ye_U E) req"
    and "A = \<lparr>ya_E = E, ya_G = beside G, ya_P = pv_port (ye_U E) L g (logging srv), ya_H = H\<rparr>"
  shows "let s' = fold (pay_exec A) reqs s; db = w_db s' in
    (\<exists>ids. distinct ids \<and> list_all2 (\<lambda>body i. \<exists>r \<in> set (payments db). yr_ID r = i \<and>
        body = Some (gl_request L \<lparr>crq_IdempotencyKey = yr_ID r, crq_Reference = yr_OrderID r,
          crq_AmountMinor = yr_AmountMinor r, crq_Currency = yr_AmountCurrency r, crq_Method = yr_Method r\<rparr>))
      (posted (w_ext s')) ids) \<and>
    (\<forall>r \<in> set (payments db). \<forall>r' \<in> set (payments db).
       yr_Status r \<noteq> ''failed'' \<and> yr_Status r' \<noteq> ''failed'' \<and> yr_OrderID r = yr_OrderID r' \<longrightarrow> r = r')"
proof -
  let ?s = "fold (pay_exec A) reqs s"
  have "on_record L (w_db s) (w_ext s)"
    using assms(5) by (auto simp: on_record_def)
  then have "logged.kept L E (w_db s) s" using assms(3,4) by (simp add: logged.kept_def)
  from logged.history_kept [OF assms(2,1,7,6) this]
  have rec: "on_record L (w_db ?s) (w_ext ?s)" and ok: "pay_ok (ye_U E) (ye_C E) (w_db ?s)"
    by (simp_all add: logged.kept_def)
  from ok have d: "distinct (map yr_OrderID (unresolved (payments (w_db ?s))))"
    by (simp add: pay_ok_def pay_rows_ok_def)
  have one: "r = r'" if "r \<in> set (payments (w_db ?s))" "r' \<in> set (payments (w_db ?s))" "yr_Status r \<noteq> ''failed''"
      "yr_Status r' \<noteq> ''failed''" "yr_OrderID r = yr_OrderID r'" for r r'
    using distinct_map_inj [OF d, of r r'] that by (simp add: unresolved_def)
  show ?thesis
    using rec one unfolding Let_def on_record_def backed_def asks_for_def by blast
qed

definition till_twice :: "(pay_db, http_request list \<times> fp_state) world" where
  "till_twice = fold (pay_exec till) [PayInitiate till_payment till_cmd, PayInitiate till_retry till_cmd] (till_open [])"

lemma till_twice_facts:
  "length (payments (w_db till_twice)) = 1" "length (posted (w_ext till_twice)) = 1"
  by code_simp+

theorem charges_on_record_witness:
  "\<exists>r. payments (w_db till_twice) = [r] \<and> posted (w_ext till_twice) =
     [Some (gl_request till_lib \<lparr>crq_IdempotencyKey = yr_ID r, crq_Reference = yr_OrderID r,
        crq_AmountMinor = yr_AmountMinor r, crq_Currency = yr_AmountCurrency r, crq_Method = yr_Method r\<rparr>)]"
proof -
  obtain r where r: "payments (w_db till_twice) = [r]"
    using till_twice_facts(1) by (cases "payments (w_db till_twice)") auto
  obtain body where body: "posted (w_ext till_twice) = [body]"
    using till_twice_facts(2) by (cases "posted (w_ext till_twice)") auto
  let ?reqs = "[PayInitiate till_payment till_cmd, PayInitiate till_retry till_cmd]"
  have new: "\<forall>req \<in> set ?reqs. pay_minted (ye_U till_env) req"
    using till_ids by (simp add: till_env_def canonical_uuids_def)
  have A: "till = \<lparr>ya_E = till_env, ya_G = beside till_orders,
      ya_P = pv_port (ye_U till_env) till_lib till_gateway (logging (fp_Routes till_lib till_provider ''http://pay'')),
      ya_H = (\<lambda>s. s)\<rparr>"
    by (simp add: till_def till_env_def)
  from charges_on_record [OF till_parts(1,2) till_open_ok [where faults = "[]"] new A, folded till_twice_def]
  show ?thesis unfolding Let_def r body by (auto simp: list_all2_Cons1)
qed

subsection \<open>An attempt that is not over\<close>

lemma initiate_tx_blocked:
  assumes "oid \<in> yr_OrderID ` set (unresolved (payments (w_db s)))" and "uuid_Parse (ye_U E) oid = Inr oid"
    and "NewPayment pid oid uid amount m = Inr built" and "initiate_tx E uid key hash built s = (Inr p, s')"
  shows False
proof -
  note b = NewPayment_Inr [OF assms(3)]
  from assms(4) obtain c taken s1 where 1: "pay_idem_Claim (ye_U E) uid key hash (pay_id built) s = (Inr (c, taken), s1)"
      "(if \<not> taken then if yc_RequestHash c \<noteq> hash then fail pay_errKeyReused else fail (pay_errReplay (yc_PaymentID c))
        else payments_Create E built) s1 = (Inr p, s')"
    by (auto simp: initiate_tx_def andThen_Inr)
  from 1(2) have taken: "taken" by (auto simp: fail_simps split: if_splits)
  with 1(1) have t: "payments (w_db s1) = payments (w_db s)" by (auto elim!: pay_Claim_taken)
  from 1(2) taken assms(2) b obtain i u row s2 where
      "sql (sql_CreatePayment i oid u ''pending'' (amountMinor amount) (currency amount) m) s1 = (Inr row, s2)"
    by (auto simp: payments_Create_def pay_Snapshot_def Let_def op_inv split: if_splits)
  from sql_success [OF this] have
      "sql_CreatePayment i oid u ''pending'' (amountMinor amount) (currency amount) m (w_db s1) = (Inr row, w_db s2)" by auto
  from sql_CreatePayment_Inr(6) [OF this] assms(1) t show False by simp
qed

text \<open>What a blocked request leaves: the database as it was and no new request for money.\<close>

definition blocked ::
  "gostring \<Rightarrow> pay_db \<Rightarrow> gostring option list \<Rightarrow> (pay_db, http_request list \<times> 's) world \<Rightarrow> bool" where
  "blocked oid db0 posts0 s \<longleftrightarrow> oid \<in> yr_OrderID ` set (unresolved (payments db0)) \<and>
     w_db s = db0 \<and> posted (w_ext s) = posts0 \<and> \<not> w_tx s"

lemma blocked_still: "read_only m \<Longrightarrow> keeps_tx m \<Longrightarrow> quiet m \<Longrightarrow> triple (blocked oid db0 p0) m (\<lambda>_. blocked oid db0 p0)"
  by (rule triple_still) (auto simp: blocked_def)

lemma blocked_reads [triples]:
  "triple (blocked oid db0 p0) (pay_replay U u k h) (\<lambda>_. blocked oid db0 p0)"
  "triple (blocked oid db0 p0) (payments_FindByID U pid) (\<lambda>_. blocked oid db0 p0)"
  by (rule blocked_still; intro pay_reads_only keeps quiets)+

lemma blocked_order [triples]: "triple (blocked oid db0 p0) (gw_GetOrder (beside G) i) (\<lambda>_. blocked oid db0 p0)"
proof -
  have "triple (blocked oid db0 p0) (rpc (beside G i)) (\<lambda>_. blocked oid db0 p0)"
  proof (rule tripleI)
    fix s r s'
    assume k: "blocked oid db0 p0 s" and run: "rpc (beside G i) s = (r, s')"
    from rpc_frame [OF run] rpc_ext [OF run] posted_beside [of G i "w_ext s"] k
    show "blocked oid db0 p0 s'" by (auto simp: blocked_def)
  qed
  then show ?thesis unfolding gw_GetOrder_def by (intro triple_andThen triple_basic)
qed

lemma blocked_next_action [triples]:
  "triple (blocked oid db0 p0) (pay_withNextAction (pv_port U L g (logging srv)) p) (\<lambda>_. blocked oid db0 p0)"
proof -
  have "triple (blocked oid db0 p0) (pp_Retrieve (pv_port U L g (logging srv)) ref) (\<lambda>_. blocked oid db0 p0)" for ref
  proof (rule tripleI)
    fix s r s'
    assume k: "blocked oid db0 p0 s" and run: "pp_Retrieve (pv_port U L g (logging srv)) ref s = (r, s')"
    from run have "pv_Retrieve L g (logging srv) ref s = (r, s')" by (simp add: pv_port_def)
    from pv_frames(2) [OF this] retrieve_posts [OF this] k show "blocked oid db0 p0 s'" by (simp add: blocked_def)
  qed
  then show ?thesis unfolding pay_withNextAction_def by (intro triple_withResult triple_cases triple_basic)
qed

lemma blocked_initiate:
  fixes srv :: "'s http_server"
  assumes canon: "uuid_Parse (ye_U E) oid = Inr oid"
  shows "triple (blocked oid db0 p0) (initiate_body E (beside G) (pv_port U L g (logging srv)) pid uid oid m key hash)
    (\<lambda>_. blocked oid db0 p0)"
proof -
  let ?P = "pv_port U L g (logging srv) :: (pay_db, http_request list \<times> 's) provider_port"
  let ?I = "blocked oid db0 p0 :: (pay_db, http_request list \<times> 's) world \<Rightarrow> bool"
  have tx: "triple ?I (Do (initiate_tx E uid key hash built)) (\<lambda>r s. ?I s \<and> isl r)"
    if "NewPayment pid oid uid amount m = Inr built" for built amount
  proof (rule triple_Do)
    show "quiet (initiate_tx E uid key hash built)" by (rule quiets)
    fix s s1 s2 s' :: "(pay_db, http_request list \<times> 's) world" and x r
    assume "blocked oid db0 p0 s" "w_db s1 = w_db s" "initiate_tx E uid key hash built s1 = (Inr x, s2)"
    with initiate_tx_blocked [OF _ canon that, of s1 key hash x s2]
    show "blocked oid db0 p0 s' \<and> isl r" by (simp add: blocked_def)
  qed (auto simp: blocked_def)
  have "triple (\<lambda>s. blocked oid db0 p0 s \<and> isl r) (initiate_finish E ?P built r) (\<lambda>_. blocked oid db0 p0)" for r built
  proof (cases r)
    case (Inl e)
    have "triple (blocked oid db0 p0) (initiate_finish E ?P built r) (\<lambda>_. blocked oid db0 p0)"
      unfolding Inl initiate_finish_def by (auto intro!: triples split: option.splits)
    then show ?thesis by (rule triple_pre) simp
  qed (simp add: triple_def)
  then have stored: "triple (blocked oid db0 p0) (withResult (Do (initiate_tx E uid key hash built)) (initiate_finish E ?P built))
      (\<lambda>_. blocked oid db0 p0)" if "NewPayment pid oid uid amount m = Inr built" for built amount
    by (rule triple_bind [OF tx [OF that]])
  show ?thesis unfolding initiate_body_def initiate_fresh_def
    by (intro triple_checked triple_andThen triple_cases triple_basic blocked_next_action blocked_order blocked_reads stored)
qed

lemma unresolved_blocks:
  assumes "uuid_ok (ye_U E)" and "pay_ParseOrderID (ye_U E) (ip_OrderID cmd) = Inr oid"
    and "r \<in> set (payments (w_db s))" and "yr_OrderID r = oid" and "yr_Status r \<noteq> ''failed''" and "\<not> w_tx s"
    and "A = \<lparr>ya_E = E, ya_G = beside G, ya_P = pv_port U L g (logging srv), ya_H = H\<rparr>"
  shows "let s' = pay_exec A (PayInitiate new_id cmd) s in
    w_db s' = w_db s \<and> posted (w_ext s') = posted (w_ext s) \<and> \<not> w_tx s'"
proof -
  from pay_parse_Inr(2) [OF assms(1,2)] have canon: "uuid_Parse (ye_U E) oid = Inr oid" .
  have k: "blocked oid (w_db s) (posted (w_ext s)) s"
    using assms(3-6) by (auto simp: blocked_def unresolved_def)
  have "triple (blocked oid (w_db s) (posted (w_ext s))) (pay_InitiatePayment E (beside G) (pv_port U L g (logging srv)) H new_id cmd)
     (\<lambda>_. blocked oid (w_db s) (posted (w_ext s)))"
    unfolding pay_InitiatePayment_def using assms(2)
    by (intro triple_checked triple_cases triple_basic) (auto intro: blocked_initiate [OF canon])
  from triple_run [OF this k] show ?thesis by (simp add: assms(7) blocked_def Let_def)
qed

text \<open>C24. An order with an attempt that has not failed is not charged again. Whoever asks, with
  whatever key, method and fresh id, and whichever round trips fail or lose their answer: starting a
  payment for such an order changes nothing in the database and sends the provider no request for
  money.\<close>

theorem unresolved_blocks_order:
  assumes "uuid_ok (ye_U E)" and "pay_ParseOrderID (ye_U E) (ip_OrderID cmd) = Inr oid"
    and "r \<in> set (payments (w_db s))" and "yr_OrderID r = oid" and "yr_Status r \<noteq> ''failed''" and "\<not> w_tx s"
    and "A = \<lparr>ya_E = E, ya_G = beside G, ya_P = pv_port U L g (logging srv), ya_H = H\<rparr>"
  shows "let s' = pay_exec A (PayInitiate new_id cmd) s in
    w_db s' = w_db s \<and> posted (w_ext s') = posted (w_ext s) \<and> \<not> w_tx s'"
  by (rule unresolved_blocks [OF assms])

theorem unresolved_blocks_order_witness:
  "w_db (pay_exec till (PayInitiate till_retry (till_cmd\<lparr>ip_IdempotencyKey := ''other''\<rparr>)) till_paying) = w_db till_paying"
proof -
  obtain r where r: "payments (w_db till_paying) = [r]" "yr_Status r = ''pending''" "yr_OrderID r = till_order"
    using till_paying_facts(1) by (cases "payments (w_db till_paying)") auto
  have parse: "pay_ParseOrderID (ye_U till_env) (ip_OrderID (till_cmd\<lparr>ip_IdempotencyKey := ''other''\<rparr>)) = Inr till_order"
    by code_simp
  have tx: "\<not> w_tx till_paying"
    unfolding till_paying_def pay_exec_tx [OF till_ok] by (simp add: till_open_def)
  have mem: "r \<in> set (payments (w_db till_paying))" and st: "yr_Status r \<noteq> ''failed''" using r by simp_all
  from unresolved_blocks_order [OF till_parts(1) parse mem r(3) st tx till_def] show ?thesis by (simp add: Let_def)
qed

subsection \<open>An attempt without a reference\<close>

lemma pay_replay_calm:
  assumes calm: "w_sched s = []" and ok: "pay_ok U C (w_db s)" and uid: "uuid_Parse U uid = Inr uid"
  shows "k \<in> set (pay_keys (w_db s)) \<Longrightarrow> yk_UserID k = uid \<Longrightarrow> yk_Key k = key \<Longrightarrow> yk_RequestHash k = hash \<Longrightarrow>
      r \<in> set (payments (w_db s)) \<Longrightarrow> yk_PaymentID k = yr_ID r \<Longrightarrow>
      pay_replay U uid key hash s = (Inr (Some (pay_toDomain r)), s)"
    and "(uid, key) \<notin> (\<lambda>k. (yk_UserID k, yk_Key k)) ` set (pay_keys (w_db s)) \<Longrightarrow> pay_replay U uid key hash s = (Inr None, s)"
proof -
  assume k: "k \<in> set (pay_keys (w_db s))" "yk_UserID k = uid" "yk_Key k = key" "yk_RequestHash k = hash"
    and r: "r \<in> set (payments (w_db s))" "yk_PaymentID k = yr_ID r"
  have d: "distinct (map (\<lambda>k. (yk_UserID k, yk_Key k)) (pay_keys (w_db s)))" "distinct (map yr_ID (payments (w_db s)))"
    "uuid_Parse U (yr_ID r) = Inr (yr_ID r)"
    using ok r(1) by (auto simp: pay_ok_def pay_keys_ok_def pay_rows_ok_def pay_row_ok_def)
  have f: "List.find (\<lambda>k. (yk_UserID k, yk_Key k) = (uid, key)) (pay_keys (w_db s)) = Some k"
    using find_distinct [OF d(1) k(1)] k(2,3) by simp
  have g: "List.find (\<lambda>x. yr_ID x = yr_ID r) (payments (w_db s)) = Some r" by (rule find_distinct [OF d(2) r(1)])
  show "pay_replay U uid key hash s = (Inr (Some (pay_toDomain r)), s)"
    using uid f g d(3) r(2) k(4)
    by (simp add: pay_replay_def pay_idem_Find_def payments_FindByID_def runs pay_parseID_def sql_no_fault [OF calm]
        pay_sql_GetIdempotencyKey_def sql_GetPayment_def pay_claimOf_def)
next
  assume "(uid, key) \<notin> (\<lambda>k. (yk_UserID k, yk_Key k)) ` set (pay_keys (w_db s))"
  then have "List.find (\<lambda>k. (yk_UserID k, yk_Key k) = (uid, key)) (pay_keys (w_db s)) = None"
    by (auto simp: find_None_iff)
  then show "pay_replay U uid key hash s = (Inr None, s)"
    using uid by (simp add: pay_replay_def pay_idem_Find_def runs pay_parseID_def sql_no_fault [OF calm]
        pay_sql_GetIdempotencyKey_def)
qed

lemma create_refused:
  "sql_CreatePayment pid oid uid st amount cur m db = (Inl e, db') \<Longrightarrow> db' = db \<and> pay_replayed_id e = None"
  by (auto simp: sql_CreatePayment_def Let_def check_violation_def unique_violation_def split: if_splits)

lemma initiate_tx_refused:
  assumes calm: "w_sched s = []" and new: "(uid, key) \<notin> (\<lambda>k. (yk_UserID k, yk_Key k)) ` set (pay_keys (w_db s))"
    and open': "oid \<in> yr_OrderID ` set (unresolved (payments (w_db s)))"
    and canon: "uuid_Parse (ye_U E) oid = Inr oid" "uuid_Parse (ye_U E) uid = Inr uid" "uuid_Parse (ye_U E) pid = Inr pid"
    and built: "NewPayment pid oid uid amount m = Inr built"
  obtains e s2 where "initiate_tx E uid key hash built s = (Inl e, s2)" "w_sched s2 = []" "pay_replayed_id e = None"
proof -
  note b = NewPayment_Inr [OF built]
  let ?k = "\<lparr>yk_UserID = uid, yk_Key = key, yk_RequestHash = hash, yk_PaymentID = pid, yk_CreatedAt = db_now (w_db s)\<rparr>"
  let ?s = "s\<lparr>w_db := (w_db s)\<lparr>pay_keys := pay_keys (w_db s) @ [?k]\<rparr>\<rparr>"
  have "pay_idem_Claim (ye_U E) uid key hash (pay_id built) s = (Inr (pay_claimOf ?k, True), ?s)"
    using new canon by (auto simp: pay_idem_Claim_def b runs pay_parseID_def sql_no_fault [OF calm] pay_sql_ClaimIdempotencyKey_def Let_def)
  then have run: "initiate_tx E uid key hash built s = payments_Create E built ?s"
    by (simp add: initiate_tx_def runs)
  have calm': "w_sched ?s = []" using calm by simp
  have ids: "pay_identifiers (ye_U E) (pay_Snapshot built) = Inr (pid, oid, uid)"
    using canon b by (simp add: pay_identifiers_def pay_parseID_def pay_Snapshot_def)
  let ?q = "sql_CreatePayment pid oid uid (pay_status_text (ys_Status (pay_Snapshot built)))
      (amountMinor (ys_Amount (pay_Snapshot built))) (currency (ys_Amount (pay_Snapshot built))) (ys_Method (pay_Snapshot built))"
  obtain e db' where q: "?q (w_db ?s) = (Inl e, db')"
  proof (cases "?q (w_db ?s)")
    case (Pair r db')
    have "isl r"
    proof (rule ccontr)
      assume "\<not> isl r"
      then obtain row where row: "r = Inr row" by (cases r) auto
      from Pair have "sql_CreatePayment pid oid uid ''pending'' (amountMinor amount) (currency amount) m (w_db ?s) = (Inr row, db')"
        by (simp add: row b pay_Snapshot_def)
      from sql_CreatePayment_Inr(6) [OF this] open' show False by simp
    qed
    with Pair that show ?thesis by (cases r) auto
  qed
  have q': "sql ?q ?s = (Inl e, ?s\<lparr>w_db := db'\<rparr>)" unfolding sql_no_fault [OF calm'] q by simp
  note e = create_refused [OF q]
  let ?e = "if isConstraintViolation e unresolvedConstraint
      then WithMetadata (WithReason (wrap e KindConflict ''order already has an unresolved payment'')
          ''PAYMENT_ALREADY_IN_FLIGHT'') [(''order_id'', ys_OrderID (pay_Snapshot built))]
      else wrap e KindInternal ''create payment''"
  have res: "payments_Create E built ?s = (Inl ?e, ?s\<lparr>w_db := db'\<rparr>)"
    by (simp add: payments_Create_def Let_def runs ids q')
  have "pay_replayed_id ?e = None" using e by (simp add: Wrap_def)
  then show ?thesis by (rule that [OF run [unfolded res], rotated]) (use calm in simp)
qed

text \<open>A key that stored an attempt without a reference answers with it; a key not used before is refused
  for an order with an attempt that has not failed.\<close>

lemma initiate_replayed:
  assumes "w_sched s = []" and "pay_ok (ye_U E) C (w_db s)" and "uuid_Parse (ye_U E) uid = Inr uid"
    and "r \<in> set (payments (w_db s))" and "yr_ProviderReference r = []" and "k \<in> set (pay_keys (w_db s))"
    and "yk_UserID k = uid" "yk_Key k = key" "yk_RequestHash k = hash" "yk_PaymentID k = yr_ID r"
  shows "initiate_body E G P new_id uid oid m key hash s = (Inr \<lparr>ini_Payment = pay_toDomain r, ini_NextActionURL = []\<rparr>, s)"
proof -
  have "pay_reference (pay_toDomain r) = []" using assms(5) by (simp add: pay_toDomain_def ReconstitutePayment_def)
  then show ?thesis
    using pay_replay_calm(1) [OF assms(1-3,6-9,4,10)]
    by (simp add: initiate_body_def runs pay_withNextAction_def)
qed

lemma initiate_refused:
  assumes calm: "w_sched s = []" "\<not> w_tx s" and ok: "pay_ok (ye_U E) C (w_db s)"
    and canon: "uuid_Parse (ye_U E) uid = Inr uid" "uuid_Parse (ye_U E) oid = Inr oid" "uuid_Parse (ye_U E) new_id = Inr new_id"
    and new: "(uid, key) \<notin> (\<lambda>k. (yk_UserID k, yk_Key k)) ` set (pay_keys (w_db s))"
    and open': "oid \<in> yr_OrderID ` set (unresolved (payments (w_db s)))"
  shows "isl (fst (initiate_body E G P new_id uid oid m key hash s))"
proof -
  have body: "initiate_body E G P new_id uid oid m key hash s = initiate_fresh E G P new_id uid oid m key hash s"
    by (simp add: initiate_body_def runs pay_replay_calm(2) [OF calm(1) ok canon(1) new])
  obtain ro s1 where g: "gw_GetOrder G oid s = (ro, s1)" by (cases "gw_GetOrder G oid s")
  have s1: "w_db s1 = w_db s" "w_sched s1 = []" "\<not> w_tx s1"
    using g calm by (auto simp: gw_GetOrder_def andThen_def withResult_def rpc_no_fault fail_def pure_op_def
        split: sum.splits)
  show ?thesis
  proof (cases "\<exists>order built. ro = Inr order \<and> po_Payable order \<and> NewPayment new_id oid uid (po_Total order) m = Inr built")
    case False
    with g body show ?thesis by (cases ro) (auto simp: initiate_fresh_def runs split: sum.splits)
  next
    case True
    then obtain order built where built: "ro = Inr order" "po_Payable order"
      "NewPayment new_id oid uid (po_Total order) m = Inr built" by blast
    let ?s = "s1\<lparr>w_tx := True\<rparr>"
    have o: "oid \<in> yr_OrderID ` set (unresolved (payments (w_db ?s)))"
      and n: "(uid, key) \<notin> (\<lambda>k. (yk_UserID k, yk_Key k)) ` set (pay_keys (w_db ?s))"
      using open' new s1(1) by simp_all
    obtain e s2 where t: "initiate_tx E uid key hash built ?s = (Inl e, s2)" "w_sched s2 = []" "pay_replayed_id e = None"
      by (rule initiate_tx_refused [OF _ n o canon(2,1,3) built(3)]) (use s1(2) in simp_all)
    with Do_no_fault [where s = s1 and fn = "initiate_tx E uid key hash built", OF s1(2,3) t(1,2)]
    have "Do (initiate_tx E uid key hash built) s1 = (Inl (if is_panic e then e else JoinErr [e]), s2\<lparr>w_db := w_db s1, w_tx := False\<rparr>)"
      by simp
    then show ?thesis using t(3) body g built by (simp add: initiate_fresh_def runs initiate_finish_def)
  qed
qed

text \<open>A request to start a payment, under the faults it meets.\<close>

definition asked ::
  "'w pay_app \<Rightarrow> gostring \<times> InitiatePaymentCommand \<times> outcome list \<Rightarrow> (pay_db, 'w) world \<Rightarrow> (pay_db, 'w) world" where
  "asked A q s = (case q of (new_id, cmd, faults) \<Rightarrow> pay_exec A (PayInitiate new_id cmd) (s\<lparr>w_sched := faults\<rparr>))"

text \<open>C31. An attempt without a reference stays in the way. A pending attempt the provider never answered for,
  because its commit was not heard of, the process stopped before the charge or the charge timed out,
  is never charged again by asking: no sequence of requests for its order, under any
  keys, by anybody and under any faults, asks the provider for money or changes the database. Without
  a failure, the key that stored the attempt answers with it, without a URL to pay at and without asking
  anybody anything; and a key not used before is refused. Only a callback could move the attempt.\<close>

theorem unasked_attempt_stays:
  fixes srv :: "'s http_server"
  assumes "uuid_ok (ye_U E)" and "pay_ok (ye_U E) C (w_db s)" and "\<not> w_tx s"
    and "A = \<lparr>ya_E = E, ya_G = beside G, ya_P = pv_port U L g (logging srv), ya_H = H\<rparr>"
    and "r \<in> set (payments (w_db s))" and "yr_Status r = ''pending''" and "yr_ProviderReference r = []"
    and "\<forall>(i, c, faults) \<in> set reqs. pay_ParseOrderID (ye_U E) (ip_OrderID c) = Inr (yr_OrderID r)"
    and "w_sched s = []" and "pay_ParseUserID (ye_U E) (ip_UserID cmd) = Inr uid"
    and "pay_ParseOrderID (ye_U E) (ip_OrderID cmd) = Inr (yr_OrderID r)"
    and "NewMethod (ip_Method cmd) = Inr m" and "ip_IdempotencyKey cmd \<noteq> []" and "uuid_Parse (ye_U E) new_id = Inr new_id"
  shows "(let s' = fold (asked A) reqs s in w_db s' = w_db s \<and> posted (w_ext s') = posted (w_ext s)) \<and>
    (let used = (\<lambda>k. yk_UserID k = uid \<and> yk_Key k = ip_IdempotencyKey cmd);
         answer = pay_InitiatePayment E (ya_G A) (ya_P A) H new_id cmd s in
      (\<forall>k \<in> set (pay_keys (w_db s)). used k \<and> yk_PaymentID k = yr_ID r \<and>
         yk_RequestHash k = pay_hashRequest H uid (yr_OrderID r) m \<longrightarrow>
           answer = (Inr \<lparr>ini_Payment = pay_toDomain r, ini_NextActionURL = []\<rparr>, s)) \<and>
      ((\<forall>k \<in> set (pay_keys (w_db s)). \<not> used k) \<longrightarrow> isl (fst answer)))"
proof -
  let ?oid = "yr_OrderID r" and ?key = "ip_IdempotencyKey cmd"
  let ?h = "pay_hashRequest H uid ?oid m"
  have open': "yr_Status r \<noteq> ''failed''" using assms(6) by simp
  have later: "w_db (asked A q t) = w_db t \<and> posted (w_ext (asked A q t)) = posted (w_ext t) \<and> \<not> w_tx (asked A q t)"
    if "w_db t = w_db s" "\<not> w_tx t" "q \<in> set reqs" for q t
  proof -
    obtain i c faults where q: "q = (i, c, faults)" by (cases q)
    have "pay_ParseOrderID (ye_U E) (ip_OrderID c) = Inr ?oid" using assms(8) that(3) q by auto
    moreover have "r \<in> set (payments (w_db (t\<lparr>w_sched := faults\<rparr>)))" "\<not> w_tx (t\<lparr>w_sched := faults\<rparr>)" using that assms(5) by simp_all
    ultimately show ?thesis
      using unresolved_blocks [OF assms(1) _ _ refl open' _ assms(4), of c "t\<lparr>w_sched := faults\<rparr>" i]
      by (simp add: asked_def q Let_def)
  qed
  have "w_db (fold (asked A) qs t) = w_db t \<and> posted (w_ext (fold (asked A) qs t)) = posted (w_ext t)"
    if "w_db t = w_db s" "\<not> w_tx t" "set qs \<subseteq> set reqs" for qs t
    using that by (induction qs arbitrary: t) (auto simp: later)
  from this [of s reqs] assms(3) have still: "let s' = fold (asked A) reqs s in w_db s' = w_db s \<and> posted (w_ext s') = posted (w_ext s)"
    by simp
  have canon: "uuid_Parse (ye_U E) uid = Inr uid" "uuid_Parse (ye_U E) ?oid = Inr ?oid"
    using pay_parse_Inr [OF assms(1)] assms(10,11) by blast+
  have ans: "pay_InitiatePayment E (ya_G A) (ya_P A) H new_id cmd s = initiate_body E (ya_G A) (ya_P A) new_id uid ?oid m ?key ?h s"
    using assms(10-13) by (simp add: pay_InitiatePayment_def pure_then)
  have "?oid \<in> yr_OrderID ` set (unresolved (payments (w_db s)))" using assms(5) open' by (auto simp: unresolved_def)
  then have "isl (fst (initiate_body E (ya_G A) (ya_P A) new_id uid ?oid m ?key ?h s))"
    if "\<forall>k \<in> set (pay_keys (w_db s)). \<not> (yk_UserID k = uid \<and> yk_Key k = ?key)"
    using that by (intro initiate_refused [OF assms(9,3,2) canon assms(14)]) auto
  with still initiate_replayed [OF assms(9,2) canon(1) assms(5,7)] show ?thesis unfolding ans Let_def by blast
qed

text \<open>The commit that stores the attempt takes effect and its answer is lost: the customer is told of an
  error and the provider was not asked.\<close>

definition till_lost :: "(pay_db, http_request list \<times> fp_state) world" where
  "till_lost = pay_exec till (PayInitiate till_payment till_cmd) (till_open [Done, Done, Done, Done, Done, Lost])"

lemma till_lost_facts:
  "map (\<lambda>r. (yr_ID r, yr_OrderID r, yr_Status r, yr_ProviderReference r)) (payments (w_db till_lost)) =
     [(till_payment, till_order, ''pending'', [])]" "posted (w_ext till_lost) = []" "w_sched till_lost = []"
  "map (\<lambda>k. (yk_UserID k, yk_Key k, yk_PaymentID k, yk_RequestHash k)) (pay_keys (w_db till_lost)) =
     [(till_user, ''k'', till_payment, pay_hashRequest (\<lambda>s. s) till_user till_order ''card'')]"
  by code_simp+

theorem unasked_attempt_stays_witness:
  "\<exists>r. payments (w_db till_lost) = [r] \<and>
    w_db (fold (asked till) [(till_retry, till_cmd, [Done, Lost]), (till_retry, till_cmd\<lparr>ip_IdempotencyKey := ''other''\<rparr>, [])] till_lost) =
      w_db till_lost \<and>
    pay_InitiatePayment till_env (ya_G till) (ya_P till) (\<lambda>s. s) till_retry till_cmd till_lost =
      (Inr \<lparr>ini_Payment = pay_toDomain r, ini_NextActionURL = []\<rparr>, till_lost) \<and>
    isl (fst (pay_InitiatePayment till_env (ya_G till) (ya_P till) (\<lambda>s. s) till_retry
      (till_cmd\<lparr>ip_IdempotencyKey := ''other''\<rparr>) till_lost))"
proof -
  obtain r where r: "payments (w_db till_lost) = [r]" "yr_ID r = till_payment" "yr_Status r = ''pending''"
      "yr_OrderID r = till_order" "yr_ProviderReference r = []"
    using till_lost_facts(1) by (cases "payments (w_db till_lost)") auto
  obtain k where k: "pay_keys (w_db till_lost) = [k]" "yk_UserID k = till_user" "yk_Key k = ''k''"
      "yk_PaymentID k = till_payment" "yk_RequestHash k = pay_hashRequest (\<lambda>s. s) till_user till_order ''card''"
    using till_lost_facts(4) by (cases "pay_keys (w_db till_lost)") auto
  have tx: "\<not> w_tx till_lost"
    unfolding till_lost_def pay_exec_tx [OF till_ok] by (simp add: till_open_def)
  have "\<forall>req \<in> set [PayInitiate till_payment till_cmd]. pay_minted (ye_U (ya_E till)) req"
    using till_parts(3) by (simp add: till_def)
  from pay_history_good [OF till_ok this till_open_ok(1,2) [where faults = "[Done, Done, Done, Done, Done, Lost]"]]
  have ok: "pay_ok (ye_U till_env) (ye_C till_env) (w_db till_lost)"
    by (simp add: pay_good_def till_lost_def till_def)
  have mem: "r \<in> set (payments (w_db till_lost))" using r by simp
  have p: "pay_ParseUserID (ye_U till_env) till_user = Inr till_user" "pay_ParseOrderID (ye_U till_env) till_order = Inr till_order"
    "NewMethod ''card'' = Inr ''card''" "uuid_Parse (ye_U till_env) till_retry = Inr till_retry" by code_simp+
  let ?reqs = "[(till_retry, till_cmd, [Done, Lost]), (till_retry, till_cmd\<lparr>ip_IdempotencyKey := ''other''\<rparr>, [])]"
  have reqs: "\<forall>(i, c, faults) \<in> set ?reqs. pay_ParseOrderID (ye_U till_env) (ip_OrderID c) = Inr (yr_OrderID r)"
    using p(2) r(4) by (simp add: till_cmd_def)
  note main = unasked_attempt_stays [OF till_parts(1) ok tx till_def mem r(3,5) reqs till_lost_facts(3), where uid = till_user and
      m = "''card''" and new_id = till_retry]
  from main [of till_cmd] main [of "till_cmd\<lparr>ip_IdempotencyKey := ''other''\<rparr>"] p r(2,4) k
  show ?thesis by (intro exI [of _ r]) (simp add: till_cmd_def r(1) Let_def)
qed

subsection \<open>Callbacks\<close>

text \<open>The message of an event can be built: protobuf encodes it.\<close>

definition encodes :: "pay_env \<Rightarrow> pay_row \<Rightarrow> PayEvent \<Rightarrow> bool" where
  "encodes E row e = (case pay_record E row (0, e) of Inl _ \<Rightarrow> False | Inr rc \<Rightarrow> rec_Payload rc \<noteq> [])"

lemma encodes_record:
  assumes "encodes E row e"
  obtains rc where "pay_record E row (0, e) = Inr rc" "rec_validate rc = Inr ()"
proof -
  from assms obtain rc where rc: "pay_record E row (0, e) = Inr rc" "rec_Payload rc \<noteq> []"
    by (auto simp: encodes_def split: sum.splits)
  from rc(1) have "rec_AggregateType rc = ''payment'' \<and> rec_AggregateID rc = yr_ID row \<and> yr_ID row \<noteq> [] \<and>
      rec_EventType rc = pay_EventName e \<and> rec_Topic rc = ''ecommerce.payment.events.v1''"
    by (auto simp: pay_record_def events_Record_def pay_fact_def fact_validate_def Let_def split: sum.splits if_splits)
  with rc that show ?thesis by (cases e) (auto simp: rec_validate_def)
qed

lemma calm_writeEvents:
  assumes "w_sched s = []" and "length (pay_events p) \<le> 1" and "\<forall>e \<in> set (pay_events p). encodes E row e"
  obtains s' where "pay_writeEvents E p row s = (Inr (), s')" "w_sched s' = []" "w_tx s' = w_tx s"
proof (cases "pay_events p")
  case Nil
  then show ?thesis using that assms(1) by (simp add: pay_writeEvents_def pay_PullEvents_def ret_def)
next
  case (Cons e es)
  with assms(2,3) have e: "pay_events p = [e]" "encodes E row e" by simp_all
  obtain rc where rc: "pay_record E row (0, e) = Inr rc" "rec_validate rc = Inr ()"
    by (rule encodes_record [OF e(2)])
  show ?thesis
    by (rule that [of "s\<lparr>w_db := snd (sql_WriteOutbox [rc] (w_db s))\<rparr>"])
      (simp_all add: pay_writeEvents_def pay_PullEvents_def Let_def e(1) runs rc outbox_Write_def sql_no_fault assms(1)
        sql_WriteOutbox_def)
qed

lemma calm_Update:
  assumes ok: "pay_ok (ye_U E) (ye_C E) (w_db s)" and r: "r \<in> set (payments (w_db s))"
    and ap: "pay_apply res (pay_toDomain r) = Inr (True, p)" and pend: "yr_Status r = ''pending''"
    and v: "int4 (yr_Version r + 1)" and calm: "w_sched s = []"
    and M: "\<forall>e \<in> set (pay_events p). encodes E (settled_row (db_now (w_db s)) p r) e"
    and parse: "uuid_Parse (ye_U E) (yr_OrderID r) = Inr oid" "uuid_Parse (ye_U E) (yr_UserID r) = Inr uid"
  obtains p' s' where "payments_Update E p s = (Inr p', s')" "w_sched s' = []" "w_tx s' = w_tx s"
    "p' = pay_toDomain (settled_row (db_now (w_db s)) p r)"
proof -
  let ?row = "settled_row (db_now (w_db s)) p r"
  from ok r have rok: "pay_row_ok (ye_U E) (ye_C E) (w_db s) r" by (auto simp: pay_ok_def pay_rows_ok_def)
  note a = applied_row [OF ap rok]
  have cv: "clamp32 (yr_Version r) = yr_Version r" using rok by (simp add: pay_row_ok_def int4_def)
  from ok have d: "distinct (map yr_ID (payments (w_db s)))" "distinct (map yr_OrderID (unresolved (payments (w_db s))))"
    by (simp_all add: pay_ok_def pay_rows_ok_def)
  let ?P = "\<lambda>x. yr_ID x = yr_ID r \<and> yr_Version x = yr_Version r"
  have one: "one_row yr_ID ?P (payments (w_db s))" by (rule one_rowI [OF d(1), where v = "yr_ID r"]) simp
  have found: "List.find ?P (payments (w_db s)) = Some r" by (rule update_one_found [OF one r]) simp
  have "\<not> unresolved_elsewhere (yr_ID r) (yr_OrderID r) (w_db s)"
    using distinct_map_inj [OF d(2)] r pend by (fastforce simp: unresolved_elsewhere_def unresolved_def list_ex_iff)
  moreover have "known_pay_status (pay_status_text (pay_status p))"
    using a(3) by (auto simp: pay_sound_def known_pay_status_def)
  ultimately have q: "sql_SettlePayment (yr_ID r) (yr_Version r) (pay_status_text (pay_status p)) (pay_reference p) (pay_reason p) (w_db s)
      = (Inr ?row, (w_db s)\<lparr>payments := set_where ?P (\<lambda>_. ?row) (payments (w_db s))\<rparr>)"
    using v by (simp add: sql_SettlePayment_def update_one_def found settled_row_def)
  let ?s = "s\<lparr>w_db := (w_db s)\<lparr>payments := set_where ?P (\<lambda>_. ?row) (payments (w_db s))\<rparr>\<rparr>"
  have "length (pay_events p) \<le> 1" using a(9) [OF pend] by (simp split: PaymentStatus.splits)
  then obtain s' where s': "pay_writeEvents E p ?row ?s = (Inr (), s')" "w_sched s' = []" "w_tx s' = w_tx ?s"
    using calm_writeEvents [of ?s p E ?row] M calm by auto
  have ids: "pay_identifiers (ye_U E) (pay_Snapshot p) = Inr (yr_ID r, oid, uid)"
    using rok a(1,4,5) parse by (simp add: pay_identifiers_Inr pay_Snapshot_def pay_row_ok_def)
  have "payments_Update E p s = (Inr (pay_toDomain ?row), s')"
    using s'(1) unfolding payments_Update_def Let_def
    by (simp add: runs ids, simp add: runs pay_Snapshot_def a(2) cv sql_no_fault [OF calm] q)
  with that s'(2,3) show ?thesis by simp
qed

definition callback_result :: "Callback \<Rightarrow> ChargeResult" where
  "callback_result c = \<lparr>cr_Reference = cb_Reference c, cr_Status = cb_Status c, cr_FailureReason = cb_FailureReason c,
     cr_NextActionURL = []\<rparr>"

lemma find_for_update:
  assumes "pay_ok (ye_U E) (ye_C E) (w_db s)" and "r \<in> set (payments (w_db s))" and "w_sched s = []"
  shows "payments_FindByIDForUpdate (ye_U E) (yr_ID r) s = (Inr (pay_toDomain r), s)"
proof -
  from assms(1,2) have d: "distinct (map yr_ID (payments (w_db s)))" and p: "uuid_Parse (ye_U E) (yr_ID r) = Inr (yr_ID r)"
    by (auto simp: pay_ok_def pay_rows_ok_def pay_row_ok_def)
  have "List.find (\<lambda>x. yr_ID x = yr_ID r) (payments (w_db s)) = Some r"
    by (rule update_one_found [OF one_rowI [OF d, where v = "yr_ID r"] assms(2)]) simp_all
  then show ?thesis
    by (simp add: payments_FindByIDForUpdate_def runs pay_parseID_def p sql_no_fault [OF assms(3)] sql_GetPaymentForUpdate_def)
qed

lemma settle_calm:
  assumes "pay_ok (ye_U E) (ye_C E) (w_db s)" and "r \<in> set (payments (w_db s))" and "w_sched s = []" and "\<not> w_tx s"
    and st: "pay_apply res (pay_toDomain r) = Inr (moved, p)"
  shows "\<not> moved \<Longrightarrow> pay_settle E (yr_ID r) res s = (Inr p, s)"
    and "moved \<Longrightarrow> payments_Update E p (s\<lparr>w_tx := True\<rparr>) = (Inr p', s') \<Longrightarrow> w_sched s' = [] \<Longrightarrow>
      pay_settle E (yr_ID r) res s = (Inr p', s'\<lparr>w_tx := False\<rparr>)"
proof -
  let ?s = "s\<lparr>w_tx := True\<rparr>"
  have f: "payments_FindByIDForUpdate (ye_U E) (yr_ID r) ?s = (Inr (pay_toDomain r), ?s)"
    by (rule find_for_update) (use assms in simp_all)
  show "pay_settle E (yr_ID r) res s = (Inr p, s)" if "\<not> moved"
  proof -
    have "settle_tx E (yr_ID r) res ?s = (Inr p, ?s)" using that by (simp add: settle_tx_def runs f st)
    with Do_no_fault [where s = s and fn = "settle_tx E (yr_ID r) res"] assms(3,4) show ?thesis by (simp add: pay_settle_def)
  qed
  show "pay_settle E (yr_ID r) res s = (Inr p', s'\<lparr>w_tx := False\<rparr>)"
    if "moved" "payments_Update E p ?s = (Inr p', s')" "w_sched s' = []"
  proof -
    have "settle_tx E (yr_ID r) res ?s = (Inr p', s')" using that by (simp add: settle_tx_def runs f st)
    with Do_no_fault [where s = s and fn = "settle_tx E (yr_ID r) res"] assms(3,4) that(3) show ?thesis by (simp add: pay_settle_def)
  qed
qed

text \<open>C22. A genuine callback is acted on, once. When nothing fails, a callback the gateway accepts that
  reports success for a pending attempt, known or not yet known by the reference it names, settles the
  attempt: the answer and the row say so with that reference, and exactly one message is added to the
  outbox, which decodes to the success of that attempt. Delivered again it is answered the same
  way and changes nothing.\<close>

theorem callback_settles:
  assumes U: "uuid_ok (ye_U E)" and C: "codec_ok (ye_C E)"
    and ok: "pay_ok (ye_U E) (ye_C E) (w_db s)" and calm: "w_sched s = []" "\<not> w_tx s"
    and cb: "pp_ParseCallback P payload sig = Inr c" "cb_Status c = PaySucceeded" "cb_Reference c \<noteq> []"
    and r: "r \<in> set (payments (w_db s))" "yr_ID r = cb_PaymentID c" "yr_Status r = ''pending''"
      "yr_ProviderReference r \<in> {[], cb_Reference c}" "int4 (yr_Version r + 1)"
    and parse: "uuid_Parse (ye_U E) (yr_OrderID r) = Inr oid" "uuid_Parse (ye_U E) (yr_UserID r) = Inr uid"
    and M: "encodes E (r\<lparr>yr_Status := ''succeeded'', yr_ProviderReference := cb_Reference c,
        yr_UpdatedAt := db_now (w_db s), yr_Version := yr_Version r + 1\<rparr>)
      (PaymentSucceeded (yr_ID r) (yr_OrderID r) (yr_UserID r)
        \<lparr>amountMinor = yr_AmountMinor r, currency = yr_AmountCurrency r\<rparr> (cb_Reference c))"
  shows "\<exists>p s' r' b. pay_HandleProviderCallback E P payload sig s = (Inr (Some p), s') \<and>
    pay_status p = PaySucceeded \<and> pay_reference p = cb_Reference c \<and>
    r' \<in> set (payments (w_db s')) \<and> yr_ID r' = yr_ID r \<and> yr_Status r' = ''succeeded'' \<and>
    yr_ProviderReference r' = cb_Reference c \<and> outbox (w_db s') = outbox (w_db s) @ [b] \<and>
    pay_says (ye_C E) r' ''PaymentSucceeded'' b \<and>
    pay_HandleProviderCallback E P payload sig s' = (Inr (Some p), s')"
proof -
  let ?res = "callback_result c" and ?s = "s\<lparr>w_tx := True\<rparr>"
  have rok: "pay_row_ok (ye_U E) (ye_C E) (w_db s) r" using ok r(1) by (auto simp: pay_ok_def pay_rows_ok_def)
  obtain p where ap: "pay_apply ?res (pay_toDomain r) = Inr (True, p)"
      "pay_status p = PaySucceeded" "pay_reference p = cb_Reference c" "pay_reason p = yr_FailureReason r"
    using cb(2,3) r(3,4) by (auto simp: callback_result_def pay_moves PaymentStatus_of_def)
  have "settled_row (db_now (w_db s)) p r = r\<lparr>yr_Status := ''succeeded'', yr_ProviderReference := cb_Reference c,
        yr_UpdatedAt := db_now (w_db s), yr_Version := yr_Version r + 1\<rparr>"
    by (simp add: settled_row_def ap)
  moreover have "pay_events p = [PaymentSucceeded (yr_ID r) (yr_OrderID r) (yr_UserID r)
        \<lparr>amountMinor = yr_AmountMinor r, currency = yr_AmountCurrency r\<rparr> (cb_Reference c)]"
    using applied_row [OF ap(1) rok] r(3) ap(2,3) by simp
  ultimately have Mp: "\<forall>e \<in> set (pay_events p). encodes E (settled_row (db_now (w_db s)) p r) e" using M by simp
  obtain p' s1 where u: "payments_Update E p ?s = (Inr p', s1)" "w_sched s1 = []" "w_tx s1 = w_tx ?s"
      "p' = pay_toDomain (settled_row (db_now (w_db ?s)) p r)"
    by (rule calm_Update [of E ?s r ?res p]) (use Mp ok r(1,3,5) ap(1) calm parse in simp_all)
  let ?row = "settled_row (db_now (w_db s)) p r" and ?s' = "s1\<lparr>w_tx := False\<rparr>"
  have first: "pay_settle E (cb_PaymentID c) ?res s = (Inr p', ?s')"
    using settle_calm(2) [OF ok r(1) calm(1,2) ap(1) _ u(1,2)] r(2) by simp
  have d: "distinct (map yr_ID (payments (w_db ?s)))" using ok by (simp add: pay_ok_def pay_rows_ok_def)
  note a = applied_row [OF ap(1) rok]
  have cv: "clamp32 (pay_version p) = yr_Version r" using rok a(2) by (simp add: pay_row_ok_def int4_def)
  obtain i r1 row x y news k where v:
      "uuid_Parse (ye_U E) (pay_id p) = Inr i" "yr_ID r1 = i" "payments (w_db ?s) = x @ r1 # y"
      "row = settled_row (db_now (w_db ?s)) p r1" "list_all2 (pay_announces (ye_C E) row) (pay_events p) news"
      "w_db s1 = (w_db ?s)\<lparr>payments := x @ row # y, outbox := outbox (w_db ?s) @ news, outbox_next := k\<rparr>"
    by (rule payments_Update_Inr [OF C d u(1)]) (rule that; assumption)
  from v(1) a(1) rok have "i = yr_ID r" by (simp add: pay_row_ok_def)
  then have r1: "r1 = r" using v(2,3) r(1) distinct_map_inj [OF d, of r1 r] by simp
  have row: "row = ?row" using v(4) r1 by simp
  have db: "w_db ?s' = (w_db s)\<lparr>payments := x @ ?row # y, outbox := outbox (w_db s) @ news, outbox_next := k\<rparr>"
    using v(6) row by simp
  have says: "list_all2 (pay_says (ye_C E) ?row) (pay_story (yr_Status ?row)) news"
    by (rule outcome_told [OF _ a(3) refl a(1,4,5,6)]) (use v(5) row a(9) [OF r(3)] in simp)
  then obtain b where b: "news = [b]" "pay_says (ye_C E) ?row ''PaymentSucceeded'' b"
    using ap(2) by (auto simp: pay_story_def list_all2_Cons1)
  have mem: "?row \<in> set (payments (w_db ?s'))" by (simp add: db)
  have f: "payments_FindByIDForUpdate (ye_U E) (yr_ID r) ?s = (Inr (pay_toDomain r), ?s)"
    by (rule find_for_update) (use ok r(1) calm in simp_all)
  have "settle_tx E (yr_ID r) ?res ?s = (Inr p', s1)" by (simp add: settle_tx_def runs f ap(1) u(1))
  from settle_tx_good [OF C U _ this] ok have ok': "pay_ok (ye_U E) (ye_C E) (w_db ?s')" by (simp add: pay_good_def)
  have "pay_apply ?res (pay_toDomain ?row) = Inr (False, p')"
    using cb(2,3) ap(2,3) u(4) by (simp add: pay_moves callback_result_def PaymentStatus_of_def)
  from settle_calm(1) [OF ok' mem _ _ this] u(2) r(2)
  have second: "pay_settle E (cb_PaymentID c) ?res ?s' = (Inr p', ?s')" by simp
  have run: "pay_HandleProviderCallback E P payload sig t = (Inr (Some p'), t')"
    if "pay_settle E (cb_PaymentID c) ?res t = (Inr p', t')" for t t'
    using that cb(1) by (simp add: pay_HandleProviderCallback_def runs callback_result_def)
  show ?thesis
    by (intro exI [of _ p'] exI [of _ ?s'] exI [of _ ?row] exI [of _ b])
      (use run [OF first] run [OF second] mem b ap(2,3) u(4) db in \<open>simp add: PaymentStatus_of_def\<close>)
qed

lemma till_callback:
  "pp_ParseCallback (ya_P till) (CHR ''s'' # till_payment) (pv_Sign till_lib ''s3cret'' (CHR ''s'' # till_payment)) =
     Inr \<lparr>cb_PaymentID = till_payment, cb_Reference = till_ref, cb_Status = PaySucceeded, cb_FailureReason = []\<rparr>"
  by code_simp

theorem callback_settles_witness:
  "\<exists>p s' b. pay_HandleProviderCallback till_env (ya_P till) (CHR ''s'' # till_payment)
      (pv_Sign till_lib ''s3cret'' (CHR ''s'' # till_payment)) till_paying = (Inr (Some p), s') \<and>
    pay_status p = PaySucceeded \<and> outbox (w_db s') = [b]"
proof -
  obtain r where r: "payments (w_db till_paying) = [r]" "yr_ID r = till_payment" "yr_OrderID r = till_order"
      "yr_Status r = ''pending''" "yr_ProviderReference r = till_ref" "yr_AmountMinor r = 2102" "yr_Version r = 2"
    using till_paying_facts(1) by (cases "payments (w_db till_paying)") auto
  have user: "map yr_UserID (payments (w_db till_paying)) = [till_user]"
    "map yr_AmountCurrency (payments (w_db till_paying)) = [''THB'']" "db_now (w_db till_paying) = 7000" "w_sched till_paying = []"
    by code_simp+
  have tx: "\<not> w_tx till_paying"
    unfolding till_paying_def pay_exec_tx [OF till_ok] by (simp add: till_open_def)
  have "\<forall>req \<in> set [PayInitiate till_payment till_cmd]. pay_minted (ye_U (ya_E till)) req"
    using till_parts(3) by (simp add: till_def)
  from pay_history_good [OF till_ok this till_open_ok(1,2) [where faults = "[]"]]
  have ok: "pay_ok (ye_U till_env) (ye_C till_env) (w_db till_paying)"
    by (simp add: pay_good_def till_paying_def till_def)
  have enc: "encodes till_env (r\<lparr>yr_Status := ''succeeded'', yr_ProviderReference := till_ref,
        yr_UpdatedAt := db_now (w_db till_paying), yr_Version := yr_Version r + 1\<rparr>)
      (PaymentSucceeded (yr_ID r) (yr_OrderID r) (yr_UserID r)
        \<lparr>amountMinor = yr_AmountMinor r, currency = yr_AmountCurrency r\<rparr> till_ref)"
    using r user
    by (simp add: encodes_def pay_record_def events_Record_def pay_fact_def fact_validate_def till_env_def table_codec_def
        till_said_def header_def pay_money_def till_payment_def show_nat.simps [of 0])
  have ids: "uuid_Parse (ye_U till_env) (yr_OrderID r) = Inr till_order" "uuid_Parse (ye_U till_env) (yr_UserID r) = Inr till_user"
    using till_ids r user by (simp_all add: till_env_def canonical_uuids_def)
  have v: "int4 (yr_Version r + 1)" "r \<in> set (payments (w_db till_paying))" using r by (simp_all add: int4_def MaxInt32_def)
  from callback_settles [OF till_parts(1,2) ok user(4) tx till_callback _ _ v(2) _ r(4) _ v(1) ids] enc r till_paying_facts(3)
  show ?thesis by (auto simp: till_ref_def)
qed

end
