(* ===== verification/CatDomain.thy ===== *)
theory CatDomain
  imports OrdDomain
begin

text \<open>
  \<open>services/catalog/internal/domain\<close>: identifiers, SKUs, categories, attribute maps, money,
  the product aggregate with its variants and its states. \<open>uuid.Validate\<close> is a field of the
  argument \<open>U\<close> and a minted identifier is an argument. A Go map is the list of its entries in
  the order a loop over it visits them.
\<close>

subsection \<open>Errors and identifiers\<close>

definition ErrProductArchived :: err where
  "ErrProductArchived = SentinelErr ''product is archived'' ''conflict''"

definition ErrProductHasNoVariants :: err where
  "ErrProductHasNoVariants = SentinelErr ''product has no variants to sell'' ''conflict''"

definition ErrDuplicateSKU :: err where
  "ErrDuplicateSKU = SentinelErr ''sku is already used by another variant of this product'' ''conflict''"

definition ErrCurrencyMismatch :: err where
  "ErrCurrencyMismatch =
     SentinelErr ''variant price is in a different currency to the rest of the product'' ''conflict''"

definition ErrVariantNotFound :: err where
  "ErrVariantNotFound = SentinelErr ''variant does not belong to this product'' ''not_found''"

lemmas cat_sentinels = ErrProductArchived_def ErrProductHasNoVariants_def ErrDuplicateSKU_def
  ErrCurrencyMismatch_def ErrVariantNotFound_def

definition uuidCanonicalLen :: nat where "uuidCanonicalLen = 36"

definition cat_parseUUID :: "uuid_lib \<Rightarrow> string \<Rightarrow> gostring \<Rightarrow> err + gostring" where
  "cat_parseUUID U field s0 =
     (let invalid = ValidationErr field ''not a UUID'' in
      if length s0 \<noteq> uuidCanonicalLen then Inl invalid
      else let s = ToLower s0 in if \<not> uuid_Validate U s then Inl invalid else Inr s)"

definition ParseProductID :: "uuid_lib \<Rightarrow> gostring \<Rightarrow> err + gostring" where
  "ParseProductID U s = cat_parseUUID U ''product_id'' s"

definition ParseVariantID :: "uuid_lib \<Rightarrow> gostring \<Rightarrow> err + gostring" where
  "ParseVariantID U s = cat_parseUUID U ''variant_id'' s"

subsection \<open>Text\<close>

definition nameMaxLen :: nat where "nameMaxLen = 200"
definition descriptionMaxLen :: nat where "descriptionMaxLen = 4000"
definition categoryMaxLen :: nat where "categoryMaxLen = 64"

text \<open>The byte at \<open>i\<close> may stand in a slug.\<close>

definition category_byte :: "gostring \<Rightarrow> nat \<Rightarrow> bool" where
  "category_byte s i \<longleftrightarrow>
     (let c = s ! i in
      lower_letter c \<or> digit c \<or>
      ((c = CHR ''-'' \<or> c = CHR ''/'') \<and>
       \<not> (i = 0 \<or> i = length s - 1 \<or> s ! (i - 1) = CHR ''-'' \<or> s ! (i - 1) = CHR ''/'')))"

definition NewCategory :: "gostring \<Rightarrow> err + gostring" where
  "NewCategory s0 =
     (let s = ToLower (TrimSpace s0) in
      if s = [] then Inr []
      else if length s > categoryMaxLen
      then Inl (ValidationErr ''category'' ''is longer than 64 characters'')
      else if list_all (category_byte s) [0..<length s] then Inr s
      else Inl (ValidationErr ''category''
             ''must be lowercase alphanumeric segments joined by a hyphen or a slash''))"

definition validateName :: "gostring \<Rightarrow> err + gostring" where
  "validateName s =
     (let name = TrimSpace s in
      if name = [] then Inl (ValidationErr ''name'' ''is required'')
      else if length name > nameMaxLen then Inl (ValidationErr ''name'' ''is longer than 200 characters'')
      else Inr name)"

definition validateDescription :: "gostring \<Rightarrow> err + gostring" where
  "validateDescription s =
     (let description = TrimSpace s in
      if length description > descriptionMaxLen
      then Inl (ValidationErr ''description'' ''is longer than 4000 characters'')
      else Inr description)"

subsection \<open>SKUs, money and attributes\<close>

definition cat_skuMinLen :: nat where "cat_skuMinLen = 3"
definition cat_skuMaxLen :: nat where "cat_skuMaxLen = 64"

definition cat_NewSKU :: "gostring \<Rightarrow> err + gostring" where
  "cat_NewSKU s0 =
     (let s = ToUpper (TrimSpace s0);
          invalid = ValidationErr ''sku'' ''must be 3 to 64 characters of A-Z, 0-9, and hyphens''
      in if length s < cat_skuMinLen \<or> length s > cat_skuMaxLen then Inl invalid
         else if list_all (\<lambda>i. upper_alnum (s ! i) \<or> (s ! i = CHR ''-'' \<and> i > 0)) [0..<length s]
         then Inr s else Inl invalid)"

definition cat_NewCurrencyCode :: "gostring \<Rightarrow> err + gostring" where
  "cat_NewCurrencyCode = NewCurrencyCode ''price.currency_code''"

definition cat_NewMoney :: "int \<Rightarrow> gostring \<Rightarrow> err + Money" where
  "cat_NewMoney amount cur =
     (if cur = [] then Inl (ValidationErr ''price.currency_code'' ''is required'')
      else if amount < 0 then Inl (ValidationErr ''price.amount_minor'' ''is negative'')
      else Inr \<lparr>amountMinor = amount, currency = cur\<rparr>)"

type_synonym attributes = "(gostring \<times> gostring) list"

definition attributesMaxPairs :: nat where "attributesMaxPairs = 20"
definition attributeKeyMaxLen :: nat where "attributeKeyMaxLen = 32"
definition attributeValueMaxLen :: nat where "attributeValueMaxLen = 128"

definition validAttributeKey :: "gostring \<Rightarrow> bool" where
  "validAttributeKey key \<longleftrightarrow>
     \<not> (key = [] \<or> length key > attributeKeyMaxLen) \<and> lower_letter (hd key) \<and>
     list_all (\<lambda>c. lower_letter c \<or> digit c \<or> c = CHR ''_'') key"

text \<open>The loop of \<open>newAttributes\<close>: the first entry it refuses, in the order of the map.\<close>

fun refused_attribute :: "attributes \<Rightarrow> err option" where
  "refused_attribute [] = None"
| "refused_attribute ((key, value) # more') =
     (if \<not> validAttributeKey key
      then Some (ValidationErr ''attributes''
        ''has a key that is not 1 to 32 characters of a-z, 0-9, and underscores starting with a letter'')
      else if value = [] \<or> length value > attributeValueMaxLen
      then Some (ValidationErr ''attributes'' ''has a value that is empty or longer than 128 characters'')
      else refused_attribute more')"

definition newAttributes :: "attributes \<Rightarrow> err + attributes" where
  "newAttributes attrs =
     (if attrs = [] then Inr []
      else if length attrs > attributesMaxPairs
      then Inl (ValidationErr ''attributes'' ''has more than 20 entries'')
      else (case refused_attribute attrs of Some e \<Rightarrow> Inl e | None \<Rightarrow> Inr attrs))"

text \<open>\<open>nil\<close> and the empty map are the one empty list.\<close>

definition cloneAttributes :: "attributes \<Rightarrow> attributes" where
  "cloneAttributes attrs = (if attrs = [] then [] else attrs)"

subsection \<open>Products and variants\<close>

datatype ProductStatus = StatusDraft | StatusActive | StatusArchived | ProductStatusOther string

fun product_status_text :: "ProductStatus \<Rightarrow> string" where
  "product_status_text StatusDraft = ''draft''"
| "product_status_text StatusActive = ''active''"
| "product_status_text StatusArchived = ''archived''"
| "product_status_text (ProductStatusOther s) = s"

definition ProductStatus_of :: "string \<Rightarrow> ProductStatus" where
  "ProductStatus_of s =
     (if s = ''draft'' then StatusDraft else if s = ''active'' then StatusActive
      else if s = ''archived'' then StatusArchived else ProductStatusOther s)"

text \<open>The zero \<open>time.Time\<close>, which no row of the database holds.\<close>

definition zero_time :: gotime where "zero_time = -62135596800000000000"

record Variant =
  va_id :: gostring
  va_productID :: gostring
  va_sku :: gostring
  va_price :: Money
  va_attributes :: attributes
  va_createdAt :: gotime
  va_updatedAt :: gotime
  va_version :: int

record Product =
  pr_id :: gostring
  pr_name :: gostring
  pr_description :: gostring
  pr_category :: gostring
  pr_status :: ProductStatus
  pr_variants :: "Variant list"
  pr_createdAt :: gotime
  pr_updatedAt :: gotime
  pr_version :: int

definition NewProduct :: "gostring \<Rightarrow> gostring \<Rightarrow> gostring \<Rightarrow> gostring \<Rightarrow> err + Product" where
  "NewProduct new_id name0 description0 category =
     (case validateName name0 of
        Inl e \<Rightarrow> Inl e
      | Inr name \<Rightarrow>
          (case validateDescription description0 of
             Inl e \<Rightarrow> Inl e
           | Inr description \<Rightarrow>
               Inr \<lparr>pr_id = new_id, pr_name = name, pr_description = description, pr_category = category,
                    pr_status = StatusDraft, pr_variants = [], pr_createdAt = zero_time,
                    pr_updatedAt = zero_time, pr_version = 1\<rparr>))"

definition ensureWritable :: "Product \<Rightarrow> err + unit" where
  "ensureWritable p = (if pr_status p = StatusArchived then Inl ErrProductArchived else Inr ())"

fun mixed_currency :: "Money \<Rightarrow> gostring \<Rightarrow> Variant list \<Rightarrow> bool" where
  "mixed_currency price except [] = False"
| "mixed_currency price except (v # vs) =
     (if va_id v = except then mixed_currency price except vs
      else if currency (va_price v) \<noteq> currency price then True
      else mixed_currency price except vs)"

definition ensureCurrency :: "Money \<Rightarrow> gostring \<Rightarrow> Product \<Rightarrow> err + unit" where
  "ensureCurrency price except p =
     (if mixed_currency price except (pr_variants p) then Inl ErrCurrencyMismatch else Inr ())"

definition UpdateDetails :: "gostring \<Rightarrow> gostring \<Rightarrow> gostring \<Rightarrow> Product \<Rightarrow> err + Product" where
  "UpdateDetails name0 description0 category p =
     (case ensureWritable p of
        Inl e \<Rightarrow> Inl e
      | Inr _ \<Rightarrow>
          (case validateName name0 of
             Inl e \<Rightarrow> Inl e
           | Inr name \<Rightarrow>
               (case validateDescription description0 of
                  Inl e \<Rightarrow> Inl e
                | Inr description \<Rightarrow>
                    Inr (p\<lparr>pr_name := name, pr_description := description, pr_category := category\<rparr>))))"

definition AddVariant :: "gostring \<Rightarrow> gostring \<Rightarrow> Money \<Rightarrow> attributes \<Rightarrow> Product \<Rightarrow> err + Product" where
  "AddVariant new_id sku price attrs0 p =
     (case ensureWritable p of
        Inl e \<Rightarrow> Inl e
      | Inr _ \<Rightarrow>
          if sku = [] then Inl (ValidationErr ''sku'' ''is required'')
          else if money_IsZero price then Inl (ValidationErr ''price'' ''is required'')
          else (case newAttributes attrs0 of
              Inl e \<Rightarrow> Inl e
            | Inr attrs \<Rightarrow>
                if list_ex (\<lambda>v. va_sku v = sku) (pr_variants p) then Inl ErrDuplicateSKU
                else (case ensureCurrency price [] p of
                    Inl e \<Rightarrow> Inl e
                  | Inr _ \<Rightarrow> Inr (p\<lparr>pr_variants := pr_variants p @
                      [\<lparr>va_id = new_id, va_productID = pr_id p, va_sku = sku, va_price = price,
                        va_attributes = attrs, va_createdAt = zero_time, va_updatedAt = zero_time,
                        va_version = 1\<rparr>]\<rparr>))))"

text \<open>\<open>IndexFunc\<close> finds the first variant of that id, and only it is changed.\<close>

fun reprice :: "gostring \<Rightarrow> Money \<Rightarrow> attributes \<Rightarrow> Variant list \<Rightarrow> Variant list" where
  "reprice i price attrs [] = []"
| "reprice i price attrs (v # vs) =
     (if va_id v = i then v\<lparr>va_price := price, va_attributes := attrs\<rparr> # vs
      else v # reprice i price attrs vs)"

definition cat_UpdateVariant :: "gostring \<Rightarrow> Money \<Rightarrow> attributes \<Rightarrow> Product \<Rightarrow> err + Product" where
  "cat_UpdateVariant i price attrs0 p =
     (case ensureWritable p of
        Inl e \<Rightarrow> Inl e
      | Inr _ \<Rightarrow>
          if money_IsZero price then Inl (ValidationErr ''price'' ''is required'')
          else (case newAttributes attrs0 of
              Inl e \<Rightarrow> Inl e
            | Inr attrs \<Rightarrow>
                if \<not> list_ex (\<lambda>v. va_id v = i) (pr_variants p) then Inl ErrVariantNotFound
                else (case ensureCurrency price i p of
                    Inl e \<Rightarrow> Inl e
                  | Inr _ \<Rightarrow> Inr (p\<lparr>pr_variants := reprice i price attrs (pr_variants p)\<rparr>))))"

definition Publish :: "Product \<Rightarrow> err + Product" where
  "Publish p =
     (case ensureWritable p of
        Inl e \<Rightarrow> Inl e
      | Inr _ \<Rightarrow>
          if length (pr_variants p) = 0 then Inl ErrProductHasNoVariants
          else Inr (p\<lparr>pr_status := StatusActive\<rparr>))"

definition Archive :: "Product \<Rightarrow> Product" where
  "Archive p = p\<lparr>pr_status := StatusArchived\<rparr>"

subsection \<open>Snapshots\<close>

record VariantSnapshot =
  vs_ID :: gostring
  vs_ProductID :: gostring
  vs_SKU :: gostring
  vs_Price :: Money
  vs_Attributes :: attributes
  vs_CreatedAt :: gotime
  vs_UpdatedAt :: gotime
  vs_Version :: int

record ProductSnapshot =
  ps_ID :: gostring
  ps_Name :: gostring
  ps_Description :: gostring
  ps_Category :: gostring
  ps_Status :: ProductStatus
  ps_Variants :: "VariantSnapshot list"
  ps_CreatedAt :: gotime
  ps_UpdatedAt :: gotime
  ps_Version :: int

definition ReconstituteVariant :: "VariantSnapshot \<Rightarrow> Variant" where
  "ReconstituteVariant s =
     \<lparr>va_id = vs_ID s, va_productID = vs_ProductID s, va_sku = vs_SKU s, va_price = vs_Price s,
      va_attributes = vs_Attributes s, va_createdAt = vs_CreatedAt s, va_updatedAt = vs_UpdatedAt s,
      va_version = vs_Version s\<rparr>"

definition va_Snapshot :: "Variant \<Rightarrow> VariantSnapshot" where
  "va_Snapshot v =
     \<lparr>vs_ID = va_id v, vs_ProductID = va_productID v, vs_SKU = va_sku v, vs_Price = va_price v,
      vs_Attributes = cloneAttributes (va_attributes v), vs_CreatedAt = va_createdAt v,
      vs_UpdatedAt = va_updatedAt v, vs_Version = va_version v\<rparr>"

definition ReconstituteProduct :: "ProductSnapshot \<Rightarrow> Product" where
  "ReconstituteProduct s =
     \<lparr>pr_id = ps_ID s, pr_name = ps_Name s, pr_description = ps_Description s, pr_category = ps_Category s,
      pr_status = ps_Status s, pr_variants = map ReconstituteVariant (ps_Variants s),
      pr_createdAt = ps_CreatedAt s, pr_updatedAt = ps_UpdatedAt s, pr_version = ps_Version s\<rparr>"

definition pr_Snapshot :: "Product \<Rightarrow> ProductSnapshot" where
  "pr_Snapshot p =
     \<lparr>ps_ID = pr_id p, ps_Name = pr_name p, ps_Description = pr_description p, ps_Category = pr_category p,
      ps_Status = pr_status p, ps_Variants = map va_Snapshot (pr_variants p), ps_CreatedAt = pr_createdAt p,
      ps_UpdatedAt = pr_updatedAt p, ps_Version = pr_version p\<rparr>"

subsection \<open>What the methods keep\<close>

text \<open>A variant that is the same unit: what orders and carts have written down of it, and what the
  repository finds it by.\<close>

definition same_unit :: "Variant \<Rightarrow> Variant \<Rightarrow> bool" where
  "same_unit v w \<longleftrightarrow> va_id w = va_id v \<and> va_productID w = va_productID v \<and> va_sku w = va_sku v \<and>
     va_createdAt w = va_createdAt v \<and> va_version w = va_version v"

definition new_unit :: "Product \<Rightarrow> Variant \<Rightarrow> bool" where
  "new_unit p v \<longleftrightarrow> va_productID v = pr_id p \<and> va_createdAt v = zero_time \<and> va_sku v \<noteq> []"

definition sound_price :: "Money \<Rightarrow> bool" where
  "sound_price m \<longleftrightarrow> 0 \<le> amountMinor m \<and> length (currency m) = 3 \<and> list_all is_upper (currency m)"

text \<open>One currency per product, and nothing on sale that has nothing to sell.\<close>

definition sound_product :: "Product \<Rightarrow> bool" where
  "sound_product p \<longleftrightarrow> (\<exists>cur. \<forall>v \<in> set (pr_variants p). currency (va_price v) = cur) \<and>
     (pr_status p = StatusActive \<longrightarrow> pr_variants p \<noteq> [])"

definition further :: "ProductStatus \<Rightarrow> ProductStatus \<Rightarrow> bool" where
  "further a b \<longleftrightarrow> a = b \<or> b = StatusArchived \<or> (a \<noteq> StatusArchived \<and> b = StatusActive)"

text \<open>What every change of a stored product does: the units it has stay, new ones follow.\<close>

definition edits :: "Product \<Rightarrow> Product \<Rightarrow> bool" where
  "edits p q \<longleftrightarrow> pr_id q = pr_id p \<and> pr_createdAt q = pr_createdAt p \<and> pr_version q = pr_version p \<and>
     further (pr_status p) (pr_status q) \<and>
     (\<exists>olds news. pr_variants q = olds @ news \<and> list_all2 same_unit (pr_variants p) olds \<and>
        (\<forall>v \<in> set news. new_unit p v))"

lemma same_unit_refl [simp]: "same_unit v v"
  by (simp add: same_unit_def)

lemma same_units_refl [simp]: "list_all2 same_unit vs vs"
  by (simp add: list_all2_same)

lemma edits_same_variants:
  "pr_id q = pr_id p \<Longrightarrow> pr_createdAt q = pr_createdAt p \<Longrightarrow> pr_version q = pr_version p \<Longrightarrow>
   further (pr_status p) (pr_status q) \<Longrightarrow> pr_variants q = pr_variants p \<Longrightarrow> edits p q"
  unfolding edits_def
  by (intro conjI exI [of _ "pr_variants p"] exI [of _ "[]"]) auto

lemma mixed_currency_iff:
  "mixed_currency price except vs \<longleftrightarrow> (\<exists>v \<in> set vs. va_id v \<noteq> except \<and> currency (va_price v) \<noteq> currency price)"
  by (induction vs) auto

lemma ensureCurrency_Inr:
  "ensureCurrency price except p = Inr u \<longleftrightarrow>
     (\<forall>v \<in> set (pr_variants p). va_id v \<noteq> except \<longrightarrow> currency (va_price v) = currency price)"
  by (auto simp: ensureCurrency_def mixed_currency_iff)

lemma ensureWritable_Inr: "ensureWritable p = Inr u \<longleftrightarrow> pr_status p \<noteq> StatusArchived"
  by (auto simp: ensureWritable_def)

lemma newAttributes_Inr: "newAttributes a = Inr b \<Longrightarrow> b = a"
  by (auto simp: newAttributes_def split: if_splits option.splits)

lemma reprice_units: "list_all2 same_unit vs (reprice i price attrs vs)"
proof (induction vs)
  case (Cons v vs)
  have "same_unit v (v\<lparr>va_price := price, va_attributes := attrs\<rparr>)" by (simp add: same_unit_def)
  with Cons show ?case by simp
qed simp

lemma reprice_split:
  assumes "list_ex (\<lambda>v. va_id v = i) vs"
  obtains a v b where "vs = a @ v # b" "va_id v = i" "\<forall>x \<in> set a. va_id x \<noteq> i"
    "reprice i price attrs vs = a @ v\<lparr>va_price := price, va_attributes := attrs\<rparr> # b"
  using assms
proof (induction vs arbitrary: thesis)
  case (Cons x vs)
  show ?case
  proof (cases "va_id x = i")
    case True
    with Cons.prems(1) [of "[]" x vs] show ?thesis by simp
  next
    case False
    with Cons.prems(2) have "list_ex (\<lambda>v. va_id v = i) vs" by simp
    from Cons.IH [OF _ this] obtain a v b where "vs = a @ v # b" "va_id v = i" "\<forall>x \<in> set a. va_id x \<noteq> i"
        "reprice i price attrs vs = a @ v\<lparr>va_price := price, va_attributes := attrs\<rparr> # b" by blast
    with False Cons.prems(1) [of "x # a" v b] show ?thesis by simp
  qed
qed simp

lemma UpdateDetails_Inr:
  assumes "UpdateDetails name0 description0 category p = Inr q"
  shows "pr_status p \<noteq> StatusArchived"
    "\<exists>name description. validateName name0 = Inr name \<and> validateDescription description0 = Inr description \<and>
       q = p\<lparr>pr_name := name, pr_description := description, pr_category := category\<rparr>"
  using assms by (auto simp: UpdateDetails_def ensureWritable_Inr split: sum.splits)

lemma AddVariant_Inr:
  assumes "AddVariant new_id sku price attrs p = Inr q"
  shows "pr_status p \<noteq> StatusArchived" "sku \<noteq> []" "\<not> money_IsZero price" "newAttributes attrs = Inr attrs"
    "sku \<notin> va_sku ` set (pr_variants p)"
    "\<forall>v \<in> set (pr_variants p). va_id v \<noteq> [] \<longrightarrow> currency (va_price v) = currency price"
    "q = p\<lparr>pr_variants := pr_variants p @
      [\<lparr>va_id = new_id, va_productID = pr_id p, va_sku = sku, va_price = price, va_attributes = attrs,
        va_createdAt = zero_time, va_updatedAt = zero_time, va_version = 1\<rparr>]\<rparr>"
  using assms
  by (auto simp: AddVariant_def ensureWritable_Inr ensureCurrency_Inr list_ex_iff
      split: sum.splits if_splits dest: newAttributes_Inr)

lemma cat_UpdateVariant_Inr:
  assumes "cat_UpdateVariant i price attrs p = Inr q"
  shows "pr_status p \<noteq> StatusArchived" "\<not> money_IsZero price" "newAttributes attrs = Inr attrs"
    "list_ex (\<lambda>v. va_id v = i) (pr_variants p)"
    "\<forall>v \<in> set (pr_variants p). va_id v \<noteq> i \<longrightarrow> currency (va_price v) = currency price"
    "q = p\<lparr>pr_variants := reprice i price attrs (pr_variants p)\<rparr>"
  using assms
  by (auto simp: cat_UpdateVariant_def ensureWritable_Inr ensureCurrency_Inr
      split: sum.splits if_splits dest: newAttributes_Inr)

lemma Publish_Inr:
  "Publish p = Inr q \<longleftrightarrow> pr_status p \<noteq> StatusArchived \<and> pr_variants p \<noteq> [] \<and> q = p\<lparr>pr_status := StatusActive\<rparr>"
  by (auto simp: Publish_def ensureWritable_Inr split: sum.splits if_splits) (simp_all add: ensureWritable_def)

lemma change_edits:
  "UpdateDetails name description category p = Inr q \<Longrightarrow> edits p q"
  "AddVariant new_id sku price attrs p = Inr q \<Longrightarrow> edits p q"
  "cat_UpdateVariant i price attrs p = Inr q \<Longrightarrow> edits p q"
  "Publish p = Inr q \<Longrightarrow> edits p q"
  "edits p (Archive p)"
proof -
  show "UpdateDetails name description category p = Inr q \<Longrightarrow> edits p q"
    by (drule UpdateDetails_Inr(2)) (auto intro!: edits_same_variants simp: further_def)
  show "Publish p = Inr q \<Longrightarrow> edits p q" "edits p (Archive p)"
    by (auto intro!: edits_same_variants simp: Publish_Inr further_def Archive_def)
  show "AddVariant new_id sku price attrs p = Inr q \<Longrightarrow> edits p q"
  proof -
    assume "AddVariant new_id sku price attrs p = Inr q"
    note a = AddVariant_Inr [OF this]
    let ?v = "\<lparr>va_id = new_id, va_productID = pr_id p, va_sku = sku, va_price = price, va_attributes = attrs,
        va_createdAt = zero_time, va_updatedAt = zero_time, va_version = 1\<rparr>"
    have "new_unit p ?v" using a(2) by (simp add: new_unit_def)
    then have "\<exists>olds news. pr_variants q = olds @ news \<and> list_all2 same_unit (pr_variants p) olds \<and>
        (\<forall>v \<in> set news. new_unit p v)"
      unfolding a(7) by (intro exI [of _ "pr_variants p"] exI [of _ "[?v]"]) simp
    then show "edits p q" unfolding edits_def by (simp add: a(7) further_def)
  qed
  show "cat_UpdateVariant i price attrs p = Inr q \<Longrightarrow> edits p q"
    unfolding edits_def
    by (drule cat_UpdateVariant_Inr(6), intro conjI exI [of _ "reprice i price attrs (pr_variants p)"] exI [of _ "[]"])
      (auto simp: further_def reprice_units)
qed

text \<open>The ids of stored variants are never empty, so a new price is held against all of them.\<close>

lemma AddVariant_sound:
  assumes "AddVariant new_id sku price attrs p = Inr q" and ids: "\<forall>v \<in> set (pr_variants p). va_id v \<noteq> []"
  shows "sound_product q"
proof -
  note a = AddVariant_Inr [OF assms(1)]
  have "\<forall>v \<in> set (pr_variants q). currency (va_price v) = currency price" using a(6,7) ids by simp
  moreover have "pr_variants q \<noteq> []" using a(7) by simp
  ultimately show "sound_product q" unfolding sound_product_def by blast
qed

lemma change_sound:
  assumes "sound_product p" and ids: "\<forall>v \<in> set (pr_variants p). va_id v \<noteq> []" "distinct (map va_id (pr_variants p))"
  shows "UpdateDetails name description category p = Inr q \<Longrightarrow> sound_product q"
    "AddVariant new_id sku price attrs p = Inr q \<Longrightarrow> sound_product q"
    "cat_UpdateVariant i price attrs p = Inr q \<Longrightarrow> sound_product q"
    "Publish p = Inr q \<Longrightarrow> sound_product q"
    "sound_product (Archive p)"
proof -
  show "UpdateDetails name description category p = Inr q \<Longrightarrow> sound_product q"
    using assms(1) by (auto dest!: UpdateDetails_Inr(2) simp: sound_product_def)
  show "Publish p = Inr q \<Longrightarrow> sound_product q" "sound_product (Archive p)"
    using assms(1) by (auto simp: sound_product_def Publish_Inr Archive_def)
  show "AddVariant new_id sku price attrs p = Inr q \<Longrightarrow> sound_product q"
    using AddVariant_sound ids(1) by blast
  show "cat_UpdateVariant i price attrs p = Inr q \<Longrightarrow> sound_product q"
  proof -
    assume "cat_UpdateVariant i price attrs p = Inr q"
    note a = cat_UpdateVariant_Inr [OF this]
    obtain x v y where s: "pr_variants p = x @ v # y" "va_id v = i"
      "reprice i price attrs (pr_variants p) = x @ v\<lparr>va_price := price, va_attributes := attrs\<rparr> # y"
      by (rule reprice_split [OF a(4), of price attrs]) (rule that; assumption)
    with ids(2) have "\<forall>w \<in> set x \<union> set y. va_id w \<noteq> i" by (auto simp: image_iff)
    with a(5) s(1) have "\<forall>w \<in> set x \<union> set y. currency (va_price w) = currency price" by auto
    then have "\<forall>w \<in> set (pr_variants q). currency (va_price w) = currency price" using a(6) s(3) by simp
    moreover have "pr_variants q \<noteq> []" using a(6) s(3) by simp
    ultimately show "sound_product q" unfolding sound_product_def by blast
  qed
qed

end
