(* ===== verification/CatStore.thy ===== *)
theory CatStore
  imports CatDomain OrdStore
begin

text \<open>
  \<open>services/catalog/internal/adapter/out/postgres\<close>: the tables of the catalog database with
  the constraints its migrations declare, one function per SQL statement, and the repository.
  JSON and PostgreSQL's \<open>jsonb\<close> are the fields of \<open>attr_lib\<close>; text reaches the statements as
  valid UTF-8, which the transport checks, and PostgreSQL refuses a zero byte in it.
\<close>

subsection \<open>Tables\<close>

record product_row =
  pw_ID :: gostring
  pw_Name :: gostring
  pw_Description :: gostring
  pw_Category :: gostring
  pw_Status :: string
  pw_CreatedAt :: gotime
  pw_UpdatedAt :: gotime
  pw_Version :: int

record variant_row =
  vw_ID :: gostring
  vw_ProductID :: gostring
  vw_Sku :: gostring
  vw_PriceAmountMinor :: int
  vw_PriceCurrency :: gostring
  vw_Attributes :: gostring
  vw_CreatedAt :: gotime
  vw_UpdatedAt :: gotime
  vw_Version :: int

text \<open>\<open>cat_scan\<close> is the order in which rows come that no clause orders.\<close>

record cat_db = msg_db +
  products :: "product_row list"
  variants :: "variant_row list"
  cat_collate :: "gostring \<Rightarrow> gostring"
  cat_scan :: "product_row list \<Rightarrow> product_row list"

type_synonym 'a cat_stmt = "cat_db \<Rightarrow> (err + 'a) \<times> cat_db"

definition known_product_status :: "string \<Rightarrow> bool" where
  "known_product_status s \<longleftrightarrow> s \<in> {''draft'', ''active'', ''archived''}"

definition pg_text :: "gostring \<Rightarrow> bool" where
  "pg_text s \<longleftrightarrow> CHR 0x00 \<notin> set s"

definition bad_text :: err where
  "bad_text = PgErr ''22021'' [] ''invalid byte sequence for encoding UTF8: 0x00''"

text \<open>The \<open>CHECK\<close>s of a product, its description has none.\<close>

definition product_checks :: "gostring \<Rightarrow> gostring \<Rightarrow> string \<Rightarrow> err option" where
  "product_checks name category status =
     (if \<not> list_ex (\<lambda>c. c \<noteq> CHR '' '') name then Some (check_violation ''products_name_check'')
      else if ToLower category \<noteq> category then Some (check_violation ''products_category_check'')
      else if \<not> known_product_status status then Some (check_violation ''products_status_check'')
      else None)"

subsection \<open>JSON\<close>

text \<open>\<open>al_jsonb\<close>: what the column answers for the JSON text it was given.\<close>

record attr_lib =
  al_Marshal :: "attributes \<Rightarrow> gostring"
  al_Unmarshal :: "gostring \<Rightarrow> err + attributes"
  al_jsonb :: "gostring \<Rightarrow> err + gostring"

record cat_env =
  ce_U :: uuid_lib
  ce_J :: attr_lib

definition emptyAttributes :: gostring where "emptyAttributes = ''{}''"

definition marshalAttributes :: "attr_lib \<Rightarrow> attributes \<Rightarrow> gostring" where
  "marshalAttributes J attrs = (if attrs = [] then emptyAttributes else al_Marshal J attrs)"

definition unmarshalAttributes :: "attr_lib \<Rightarrow> gostring \<Rightarrow> attributes" where
  "unmarshalAttributes J encoded =
     (if encoded = [] then []
      else (case al_Unmarshal J encoded of
              Inl _ \<Rightarrow> []
            | Inr attrs \<Rightarrow> if attrs = [] then [] else attrs))"

text \<open>What is relied on: a map of texts in valid UTF-8 that the column accepts comes back as the same
  map, its entries perhaps in another order, and the refusals are not constraint violations. A Go
  map holds a key once, and protobuf delivers no other texts; of others \<open>encoding/json\<close> replaces the
  invalid bytes.\<close>

definition text_map :: "attributes \<Rightarrow> bool" where
  "text_map a \<longleftrightarrow> distinct (map fst a) \<and> (\<forall>(k, x) \<in> set a. valid_utf8 k \<and> valid_utf8 x)"

lemma text_map_Nil [simp]: "text_map []"
  by (simp add: text_map_def)

definition same_map :: "attributes \<Rightarrow> attributes \<Rightarrow> bool" where
  "same_map a b \<longleftrightarrow> map_of a = map_of b"

definition attr_lib_ok :: "attr_lib \<Rightarrow> bool" where
  "attr_lib_ok J \<longleftrightarrow>
     (\<forall>attrs t. text_map attrs \<longrightarrow> al_jsonb J (marshalAttributes J attrs) = Inr t \<longrightarrow>
        same_map (unmarshalAttributes J t) attrs \<and> text_map (unmarshalAttributes J t)) \<and>
     (\<forall>s e. al_jsonb J s = Inl e \<longrightarrow> (\<exists>state m. e = PgErr state [] m))"

subsection \<open>Statements on products\<close>

definition sql_CreateProduct ::
  "gostring \<Rightarrow> gostring \<Rightarrow> gostring \<Rightarrow> gostring \<Rightarrow> string \<Rightarrow> product_row cat_stmt" where
  "sql_CreateProduct uid name description category status db =
     (if \<not> (pg_text name \<and> pg_text description) then (Inl bad_text, db)
      else case product_checks name category status of
        Some e \<Rightarrow> (Inl e, db)
      | None \<Rightarrow>
          if uid \<in> set (map pw_ID (products db)) then (Inl (unique_violation ''products_pkey''), db)
          else let r = \<lparr>pw_ID = uid, pw_Name = name, pw_Description = description, pw_Category = category,
                        pw_Status = status, pw_CreatedAt = db_now db, pw_UpdatedAt = db_now db, pw_Version = 1\<rparr>
               in (Inr r, db\<lparr>products := products db @ [r]\<rparr>))"

definition sql_GetProductByID :: "gostring \<Rightarrow> product_row cat_stmt" where
  "sql_GetProductByID uid db =
     (case List.find (\<lambda>r. pw_ID r = uid) (products db) of
        None \<Rightarrow> (Inl NoRows, db) | Some r \<Rightarrow> (Inr r, db))"

definition sql_GetProductsByIDs :: "gostring list \<Rightarrow> product_row list cat_stmt" where
  "sql_GetProductsByIDs ids db =
     (Inr (cat_scan db (filter (\<lambda>r. pw_ID r \<in> set ids) (products db))), db)"

text \<open>The row comparison \<open>(created_at, id) < (cursor)\<close>, and no cursor as the largest pair.\<close>

definition before_product_cursor :: "(gotime \<times> gostring) option \<Rightarrow> product_row \<Rightarrow> bool" where
  "before_product_cursor cur r =
     (case cur of None \<Rightarrow> True
      | Some (t, i) \<Rightarrow> pw_CreatedAt r < pg_time t \<or> (pw_CreatedAt r = pg_time t \<and> pw_ID r < i))"

definition sql_ListProducts ::
  "string \<Rightarrow> (gotime \<times> gostring) option \<Rightarrow> int \<Rightarrow> product_row list cat_stmt" where
  "sql_ListProducts status cur row_limit db =
     (Inr (take (nat row_limit) (rev (sort_key pw_CreatedAt (sort_key pw_ID
        (filter (\<lambda>r. pw_Status r = status \<and> before_product_cursor cur r) (products db)))))), db)"

definition sql_ListProductsInCategory ::
  "string \<Rightarrow> gostring \<Rightarrow> (gotime \<times> gostring) option \<Rightarrow> int \<Rightarrow> product_row list cat_stmt" where
  "sql_ListProductsInCategory status category cur row_limit db =
     (Inr (take (nat row_limit) (rev (sort_key pw_CreatedAt (sort_key pw_ID
        (filter (\<lambda>r. pw_Status r = status \<and> pw_Category r = category \<and> before_product_cursor cur r)
          (products db)))))), db)"

definition sql_UpdateProduct ::
  "gostring \<Rightarrow> gostring \<Rightarrow> gostring \<Rightarrow> gostring \<Rightarrow> string \<Rightarrow> int \<Rightarrow> product_row cat_stmt" where
  "sql_UpdateProduct uid name description category status version db =
     (if \<not> (pg_text name \<and> pg_text description) then (Inl bad_text, db)
      else case update_one (\<lambda>r. pw_ID r = uid \<and> pw_Version r = version)
        (\<lambda>r. if \<not> int4 (pw_Version r + 1) then Inl out_of_range
             else (case product_checks name category status of
                Some e \<Rightarrow> Inl e
              | None \<Rightarrow> Inr (r\<lparr>pw_Name := name, pw_Description := description, pw_Category := category,
                   pw_Status := status, pw_UpdatedAt := db_now db, pw_Version := pw_Version r + 1\<rparr>)))
        (products db) of
        Inl e \<Rightarrow> (Inl e, db)
      | Inr (r, t) \<Rightarrow> (Inr r, db\<lparr>products := t\<rparr>))"

subsection \<open>Statements on variants\<close>

definition cat_skuConstraint :: string where "cat_skuConstraint = ''variants_sku_key''"

definition price_checks :: "int \<Rightarrow> gostring \<Rightarrow> err option" where
  "price_checks amount cur =
     (if amount < 0 then Some (check_violation ''variants_price_amount_minor_check'')
      else if \<not> currency_text cur then Some (check_violation ''variants_price_currency_check'')
      else None)"

definition sql_CreateVariant ::
  "attr_lib \<Rightarrow> gostring \<Rightarrow> gostring \<Rightarrow> gostring \<Rightarrow> int \<Rightarrow> gostring \<Rightarrow> gostring \<Rightarrow> variant_row cat_stmt" where
  "sql_CreateVariant J uid productID sku amount cur attrs db =
     (case al_jsonb J attrs of
        Inl e \<Rightarrow> (Inl e, db)
      | Inr stored \<Rightarrow>
          if ToUpper sku \<noteq> sku then (Inl (check_violation ''variants_sku_check''), db)
          else (case price_checks amount cur of
              Some e \<Rightarrow> (Inl e, db)
            | None \<Rightarrow>
                if uid \<in> set (map vw_ID (variants db)) then (Inl (unique_violation ''variants_pkey''), db)
                else if sku \<in> set (map vw_Sku (variants db)) then (Inl (unique_violation cat_skuConstraint), db)
                else if productID \<notin> set (map pw_ID (products db))
                then (Inl (fk_violation ''variants_product_id_fkey''), db)
                else let r = \<lparr>vw_ID = uid, vw_ProductID = productID, vw_Sku = sku, vw_PriceAmountMinor = amount,
                              vw_PriceCurrency = cur, vw_Attributes = stored, vw_CreatedAt = db_now db,
                              vw_UpdatedAt = db_now db, vw_Version = 1\<rparr>
                     in (Inr r, db\<lparr>variants := variants db @ [r]\<rparr>)))"

definition sql_GetVariantsByProductIDs :: "gostring list \<Rightarrow> variant_row list cat_stmt" where
  "sql_GetVariantsByProductIDs ids db =
     (Inr (sort_key vw_CreatedAt (sort_key vw_ID
        (filter (\<lambda>r. vw_ProductID r \<in> set ids) (variants db)))), db)"

definition sql_GetVariantsBySKUs :: "gostring list \<Rightarrow> string \<Rightarrow> variant_row list cat_stmt" where
  "sql_GetVariantsBySKUs skus status db =
     (Inr (sort_key (\<lambda>v. cat_collate db (vw_Sku v))
        (filter (\<lambda>v. vw_Sku v \<in> set skus \<and>
            list_ex (\<lambda>p. pw_ID p = vw_ProductID v \<and> pw_Status p = status) (products db))
          (variants db))), db)"

definition sql_UpdateVariant ::
  "attr_lib \<Rightarrow> gostring \<Rightarrow> int \<Rightarrow> gostring \<Rightarrow> gostring \<Rightarrow> int \<Rightarrow> variant_row cat_stmt" where
  "sql_UpdateVariant J uid amount cur attrs version db =
     (case al_jsonb J attrs of
        Inl e \<Rightarrow> (Inl e, db)
      | Inr stored \<Rightarrow>
          (case update_one (\<lambda>r. vw_ID r = uid \<and> vw_Version r = version)
             (\<lambda>r. if \<not> int4 (vw_Version r + 1) then Inl out_of_range
                  else (case price_checks amount cur of
                     Some e \<Rightarrow> Inl e
                   | None \<Rightarrow> Inr (r\<lparr>vw_PriceAmountMinor := amount, vw_PriceCurrency := cur,
                        vw_Attributes := stored, vw_UpdatedAt := db_now db, vw_Version := vw_Version r + 1\<rparr>)))
             (variants db) of
             Inl e \<Rightarrow> (Inl e, db)
           | Inr (r, t) \<Rightarrow> (Inr r, db\<lparr>variants := t\<rparr>)))"

subsection \<open>Rows and aggregates\<close>

type_synonym ('w, 'a) cat_op = "(cat_db, 'w, 'a) op"

definition cat_parseID :: "uuid_lib \<Rightarrow> gostring \<Rightarrow> err + gostring" where
  "cat_parseID U s =
     (case uuid_Parse U s of Inl e \<Rightarrow> Inl (wrap e KindInternal ''parse product id'') | Inr u \<Rightarrow> Inr u)"

definition parseVariantID :: "uuid_lib \<Rightarrow> gostring \<Rightarrow> err + gostring" where
  "parseVariantID U s =
     (case uuid_Parse U s of Inl e \<Rightarrow> Inl (wrap e KindInternal ''parse variant id'') | Inr u \<Rightarrow> Inr u)"

definition variant_snapshot :: "attr_lib \<Rightarrow> variant_row \<Rightarrow> VariantSnapshot" where
  "variant_snapshot J row =
     \<lparr>vs_ID = vw_ID row, vs_ProductID = vw_ProductID row, vs_SKU = vw_Sku row,
      vs_Price = \<lparr>amountMinor = vw_PriceAmountMinor row, currency = vw_PriceCurrency row\<rparr>,
      vs_Attributes = unmarshalAttributes J (vw_Attributes row), vs_CreatedAt = vw_CreatedAt row,
      vs_UpdatedAt = vw_UpdatedAt row, vs_Version = vw_Version row\<rparr>"

definition toDomainVariant :: "attr_lib \<Rightarrow> variant_row \<Rightarrow> Variant" where
  "toDomainVariant J row = ReconstituteVariant (variant_snapshot J row)"

definition cat_toDomain :: "attr_lib \<Rightarrow> product_row \<Rightarrow> variant_row list \<Rightarrow> Product" where
  "cat_toDomain J row vs =
     ReconstituteProduct
       \<lparr>ps_ID = pw_ID row, ps_Name = pw_Name row, ps_Description = pw_Description row,
        ps_Category = pw_Category row, ps_Status = ProductStatus_of (pw_Status row),
        ps_Variants = map (variant_snapshot J) vs, ps_CreatedAt = pw_CreatedAt row,
        ps_UpdatedAt = pw_UpdatedAt row, ps_Version = pw_Version row\<rparr>"

subsection \<open>The repository\<close>

definition insertVariant :: "cat_env \<Rightarrow> VariantSnapshot \<Rightarrow> ('w, variant_row) cat_op" where
  "insertVariant E v =
     andThen (pure_op (parseVariantID (ce_U E) (vs_ID v))) (\<lambda>uid.
     andThen (pure_op (cat_parseID (ce_U E) (vs_ProductID v))) (\<lambda>productID.
     withResult (sql (sql_CreateVariant (ce_J E) uid productID (vs_SKU v) (amountMinor (vs_Price v))
         (currency (vs_Price v)) (marshalAttributes (ce_J E) (vs_Attributes v)))) (\<lambda>r. case r of
        Inr row \<Rightarrow> ret row
      | Inl e \<Rightarrow>
          if isConstraintViolation e cat_skuConstraint
          then fail (WithMetadata (WithReason (New KindConflict ''sku is already in use'') ''SKU_ALREADY_EXISTS'')
                 [(''sku'', vs_SKU v)])
          else fail (wrap e KindInternal (''create variant '' @ vs_SKU v)))))"

definition writeVariant :: "cat_env \<Rightarrow> VariantSnapshot \<Rightarrow> ('w, variant_row) cat_op" where
  "writeVariant E v =
     (if vs_CreatedAt v = zero_time then insertVariant E v
      else andThen (pure_op (parseVariantID (ce_U E) (vs_ID v))) (\<lambda>uid.
        withResult (sql (sql_UpdateVariant (ce_J E) uid (amountMinor (vs_Price v)) (currency (vs_Price v))
            (marshalAttributes (ce_J E) (vs_Attributes v)) (clamp32 (vs_Version v)))) (\<lambda>r. case r of
           Inr row \<Rightarrow> ret row
         | Inl e \<Rightarrow>
             if is_NoRows e
             then fail (WithReason (New KindConflict (''variant '' @ vs_ID v @ '' was modified concurrently''))
                    ''VARIANT_MODIFIED'')
             else fail (wrap e KindInternal (''update variant '' @ vs_ID v)))))"

definition products_Create :: "cat_env \<Rightarrow> Product \<Rightarrow> ('w, Product) cat_op" where
  "products_Create E p =
     (let snap = pr_Snapshot p in
      andThen (pure_op (cat_parseID (ce_U E) (ps_ID snap))) (\<lambda>uid.
      andThen (mapErr (\<lambda>e. wrap e KindInternal ''create product'')
          (sql (sql_CreateProduct uid (ps_Name snap) (ps_Description snap) (ps_Category snap)
             (product_status_text (ps_Status snap))))) (\<lambda>row.
      andThen (map_each (insertVariant E) (ps_Variants snap)) (\<lambda>vs.
        ret (cat_toDomain (ce_J E) row vs)))))"

definition products_Update :: "cat_env \<Rightarrow> Product \<Rightarrow> ('w, Product) cat_op" where
  "products_Update E p =
     (let snap = pr_Snapshot p in
      andThen (pure_op (cat_parseID (ce_U E) (ps_ID snap))) (\<lambda>uid.
      withResult (sql (sql_UpdateProduct uid (ps_Name snap) (ps_Description snap) (ps_Category snap)
          (product_status_text (ps_Status snap)) (clamp32 (ps_Version snap)))) (\<lambda>r. case r of
         Inl e \<Rightarrow>
           if is_NoRows e
           then fail (WithReason (New KindConflict (''product '' @ ps_ID snap @ '' was modified concurrently''))
                  ''PRODUCT_MODIFIED'')
           else fail (wrap e KindInternal (''update product '' @ ps_ID snap))
       | Inr row \<Rightarrow>
           andThen (map_each (writeVariant E) (ps_Variants snap)) (\<lambda>vs.
             ret (cat_toDomain (ce_J E) row vs)))))"

text \<open>The Go map from product to variants, in the order of the rows.\<close>

definition withVariants :: "cat_env \<Rightarrow> product_row list \<Rightarrow> ('w, Product list) cat_op" where
  "withVariants E rows =
     (if rows = [] then ret []
      else andThen (mapErr (\<lambda>e. wrap e KindInternal
             (''get variants for '' @ show_nat (length rows) @ '' product(s)''))
             (sql (sql_GetVariantsByProductIDs (map pw_ID rows))))
        (\<lambda>vs. ret (map (\<lambda>row. cat_toDomain (ce_J E) row (filter (\<lambda>v. vw_ProductID v = pw_ID row) vs)) rows)))"

definition products_FindByID :: "cat_env \<Rightarrow> gostring \<Rightarrow> ('w, Product) cat_op" where
  "products_FindByID E i =
     andThen (pure_op (cat_parseID (ce_U E) i)) (\<lambda>productID.
     withResult (sql (sql_GetProductByID productID)) (\<lambda>r. case r of
        Inl e \<Rightarrow>
          if is_NoRows e
          then fail (WithReason (New KindNotFound (''product '' @ i @ '' not found'')) ''PRODUCT_NOT_FOUND'')
          else fail (wrap e KindInternal (''get product '' @ i))
      | Inr row \<Rightarrow> andThen (withVariants E [row]) (\<lambda>ps. ret (hd ps))))"

definition products_FindByIDs :: "cat_env \<Rightarrow> gostring list \<Rightarrow> ('w, Product list) cat_op" where
  "products_FindByIDs E ids =
     (if ids = [] then ret []
      else andThen (pure_op (map_res (cat_parseID (ce_U E)) ids)) (\<lambda>productIDs.
        andThen (mapErr (\<lambda>e. wrap e KindInternal (''get '' @ show_nat (length ids) @ '' product(s)''))
            (sql (sql_GetProductsByIDs productIDs)))
          (withVariants E)))"

definition products_FindVariantsBySKUs ::
  "cat_env \<Rightarrow> gostring list \<Rightarrow> ProductStatus \<Rightarrow> ('w, Variant list) cat_op" where
  "products_FindVariantsBySKUs E skus status =
     (if skus = [] then ret []
      else andThen (mapErr (\<lambda>e. wrap e KindInternal (''get '' @ show_nat (length skus) @ '' variant(s) by sku''))
             (sql (sql_GetVariantsBySKUs skus (product_status_text status))))
        (\<lambda>rows. ret (map (toDomainVariant (ce_J E)) rows)))"

record ProductCursor =
  pc_CreatedAt :: gotime
  pc_ID :: gostring

record ProductFilter =
  pf_Status :: ProductStatus
  pf_Category :: gostring
  pf_After :: "ProductCursor option"
  pf_Limit :: int

definition product_cursor :: "uuid_lib \<Rightarrow> ProductCursor option \<Rightarrow> (gotime \<times> gostring) option" where
  "product_cursor U after =
     (case after of
        None \<Rightarrow> None
      | Some c \<Rightarrow> (case uuid_Parse U (pc_ID c) of Inl _ \<Rightarrow> None | Inr u \<Rightarrow> Some (pc_CreatedAt c, u)))"

definition products_List :: "cat_env \<Rightarrow> ProductFilter \<Rightarrow> ('w, Product list) cat_op" where
  "products_List E f =
     (let cur = product_cursor (ce_U E) (pf_After f); status = product_status_text (pf_Status f) in
      andThen (mapErr (\<lambda>e. wrap e KindInternal ''list products'')
          (if pf_Category f = [] then sql (sql_ListProducts status cur (clamp32 (pf_Limit f)))
           else sql (sql_ListProductsInCategory status (pf_Category f) cur (clamp32 (pf_Limit f)))))
        (withVariants E))"

end
