(* ===== verification/CatApp.thy ===== *)
theory CatApp
  imports CatStore OrdApp
begin

text \<open>
  \<open>services/catalog/internal/app\<close>: the use cases over the repository and the transaction
  manager, and the page tokens of a listing.
\<close>

subsection \<open>Commands and queries\<close>

record NewVariant =
  nv_SKU :: gostring
  nv_PriceAmountMinor :: int
  nv_PriceCurrency :: gostring
  nv_Attributes :: attributes

record CreateProductCommand =
  cp_Name :: gostring
  cp_Description :: gostring
  cp_Category :: gostring
  cp_Variants :: "NewVariant list"

record UpdateProductCommand =
  up_ProductID :: gostring
  up_Name :: gostring
  up_Description :: gostring
  up_Category :: gostring

record AddVariantCommand =
  av_ProductID :: gostring
  av_Variant :: NewVariant

record UpdateVariantCommand =
  uv_ProductID :: gostring
  uv_VariantID :: gostring
  uv_PriceAmountMinor :: int
  uv_PriceCurrency :: gostring
  uv_Attributes :: attributes

text \<open>The empty status is \<open>ProductStatusOther []\<close>.\<close>

record GetProductQuery =
  gp_ID :: gostring
  gp_Status :: ProductStatus

record ListProductsQuery =
  lp_Category :: gostring
  lp_Status :: ProductStatus
  lp_PageSize :: int
  lp_PageToken :: gostring

record ProductPage =
  pp_Products :: "Product list"
  pp_NextPageToken :: gostring

definition query_status :: "ProductStatus \<Rightarrow> ProductStatus" where
  "query_status status = (if product_status_text status = [] then StatusActive else status)"

definition cat_newMoney :: "int \<Rightarrow> gostring \<Rightarrow> err + Money" where
  "cat_newMoney amount cur =
     (case cat_NewCurrencyCode cur of Inl e \<Rightarrow> Inl e | Inr code \<Rightarrow> cat_NewMoney amount code)"

definition newVariant :: "NewVariant \<Rightarrow> err + gostring \<times> Money" where
  "newVariant v =
     (case cat_NewSKU (nv_SKU v) of
        Inl e \<Rightarrow> Inl e
      | Inr sku \<Rightarrow>
          (case cat_newMoney (nv_PriceAmountMinor v) (nv_PriceCurrency v) of
             Inl e \<Rightarrow> Inl e
           | Inr price \<Rightarrow> Inr (sku, price)))"

subsection \<open>Page tokens\<close>

definition cat_encodeCursor :: "time_text \<Rightarrow> ProductCursor \<Rightarrow> gostring" where
  "cat_encodeCursor T c = b64_encode (tt_Format T (pc_CreatedAt c) @ ''|'' @ pc_ID c)"

definition cat_decodeCursor :: "uuid_lib \<Rightarrow> time_text \<Rightarrow> gostring \<Rightarrow> err + ProductCursor option" where
  "cat_decodeCursor U T token =
     (let invalid = New KindInvalidInput ''page_token is not a cursor this service issued'' in
      if token = [] then Inr None
      else (case b64_decode token of
          None \<Rightarrow> Inl invalid
        | Some raw \<Rightarrow>
            (case strings_Cut (CHR ''|'') raw of
               None \<Rightarrow> Inl invalid
             | Some (createdAt, i) \<Rightarrow>
                 (case tt_Parse T createdAt of
                    None \<Rightarrow> Inl invalid
                  | Some at \<Rightarrow>
                      (case ParseProductID U i of
                         Inl _ \<Rightarrow> Inl invalid
                       | Inr productID \<Rightarrow> Inr (Some \<lparr>pc_CreatedAt = at, pc_ID = productID\<rparr>))))))"

definition cat_defaultPageSize :: int where "cat_defaultPageSize = 20"
definition cat_maxPageSize :: int where "cat_maxPageSize = 100"

definition cat_pageSize :: "int \<Rightarrow> int" where
  "cat_pageSize requested =
     (if requested \<le> 0 then cat_defaultPageSize
      else if requested > cat_maxPageSize then cat_maxPageSize else requested)"

subsection \<open>Reads\<close>

definition cat_GetProduct :: "cat_env \<Rightarrow> GetProductQuery \<Rightarrow> ('w, Product) cat_op" where
  "cat_GetProduct E query =
     andThen (pure_op (ParseProductID (ce_U E) (gp_ID query))) (\<lambda>productID.
     andThen (products_FindByID E productID) (\<lambda>p.
       if pr_status p \<noteq> query_status (gp_Status query)
       then fail (WithReason (New KindNotFound (''product '' @ gp_ID query @ '' not found'')) ''PRODUCT_NOT_FOUND'')
       else ret p))"

definition cat_GetProductsByIDs :: "cat_env \<Rightarrow> gostring list \<Rightarrow> ('w, Product list) cat_op" where
  "cat_GetProductsByIDs E ids =
     andThen (pure_op (map_res (ParseProductID (ce_U E)) ids)) (products_FindByIDs E)"

definition cat_GetVariantsBySKUs :: "cat_env \<Rightarrow> gostring list \<Rightarrow> ('w, Variant list) cat_op" where
  "cat_GetVariantsBySKUs E skus =
     (if skus = [] then ret []
      else andThen (pure_op (map_res cat_NewSKU skus)) (\<lambda>parsed.
        products_FindVariantsBySKUs E parsed StatusActive))"

definition cat_page :: "time_text \<Rightarrow> int \<Rightarrow> Product list \<Rightarrow> ProductPage" where
  "cat_page T n ps =
     (if int (length ps) \<le> n then \<lparr>pp_Products = ps, pp_NextPageToken = []\<rparr>
      else let last = ps ! nat (n - 1) in
        \<lparr>pp_Products = take (nat n) ps,
         pp_NextPageToken = cat_encodeCursor T \<lparr>pc_CreatedAt = pr_createdAt last, pc_ID = pr_id last\<rparr>\<rparr>)"

definition cat_ListProducts :: "cat_env \<Rightarrow> time_text \<Rightarrow> ListProductsQuery \<Rightarrow> ('w, ProductPage) cat_op" where
  "cat_ListProducts E T query =
     andThen (pure_op (NewCategory (lp_Category query))) (\<lambda>category.
     andThen (pure_op (cat_decodeCursor (ce_U E) T (lp_PageToken query))) (\<lambda>after.
       let n = cat_pageSize (lp_PageSize query) in
       andThen (products_List E \<lparr>pf_Status = query_status (lp_Status query), pf_Category = category,
           pf_After = after, pf_Limit = n + 1\<rparr>)
         (\<lambda>ps. ret (cat_page T n ps))))"

subsection \<open>Writes\<close>

text \<open>The loop over the command's variants; the \<open>i\<close>-th is given the \<open>i\<close>-th minted id.\<close>

fun add_variants :: "(nat \<Rightarrow> gostring) \<Rightarrow> nat \<Rightarrow> NewVariant list \<Rightarrow> Product \<Rightarrow> err + Product" where
  "add_variants mint i [] p = Inr p"
| "add_variants mint i (v # vs) p =
     (case newVariant v of
        Inl e \<Rightarrow> Inl e
      | Inr (sku, price) \<Rightarrow>
          (case AddVariant (mint i) sku price (nv_Attributes v) p of
             Inl e \<Rightarrow> Inl e
           | Inr p' \<Rightarrow> add_variants mint (Suc i) vs p'))"

definition cat_CreateProduct ::
  "cat_env \<Rightarrow> gostring \<Rightarrow> (nat \<Rightarrow> gostring) \<Rightarrow> CreateProductCommand \<Rightarrow> ('w, Product) cat_op" where
  "cat_CreateProduct E new_id mint cmd =
     andThen (pure_op (NewCategory (cp_Category cmd))) (\<lambda>category.
     andThen (pure_op (NewProduct new_id (cp_Name cmd) (cp_Description cmd) category)) (\<lambda>p0.
     andThen (pure_op (add_variants mint 0 (cp_Variants cmd) p0)) (\<lambda>p.
       Do (products_Create E p))))"

definition mutate_tx :: "cat_env \<Rightarrow> gostring \<Rightarrow> (Product \<Rightarrow> err + Product) \<Rightarrow> ('w, Product) cat_op" where
  "mutate_tx E productID change =
     andThen (products_FindByID E productID) (\<lambda>p.
     andThen (pure_op (change p)) (products_Update E))"

definition cat_mutate :: "cat_env \<Rightarrow> gostring \<Rightarrow> (Product \<Rightarrow> err + Product) \<Rightarrow> ('w, Product) cat_op" where
  "cat_mutate E i change =
     andThen (pure_op (ParseProductID (ce_U E) i)) (\<lambda>productID. Do (mutate_tx E productID change))"

definition cat_UpdateProduct :: "cat_env \<Rightarrow> UpdateProductCommand \<Rightarrow> ('w, Product) cat_op" where
  "cat_UpdateProduct E cmd =
     andThen (pure_op (NewCategory (up_Category cmd))) (\<lambda>category.
       cat_mutate E (up_ProductID cmd) (UpdateDetails (up_Name cmd) (up_Description cmd) category))"

definition cat_AddVariant :: "cat_env \<Rightarrow> gostring \<Rightarrow> AddVariantCommand \<Rightarrow> ('w, Product) cat_op" where
  "cat_AddVariant E new_id cmd =
     andThen (pure_op (newVariant (av_Variant cmd))) (\<lambda>(sku, price).
       cat_mutate E (av_ProductID cmd) (AddVariant new_id sku price (nv_Attributes (av_Variant cmd))))"

definition cat_RepriceVariant :: "cat_env \<Rightarrow> UpdateVariantCommand \<Rightarrow> ('w, Product) cat_op" where
  "cat_RepriceVariant E cmd =
     andThen (pure_op (ParseVariantID (ce_U E) (uv_VariantID cmd))) (\<lambda>variantID.
     andThen (pure_op (cat_newMoney (uv_PriceAmountMinor cmd) (uv_PriceCurrency cmd))) (\<lambda>price.
       cat_mutate E (uv_ProductID cmd) (cat_UpdateVariant variantID price (uv_Attributes cmd))))"

definition cat_PublishProduct :: "cat_env \<Rightarrow> gostring \<Rightarrow> ('w, Product) cat_op" where
  "cat_PublishProduct E i = cat_mutate E i Publish"

definition cat_ArchiveProduct :: "cat_env \<Rightarrow> gostring \<Rightarrow> ('w, Product) cat_op" where
  "cat_ArchiveProduct E i = cat_mutate E i (\<lambda>p. Inr (Archive p))"

end
