(* ===== verification/CatServer.thy ===== *)
theory CatServer
  imports CatApp InvServer
begin

text \<open>
  The catalog's gRPC handlers, \<open>services/catalog/internal/adapter/in/grpc\<close>. What the generated
  getters answer for a message is its record, with the zero values of an absent field.
\<close>

datatype pb_ProductStatus =
  PRODUCT_STATUS_UNSPECIFIED | PRODUCT_STATUS_DRAFT | PRODUCT_STATUS_ACTIVE | PRODUCT_STATUS_ARCHIVED
| PRODUCT_STATUS_OTHER int

record pb_CatVariant =
  pcv_Id :: gostring
  pcv_ProductId :: gostring
  pcv_Sku :: gostring
  pcv_Price :: pb_Money
  pcv_Attributes :: attributes
  pcv_CreatedAt :: gotime
  pcv_UpdatedAt :: gotime

record pb_Product =
  pcp_Id :: gostring
  pcp_Name :: gostring
  pcp_Description :: gostring
  pcp_Category :: gostring
  pcp_Status :: pb_ProductStatus
  pcp_Variants :: "pb_CatVariant list"
  pcp_CreatedAt :: gotime
  pcp_UpdatedAt :: gotime

record pb_NewVariant =
  pnv_Sku :: gostring
  pnv_Price :: pb_Money
  pnv_Attributes :: attributes

fun fromProtoStatus :: "pb_ProductStatus \<Rightarrow> ProductStatus" where
  "fromProtoStatus PRODUCT_STATUS_DRAFT = StatusDraft"
| "fromProtoStatus PRODUCT_STATUS_ACTIVE = StatusActive"
| "fromProtoStatus PRODUCT_STATUS_ARCHIVED = StatusArchived"
| "fromProtoStatus PRODUCT_STATUS_UNSPECIFIED = ProductStatusOther []"
| "fromProtoStatus (PRODUCT_STATUS_OTHER _) = ProductStatusOther []"

fun cat_toProtoStatus :: "ProductStatus \<Rightarrow> pb_ProductStatus" where
  "cat_toProtoStatus StatusDraft = PRODUCT_STATUS_DRAFT"
| "cat_toProtoStatus StatusActive = PRODUCT_STATUS_ACTIVE"
| "cat_toProtoStatus StatusArchived = PRODUCT_STATUS_ARCHIVED"
| "cat_toProtoStatus (ProductStatusOther _) = PRODUCT_STATUS_UNSPECIFIED"

definition fromProtoVariant :: "pb_NewVariant \<Rightarrow> NewVariant" where
  "fromProtoVariant v =
     \<lparr>nv_SKU = pnv_Sku v, nv_PriceAmountMinor = mny_AmountMinor (pnv_Price v),
      nv_PriceCurrency = mny_CurrencyCode (pnv_Price v), nv_Attributes = pnv_Attributes v\<rparr>"

definition fromProtoVariants :: "pb_NewVariant list \<Rightarrow> NewVariant list" where
  "fromProtoVariants vs = map fromProtoVariant vs"

definition toProtoVariant :: "Variant \<Rightarrow> pb_CatVariant" where
  "toProtoVariant v =
     \<lparr>pcv_Id = va_id v, pcv_ProductId = va_productID v, pcv_Sku = va_sku v,
      pcv_Price = \<lparr>mny_AmountMinor = amountMinor (va_price v), mny_CurrencyCode = currency (va_price v)\<rparr>,
      pcv_Attributes = cloneAttributes (va_attributes v), pcv_CreatedAt = va_createdAt v,
      pcv_UpdatedAt = va_updatedAt v\<rparr>"

definition toProtoVariants :: "Variant list \<Rightarrow> pb_CatVariant list" where
  "toProtoVariants vs = map toProtoVariant vs"

definition cat_toProto :: "Product \<Rightarrow> pb_Product" where
  "cat_toProto p =
     \<lparr>pcp_Id = pr_id p, pcp_Name = pr_name p, pcp_Description = pr_description p, pcp_Category = pr_category p,
      pcp_Status = cat_toProtoStatus (pr_status p), pcp_Variants = map toProtoVariant (pr_variants p),
      pcp_CreatedAt = pr_createdAt p, pcp_UpdatedAt = pr_updatedAt p\<rparr>"

definition cat_toProtos :: "Product list \<Rightarrow> pb_Product list" where
  "cat_toProtos ps = map cat_toProto ps"

definition cat_h_GetProduct ::
  "status_pkg \<Rightarrow> cat_env \<Rightarrow> gostring \<Rightarrow> pb_ProductStatus \<Rightarrow> ('w, pb_Product) cat_op" where
  "cat_h_GetProduct fe E i status =
     answer fe cat_toProto (cat_GetProduct E \<lparr>gp_ID = i, gp_Status = fromProtoStatus status\<rparr>)"

definition cat_h_GetProductsByIDs ::
  "status_pkg \<Rightarrow> cat_env \<Rightarrow> gostring list \<Rightarrow> ('w, pb_Product list) cat_op" where
  "cat_h_GetProductsByIDs fe E ids = answer fe cat_toProtos (cat_GetProductsByIDs E ids)"

definition cat_h_GetVariantsBySKUs ::
  "status_pkg \<Rightarrow> cat_env \<Rightarrow> gostring list \<Rightarrow> ('w, pb_CatVariant list) cat_op" where
  "cat_h_GetVariantsBySKUs fe E skus = answer fe toProtoVariants (cat_GetVariantsBySKUs E skus)"

definition cat_h_ListProducts ::
  "status_pkg \<Rightarrow> cat_env \<Rightarrow> time_text \<Rightarrow> gostring \<Rightarrow> pb_ProductStatus \<Rightarrow> int \<Rightarrow> gostring \<Rightarrow>
   ('w, pb_Product list \<times> gostring) cat_op" where
  "cat_h_ListProducts fe E T category status page_size token =
     answer fe (\<lambda>p. (cat_toProtos (pp_Products p), pp_NextPageToken p))
       (cat_ListProducts E T \<lparr>lp_Category = category, lp_Status = fromProtoStatus status,
          lp_PageSize = page_size, lp_PageToken = token\<rparr>)"

definition cat_h_CreateProduct ::
  "status_pkg \<Rightarrow> cat_env \<Rightarrow> gostring \<Rightarrow> (nat \<Rightarrow> gostring) \<Rightarrow> gostring \<Rightarrow> gostring \<Rightarrow> gostring \<Rightarrow>
   pb_NewVariant list \<Rightarrow> ('w, pb_Product) cat_op" where
  "cat_h_CreateProduct fe E new_id mint name description category vs =
     answer fe cat_toProto (cat_CreateProduct E new_id mint
       \<lparr>cp_Name = name, cp_Description = description, cp_Category = category,
        cp_Variants = fromProtoVariants vs\<rparr>)"

definition cat_h_UpdateProduct ::
  "status_pkg \<Rightarrow> cat_env \<Rightarrow> gostring \<Rightarrow> gostring \<Rightarrow> gostring \<Rightarrow> gostring \<Rightarrow> ('w, pb_Product) cat_op" where
  "cat_h_UpdateProduct fe E i name description category =
     answer fe cat_toProto (cat_UpdateProduct E
       \<lparr>up_ProductID = i, up_Name = name, up_Description = description, up_Category = category\<rparr>)"

definition cat_h_AddVariant ::
  "status_pkg \<Rightarrow> cat_env \<Rightarrow> gostring \<Rightarrow> gostring \<Rightarrow> pb_NewVariant \<Rightarrow> ('w, pb_Product) cat_op" where
  "cat_h_AddVariant fe E new_id i v =
     answer fe cat_toProto (cat_AddVariant E new_id \<lparr>av_ProductID = i, av_Variant = fromProtoVariant v\<rparr>)"

definition cat_h_UpdateVariant ::
  "status_pkg \<Rightarrow> cat_env \<Rightarrow> gostring \<Rightarrow> gostring \<Rightarrow> pb_Money \<Rightarrow> attributes \<Rightarrow> ('w, pb_Product) cat_op" where
  "cat_h_UpdateVariant fe E product_id variant_id price attrs =
     answer fe cat_toProto (cat_RepriceVariant E
       \<lparr>uv_ProductID = product_id, uv_VariantID = variant_id, uv_PriceAmountMinor = mny_AmountMinor price,
        uv_PriceCurrency = mny_CurrencyCode price, uv_Attributes = attrs\<rparr>)"

definition cat_h_PublishProduct :: "status_pkg \<Rightarrow> cat_env \<Rightarrow> gostring \<Rightarrow> ('w, pb_Product) cat_op" where
  "cat_h_PublishProduct fe E i = answer fe cat_toProto (cat_PublishProduct E i)"

definition cat_h_ArchiveProduct :: "status_pkg \<Rightarrow> cat_env \<Rightarrow> gostring \<Rightarrow> ('w, pb_Product) cat_op" where
  "cat_h_ArchiveProduct fe E i = answer fe cat_toProto (cat_ArchiveProduct E i)"

end
