(* ===== verification/CatBooks.thy ===== *)
theory CatBooks
  imports CatServer Triples
begin

text \<open>
  What the catalog database promises between transactions, and what each write of an aggregate
  does to the two tables: the rows it replaces, the rows it adds, and how they read back.
\<close>

subsection \<open>Reading an aggregate\<close>

definition rows_of :: "cat_db \<Rightarrow> gostring \<Rightarrow> variant_row list" where
  "rows_of db i = filter (\<lambda>v. vw_ProductID v = i) (variants db)"

definition in_order_of_birth :: "variant_row list \<Rightarrow> variant_row list" where
  "in_order_of_birth vs = sort_key vw_CreatedAt (sort_key vw_ID vs)"

definition load_product :: "attr_lib \<Rightarrow> cat_db \<Rightarrow> product_row \<Rightarrow> Product" where
  "load_product J db r = cat_toDomain J r (in_order_of_birth (rows_of db (pw_ID r)))"

lemma set_in_order [simp]: "set (in_order_of_birth vs) = set vs"
  by (simp add: in_order_of_birth_def)

lemma distinct_in_order [simp]: "distinct (map f (in_order_of_birth vs)) \<longleftrightarrow> distinct (map f vs)"
  by (simp add: in_order_of_birth_def)

lemma toDomain_simps [simp]:
  "pr_id (cat_toDomain J r vs) = pw_ID r" "pr_createdAt (cat_toDomain J r vs) = pw_CreatedAt r"
  "pr_version (cat_toDomain J r vs) = pw_Version r" "pr_status (cat_toDomain J r vs) = ProductStatus_of (pw_Status r)"
  "pr_variants (cat_toDomain J r vs) = map (toDomainVariant J) vs" "pr_name (cat_toDomain J r vs) = pw_Name r"
  "pr_description (cat_toDomain J r vs) = pw_Description r" "pr_category (cat_toDomain J r vs) = pw_Category r"
  by (simp_all add: cat_toDomain_def ReconstituteProduct_def toDomainVariant_def)

lemma toDomainVariant_simps [simp]:
  "va_id (toDomainVariant J r) = vw_ID r" "va_productID (toDomainVariant J r) = vw_ProductID r"
  "va_sku (toDomainVariant J r) = vw_Sku r" "va_createdAt (toDomainVariant J r) = vw_CreatedAt r"
  "va_version (toDomainVariant J r) = vw_Version r" "currency (va_price (toDomainVariant J r)) = vw_PriceCurrency r"
  "amountMinor (va_price (toDomainVariant J r)) = vw_PriceAmountMinor r"
  "va_attributes (toDomainVariant J r) = unmarshalAttributes J (vw_Attributes r)"
  by (simp_all add: toDomainVariant_def ReconstituteVariant_def variant_snapshot_def)

lemma snapshot_simps [simp]:
  "vs_ID (va_Snapshot v) = va_id v" "vs_ProductID (va_Snapshot v) = va_productID v" "vs_SKU (va_Snapshot v) = va_sku v"
  "vs_Price (va_Snapshot v) = va_price v" "vs_Attributes (va_Snapshot v) = va_attributes v"
  "vs_CreatedAt (va_Snapshot v) = va_createdAt v" "vs_Version (va_Snapshot v) = va_version v"
  by (simp_all add: va_Snapshot_def cloneAttributes_def)

lemma load_product_simps [simp]:
  "pr_id (load_product J db r) = pw_ID r" "pr_createdAt (load_product J db r) = pw_CreatedAt r"
  "pr_version (load_product J db r) = pw_Version r" "pr_status (load_product J db r) = ProductStatus_of (pw_Status r)"
  "pr_variants (load_product J db r) = map (toDomainVariant J) (in_order_of_birth (rows_of db (pw_ID r)))"
  "pr_name (load_product J db r) = pw_Name r" "pr_description (load_product J db r) = pw_Description r"
  "pr_category (load_product J db r) = pw_Category r"
  by (simp_all add: load_product_def)

lemma withVariants_Inr:
  assumes "withVariants E rows s = (Inr ps, s')"
  shows "ps = map (load_product (ce_J E) (w_db s)) rows" "w_db s' = w_db s"
proof -
  have "filter (\<lambda>v. vw_ProductID v = pw_ID r) (sort_key vw_CreatedAt (sort_key vw_ID
      (filter (\<lambda>v. vw_ProductID v \<in> pw_ID ` set rows) (variants db)))) = in_order_of_birth (rows_of db (pw_ID r))"
    if "r \<in> set rows" for r db
    using that by (auto simp: in_order_of_birth_def rows_of_def filter_sort intro!: arg_cong [where f = "sort_key _"] filter_cong)
  then have "ps = map (load_product (ce_J E) (w_db s)) rows \<and> w_db s' = w_db s"
    using assms by (auto simp: withVariants_def op_inv sql_GetVariantsByProductIDs_def load_product_def
        split: if_splits dest!: sql_success)
  then show "ps = map (load_product (ce_J E) (w_db s)) rows" "w_db s' = w_db s" by simp_all
qed

lemma loaded_by_id:
  assumes "products_FindByID E i s = (Inr p, s')"
  obtains r where "r \<in> set (products (w_db s))" "uuid_Parse (ce_U E) i = Inr (pw_ID r)"
    "p = load_product (ce_J E) (w_db s) r" "w_db s' = w_db s"
proof -
  from assms obtain u r s1 ps where r: "uuid_Parse (ce_U E) i = Inr u" "List.find (\<lambda>r. pw_ID r = u) (products (w_db s)) = Some r"
      "w_db s1 = w_db s" "withVariants E [r] s1 = (Inr ps, s')" "p = hd ps"
    by (auto simp: products_FindByID_def cat_parseID_def op_inv sql_GetProductByID_def
        split: if_splits option.splits sum.splits dest!: sql_success)
  from withVariants_Inr [OF r(4)] r(3,5) have "p = load_product (ce_J E) (w_db s) r" "w_db s' = w_db s" by simp_all
  with find_key_Some [OF r(2)] r(1) that show ?thesis by blast
qed

subsection \<open>Writing variants\<close>

definition kept_attributes :: "attr_lib \<Rightarrow> Variant \<Rightarrow> gostring" where
  "kept_attributes J v = projr (al_jsonb J (marshalAttributes J (va_attributes v)))"

definition writable :: "attr_lib \<Rightarrow> Variant \<Rightarrow> bool" where
  "writable J v \<longleftrightarrow> price_checks (amountMinor (va_price v)) (currency (va_price v)) = None \<and>
     al_jsonb J (marshalAttributes J (va_attributes v)) = Inr (kept_attributes J v)"

definition repriced :: "attr_lib \<Rightarrow> gotime \<Rightarrow> Variant \<Rightarrow> variant_row \<Rightarrow> variant_row" where
  "repriced J now v r = r\<lparr>vw_PriceAmountMinor := amountMinor (va_price v), vw_PriceCurrency := currency (va_price v),
     vw_Attributes := kept_attributes J v, vw_UpdatedAt := now, vw_Version := vw_Version r + 1\<rparr>"

definition rewritten :: "attr_lib \<Rightarrow> gotime \<Rightarrow> Variant list \<Rightarrow> variant_row \<Rightarrow> variant_row" where
  "rewritten J now vs r =
     (case List.find (\<lambda>v. va_id v = vw_ID r) vs of None \<Rightarrow> r | Some v \<Rightarrow> repriced J now v r)"

definition born :: "attr_lib \<Rightarrow> gotime \<Rightarrow> Variant \<Rightarrow> variant_row" where
  "born J now v = \<lparr>vw_ID = va_id v, vw_ProductID = va_productID v, vw_Sku = va_sku v,
     vw_PriceAmountMinor = amountMinor (va_price v), vw_PriceCurrency = currency (va_price v),
     vw_Attributes = kept_attributes J v, vw_CreatedAt = now, vw_UpdatedAt = now, vw_Version = 1\<rparr>"

lemma repriced_simps [simp]:
  "vw_ID (repriced J now v r) = vw_ID r" "vw_ProductID (repriced J now v r) = vw_ProductID r"
  "vw_Sku (repriced J now v r) = vw_Sku r" "vw_CreatedAt (repriced J now v r) = vw_CreatedAt r"
  "vw_Version (repriced J now v r) = vw_Version r + 1" "vw_PriceCurrency (repriced J now v r) = currency (va_price v)"
  "vw_PriceAmountMinor (repriced J now v r) = amountMinor (va_price v)"
  "vw_Attributes (repriced J now v r) = kept_attributes J v"
  by (simp_all add: repriced_def)

lemma rewritten_simps [simp]:
  "vw_ID (rewritten J now vs r) = vw_ID r" "vw_ProductID (rewritten J now vs r) = vw_ProductID r"
  "vw_Sku (rewritten J now vs r) = vw_Sku r" "vw_CreatedAt (rewritten J now vs r) = vw_CreatedAt r"
  "rewritten J now [] r = r"
  by (simp_all add: rewritten_def split: option.splits)

lemma born_simps [simp]:
  "vw_ID (born J now v) = va_id v" "vw_ProductID (born J now v) = va_productID v" "vw_Sku (born J now v) = va_sku v"
  "vw_CreatedAt (born J now v) = now" "vw_Version (born J now v) = 1" "vw_PriceCurrency (born J now v) = currency (va_price v)"
  "vw_PriceAmountMinor (born J now v) = amountMinor (va_price v)" "vw_Attributes (born J now v) = kept_attributes J v"
  by (simp_all add: born_def)

lemma map_simps [simp]:
  "map (\<lambda>x. vw_ID (rewritten J now vs x)) t = map vw_ID t" "map (\<lambda>x. vw_Sku (rewritten J now vs x)) t = map vw_Sku t"
  by simp_all

lemma update_by_id:
  assumes "distinct (map k t)" and "update_one (\<lambda>r. k r = i \<and> P r) f t = Inr (r', t')"
  obtains r where "r \<in> set t" "k r = i" "P r" "f r = Inr r'" "t' = map (\<lambda>x. if k x = i then r' else x) t"
proof -
  have "one_row k (\<lambda>r. k r = i \<and> P r) t" using assms(1) by (rule one_rowI) simp
  from update_one_split [OF this assms(2)] obtain r a b where r: "k r = i \<and> P r" "f r = Inr r'" "t = a @ r # b"
      "t' = a @ r' # b" "\<forall>x \<in> set a \<union> set b. k x \<noteq> k r" by blast
  then have "t' = map (\<lambda>x. if k x = i then r' else x) t" by (simp add: map_idI)
  with r show ?thesis by (intro that [of r]) simp_all
qed

lemma writeVariant_old:
  assumes "writeVariant E (va_Snapshot v) s = (Inr row, s')" and "va_createdAt v \<noteq> zero_time"
    and "uuid_Parse (ce_U E) (va_id v) = Inr (va_id v)" and d: "distinct (map vw_ID (variants (w_db s)))"
  obtains r where "r \<in> set (variants (w_db s))" "vw_ID r = va_id v" "vw_Version r = clamp32 (va_version v)"
    "int4 (vw_Version r + 1)" "row = repriced (ce_J E) (db_now (w_db s)) v r" "writable (ce_J E) v"
    "w_db s' = (w_db s)\<lparr>variants := map (\<lambda>x. if vw_ID x = va_id v then row else x) (variants (w_db s))\<rparr>"
proof -
  let ?J = "ce_J E" and ?db = "w_db s"
  from assms(1-3) obtain s1 where "sql (sql_UpdateVariant ?J (va_id v) (amountMinor (va_price v)) (currency (va_price v))
      (marshalAttributes ?J (va_attributes v)) (clamp32 (va_version v))) s = (Inr row, s1)" "s' = s1"
    by (auto simp: writeVariant_def parseVariantID_def op_inv split: if_splits)
  then have "sql_UpdateVariant ?J (va_id v) (amountMinor (va_price v)) (currency (va_price v))
      (marshalAttributes ?J (va_attributes v)) (clamp32 (va_version v)) ?db = (Inr row, w_db s')"
    by (auto dest: sql_success)
  then obtain t stored where j: "al_jsonb ?J (marshalAttributes ?J (va_attributes v)) = Inr stored"
    and u: "update_one (\<lambda>r. vw_ID r = va_id v \<and> vw_Version r = clamp32 (va_version v))
             (\<lambda>r. if \<not> int4 (vw_Version r + 1) then Inl out_of_range
                  else (case price_checks (amountMinor (va_price v)) (currency (va_price v)) of
                     Some e \<Rightarrow> Inl e
                   | None \<Rightarrow> Inr (r\<lparr>vw_PriceAmountMinor := amountMinor (va_price v), vw_PriceCurrency := currency (va_price v),
                        vw_Attributes := stored, vw_UpdatedAt := db_now ?db, vw_Version := vw_Version r + 1\<rparr>)))
             (variants ?db) = Inr (row, t)" and db: "w_db s' = ?db\<lparr>variants := t\<rparr>"
    by (auto simp: sql_UpdateVariant_def split: sum.splits prod.splits)
  obtain r where r: "r \<in> set (variants ?db)" "vw_ID r = va_id v" "vw_Version r = clamp32 (va_version v)"
      "(if \<not> int4 (vw_Version r + 1) then Inl out_of_range
        else (case price_checks (amountMinor (va_price v)) (currency (va_price v)) of
           Some e \<Rightarrow> Inl e
         | None \<Rightarrow> Inr (r\<lparr>vw_PriceAmountMinor := amountMinor (va_price v), vw_PriceCurrency := currency (va_price v),
              vw_Attributes := stored, vw_UpdatedAt := db_now ?db, vw_Version := vw_Version r + 1\<rparr>))) = Inr row"
      "t = map (\<lambda>x. if vw_ID x = va_id v then row else x) (variants ?db)"
    by (rule update_by_id [OF d u]) (rule that; assumption)
  from j have "stored = kept_attributes ?J v" by (simp add: kept_attributes_def)
  with r(4) j have "int4 (vw_Version r + 1)" "row = repriced ?J (db_now ?db) v r" "writable ?J v"
    by (auto simp: repriced_def writable_def split: if_splits option.splits)
  with r(1-3,5) db show ?thesis using that by blast
qed

lemma insertVariant_Inr:
  assumes "insertVariant E (va_Snapshot v) s = (Inr row, s')"
    and ids: "uuid_Parse (ce_U E) (va_id v) = Inr (va_id v)" "uuid_Parse (ce_U E) (va_productID v) = Inr (va_productID v)"
  shows "row = born (ce_J E) (db_now (w_db s)) v" "writable (ce_J E) v" "ToUpper (va_sku v) = va_sku v"
    "va_id v \<notin> vw_ID ` set (variants (w_db s))" "va_sku v \<notin> vw_Sku ` set (variants (w_db s))"
    "va_productID v \<in> pw_ID ` set (products (w_db s))"
    "w_db s' = (w_db s)\<lparr>variants := variants (w_db s) @ [row]\<rparr>"
proof -
  let ?J = "ce_J E" and ?db = "w_db s"
  from assms have "sql (sql_CreateVariant ?J (va_id v) (va_productID v) (va_sku v) (amountMinor (va_price v))
      (currency (va_price v)) (marshalAttributes ?J (va_attributes v))) s = (Inr row, s')"
    by (auto simp: insertVariant_def parseVariantID_def cat_parseID_def op_inv split: if_splits)
  then have q: "sql_CreateVariant ?J (va_id v) (va_productID v) (va_sku v) (amountMinor (va_price v))
      (currency (va_price v)) (marshalAttributes ?J (va_attributes v)) ?db = (Inr row, w_db s')"
    by (auto dest: sql_success)
  then obtain stored where j: "al_jsonb ?J (marshalAttributes ?J (va_attributes v)) = Inr stored"
    by (auto simp: sql_CreateVariant_def split: sum.splits)
  then have "stored = kept_attributes ?J v" by (simp add: kept_attributes_def)
  with q j show "row = born ?J (db_now ?db) v" "writable ?J v" "ToUpper (va_sku v) = va_sku v"
    "va_id v \<notin> vw_ID ` set (variants ?db)" "va_sku v \<notin> vw_Sku ` set (variants ?db)"
    "va_productID v \<in> pw_ID ` set (products ?db)" "w_db s' = ?db\<lparr>variants := variants ?db @ [row]\<rparr>"
    by (auto simp: sql_CreateVariant_def born_def writable_def Let_def split: if_splits option.splits)
qed

lemma write_olds:
  "map_each (writeVariant E) (map va_Snapshot olds) s = (Inr rows, s') \<Longrightarrow>
   distinct (map va_id olds) \<Longrightarrow> \<forall>v \<in> set olds. va_createdAt v \<noteq> zero_time \<and> uuid_Parse (ce_U E) (va_id v) = Inr (va_id v) \<Longrightarrow>
   distinct (map vw_ID (variants (w_db s))) \<Longrightarrow>
   w_db s' = (w_db s)\<lparr>variants := map (rewritten (ce_J E) (db_now (w_db s)) olds) (variants (w_db s))\<rparr> \<and>
   (\<forall>v \<in> set olds. writable (ce_J E) v \<and>
      (\<exists>r \<in> set (variants (w_db s)). vw_ID r = va_id v \<and> vw_Version r = clamp32 (va_version v) \<and> int4 (vw_Version r + 1))) \<and>
   list_all2 (\<lambda>v row. \<exists>r \<in> set (variants (w_db s)). vw_ID r = va_id v \<and> row = repriced (ce_J E) (db_now (w_db s)) v r) olds rows"
proof (induction olds arbitrary: s rows)
  case Nil
  have "map (rewritten (ce_J E) (db_now (w_db s)) []) (variants (w_db s)) = variants (w_db s)" by (rule map_idI) simp
  with Nil show ?case by (simp add: op_inv)
next
  case (Cons v olds)
  let ?J = "ce_J E" and ?now = "db_now (w_db s)" and ?t = "variants (w_db s)"
  from Cons.prems(1) obtain row s1 rows' where w: "writeVariant E (va_Snapshot v) s = (Inr row, s1)"
      "map_each (writeVariant E) (map va_Snapshot olds) s1 = (Inr rows', s')" "rows = row # rows'"
    by (auto simp: op_inv)
  obtain r where r: "r \<in> set ?t" "vw_ID r = va_id v" "vw_Version r = clamp32 (va_version v)"
    "int4 (vw_Version r + 1)" "row = repriced ?J ?now v r" "writable ?J v"
    "w_db s1 = (w_db s)\<lparr>variants := map (\<lambda>x. if vw_ID x = va_id v then row else x) ?t\<rparr>"
    by (rule writeVariant_old [OF w(1) _ _ Cons.prems(4)]) (use Cons.prems(3) that in auto)
  let ?t1 = "variants (w_db s1)"
  have uniq: "x = r" if "x \<in> set ?t" "vw_ID x = va_id v" for x
    using distinct_map_inj [OF Cons.prems(4) that(1) r(1)] that(2) r(2) by simp
  have t1: "?t1 = map (rewritten ?J ?now [v]) ?t"
    unfolding r(7) using uniq by (auto simp: rewritten_def r(5))
  have ids: "map vw_ID ?t1 = map vw_ID ?t" unfolding t1 by simp
  with Cons.prems(4) have "distinct (map vw_ID ?t1)" by simp
  from Cons.IH [OF w(2) _ _ this] Cons.prems(2,3) have
    IH: "w_db s' = (w_db s1)\<lparr>variants := map (rewritten ?J (db_now (w_db s1)) olds) ?t1\<rparr>"
      "\<forall>v \<in> set olds. writable ?J v \<and>
        (\<exists>r \<in> set ?t1. vw_ID r = va_id v \<and> vw_Version r = clamp32 (va_version v) \<and> int4 (vw_Version r + 1))"
      "list_all2 (\<lambda>v row. \<exists>r \<in> set ?t1. vw_ID r = va_id v \<and> row = repriced ?J (db_now (w_db s1)) v r) olds rows'"
    by simp_all
  have now: "db_now (w_db s1) = ?now" using r(7) by simp
  have other: "x \<in> set ?t" if "x \<in> set ?t1" "vw_ID x \<noteq> va_id v" for x
    using that r(2,5,7) by (auto split: if_splits)
  have same_row: "x \<in> set ?t" if "x \<in> set ?t1" "vw_ID x = va_id w" "w \<in> set olds" for x w
  proof (rule other [OF that(1)])
    have "va_id v \<notin> va_id ` set olds" using Cons.prems(2) by simp
    with that(2,3) show "vw_ID x \<noteq> va_id v" by (metis imageI)
  qed
  have "rewritten ?J ?now olds (rewritten ?J ?now [v] x) = rewritten ?J ?now (v # olds) x" if "x \<in> set ?t" for x
  proof (cases "vw_ID x = va_id v")
    case True
    have "va_id v \<notin> va_id ` set olds" using Cons.prems(2) by simp
    then have "\<forall>w \<in> set olds. va_id w \<noteq> vw_ID x" unfolding True by (metis imageI)
    then have "List.find (\<lambda>w. va_id w = vw_ID x) olds = None" unfolding find_None .
    with True show ?thesis by (simp add: rewritten_def)
  qed (simp add: rewritten_def)
  then have "w_db s' = (w_db s)\<lparr>variants := map (rewritten ?J ?now (v # olds)) ?t\<rparr>"
    using IH(1) r(7) now t1 by simp
  moreover have "\<exists>r \<in> set ?t. vw_ID r = va_id w \<and> vw_Version r = clamp32 (va_version w) \<and> int4 (vw_Version r + 1)"
    if "w \<in> set olds" for w
    using IH(2) that same_row by blast
  moreover have "list_all2 (\<lambda>v row. \<exists>r \<in> set ?t. vw_ID r = va_id v \<and> row = repriced ?J ?now v r) olds rows'"
    using IH(3) unfolding now
    by (rule list.rel_mono_strong) (use same_row in blast)
  ultimately show ?case using IH(2) r w(3) by auto
qed

lemma insert_news:
  "map_each (insertVariant E) (map va_Snapshot news) s = (Inr rows, s') \<Longrightarrow>
   \<forall>v \<in> set news. uuid_Parse (ce_U E) (va_id v) = Inr (va_id v) \<and> uuid_Parse (ce_U E) (va_productID v) = Inr (va_productID v) \<Longrightarrow>
   w_db s' = (w_db s)\<lparr>variants := variants (w_db s) @ map (born (ce_J E) (db_now (w_db s))) news\<rparr> \<and>
   rows = map (born (ce_J E) (db_now (w_db s))) news \<and>
   (\<forall>v \<in> set news. writable (ce_J E) v \<and> ToUpper (va_sku v) = va_sku v \<and> va_productID v \<in> pw_ID ` set (products (w_db s))) \<and>
   (distinct (map vw_ID (variants (w_db s))) \<longrightarrow> distinct (map vw_ID (variants (w_db s')))) \<and>
   (distinct (map vw_Sku (variants (w_db s))) \<longrightarrow> distinct (map vw_Sku (variants (w_db s'))))"
proof (induction news arbitrary: s rows)
  case (Cons v news)
  from Cons.prems(1) obtain row s1 rows' where w: "insertVariant E (va_Snapshot v) s = (Inr row, s1)"
      "map_each (insertVariant E) (map va_Snapshot news) s1 = (Inr rows', s')" "rows = row # rows'"
    by (auto simp: op_inv)
  note i = insertVariant_Inr [OF w(1)]
  from Cons.prems(2) have c: "uuid_Parse (ce_U E) (va_id v) = Inr (va_id v)"
    "uuid_Parse (ce_U E) (va_productID v) = Inr (va_productID v)" by simp_all
  have d: "db_now (w_db s1) = db_now (w_db s)" "products (w_db s1) = products (w_db s)"
    "variants (w_db s1) = variants (w_db s) @ [row]" using i(7) [OF c] by simp_all
  have "\<forall>v \<in> set news. uuid_Parse (ce_U E) (va_id v) = Inr (va_id v) \<and>
      uuid_Parse (ce_U E) (va_productID v) = Inr (va_productID v)" using Cons.prems(2) by simp
  from Cons.IH [OF w(2) this]
  have IH: "w_db s' = (w_db s1)\<lparr>variants := variants (w_db s1) @ map (born (ce_J E) (db_now (w_db s1))) news\<rparr>"
      "rows' = map (born (ce_J E) (db_now (w_db s1))) news"
      "\<forall>v \<in> set news. writable (ce_J E) v \<and> ToUpper (va_sku v) = va_sku v \<and> va_productID v \<in> pw_ID ` set (products (w_db s1))"
      "distinct (map vw_ID (variants (w_db s1))) \<longrightarrow> distinct (map vw_ID (variants (w_db s')))"
      "distinct (map vw_Sku (variants (w_db s1))) \<longrightarrow> distinct (map vw_Sku (variants (w_db s')))"
    by blast+
  have "distinct (map vw_ID (variants (w_db s))) \<longrightarrow> distinct (map vw_ID (variants (w_db s1)))"
    "distinct (map vw_Sku (variants (w_db s))) \<longrightarrow> distinct (map vw_Sku (variants (w_db s1)))"
    unfolding d(3) using i(1,4,5) [OF c] by simp_all
  with IH i [OF c] w(3) d(1,2) show ?case by simp
qed (simp add: op_inv)

subsection \<open>Writing an aggregate\<close>

definition revised :: "gotime \<Rightarrow> Product \<Rightarrow> product_row \<Rightarrow> product_row" where
  "revised now q r = r\<lparr>pw_Name := pr_name q, pw_Description := pr_description q, pw_Category := pr_category q,
     pw_Status := product_status_text (pr_status q), pw_UpdatedAt := now, pw_Version := pw_Version r + 1\<rparr>"

lemma revised_simps [simp]:
  "pw_ID (revised now q r) = pw_ID r" "pw_Name (revised now q r) = pr_name q"
  "pw_Description (revised now q r) = pr_description q" "pw_Category (revised now q r) = pr_category q"
  "pw_Status (revised now q r) = product_status_text (pr_status q)" "pw_CreatedAt (revised now q r) = pw_CreatedAt r"
  "pw_Version (revised now q r) = pw_Version r + 1"
  by (simp_all add: revised_def)

definition written :: "attr_lib \<Rightarrow> cat_db \<Rightarrow> Product \<Rightarrow> Variant list \<Rightarrow> Variant list \<Rightarrow> cat_db" where
  "written J db q olds news =
     db\<lparr>products := map (\<lambda>x. if pw_ID x = pr_id q then revised (db_now db) q x else x) (products db),
        variants := map (rewritten J (db_now db) olds) (variants db) @ map (born J (db_now db)) news\<rparr>"

lemma written_simps [simp]:
  "products (written J db q olds news) = map (\<lambda>x. if pw_ID x = pr_id q then revised (db_now db) q x else x) (products db)"
  "variants (written J db q olds news) = map (rewritten J (db_now db) olds) (variants db) @ map (born J (db_now db)) news"
  "db_now (written J db q olds news) = db_now db"
  by (simp_all add: written_def)

definition canonical :: "uuid_lib \<Rightarrow> gostring \<Rightarrow> bool" where
  "canonical U i \<longleftrightarrow> uuid_Parse U i = Inr i"

lemma map_each_append:
  "map_each f (xs @ ys) s = (Inr zs, s') \<longleftrightarrow>
     (\<exists>as bs s1. map_each f xs s = (Inr as, s1) \<and> map_each f ys s1 = (Inr bs, s') \<and> zs = as @ bs)"
  by (induction xs arbitrary: s zs) (auto simp: op_inv)

lemma map_each_cong:
  "(\<And>x. x \<in> set xs \<Longrightarrow> f x = g x) \<Longrightarrow> map_each f xs = map_each g xs"
  by (induction xs) simp_all

lemma writes_news:
  assumes "\<forall>v \<in> set news. va_createdAt v = zero_time"
  shows "map_each (writeVariant E) (map va_Snapshot news) = map_each (insertVariant E) (map va_Snapshot news)"
  using assms by (intro map_each_cong) (auto simp: writeVariant_def)

text \<open>What an update that succeeded has done.\<close>

lemma products_Update_Inr:
  assumes run: "products_Update E q s = (Inr q', s')" and c: "canonical (ce_U E) (pr_id q)"
    and dp: "distinct (map pw_ID (products (w_db s)))" and dv: "distinct (map vw_ID (variants (w_db s)))"
    and vs: "pr_variants q = olds @ news" "distinct (map va_id olds)"
    and olds: "\<forall>v \<in> set olds. va_createdAt v \<noteq> zero_time \<and> canonical (ce_U E) (va_id v)"
    and news: "\<forall>v \<in> set news. va_createdAt v = zero_time \<and> canonical (ce_U E) (va_id v) \<and> va_productID v = pr_id q"
  shows "w_db s' = written (ce_J E) (w_db s) q olds news"
    "\<exists>r \<in> set (products (w_db s)). pw_ID r = pr_id q \<and> pw_Version r = clamp32 (pr_version q) \<and> int4 (pw_Version r + 1)"
    "product_checks (pr_name q) (pr_category q) (product_status_text (pr_status q)) = None"
    "pg_text (pr_name q) \<and> pg_text (pr_description q)"
    "\<forall>v \<in> set olds. writable (ce_J E) v \<and>
      (\<exists>r \<in> set (variants (w_db s)). vw_ID r = va_id v \<and> vw_Version r = clamp32 (va_version v) \<and> int4 (vw_Version r + 1))"
    "\<forall>v \<in> set news. writable (ce_J E) v \<and> ToUpper (va_sku v) = va_sku v"
    "distinct (map vw_ID (variants (w_db s')))"
    "distinct (map vw_Sku (variants (w_db s))) \<longrightarrow> distinct (map vw_Sku (variants (w_db s')))"
    "pr_id q' = pr_id q" "pr_version q' = clamp32 (pr_version q) + 1"
proof -
  let ?J = "ce_J E" and ?db = "w_db s" and ?now = "db_now (w_db s)"
  from run c obtain row s1 rows where u: "sql (sql_UpdateProduct (pr_id q) (pr_name q) (pr_description q) (pr_category q)
        (product_status_text (pr_status q)) (clamp32 (pr_version q))) s = (Inr row, s1)"
      "map_each (writeVariant E) (map va_Snapshot (pr_variants q)) s1 = (Inr rows, s')" "q' = cat_toDomain ?J row rows"
    by (auto simp: products_Update_def pr_Snapshot_def canonical_def cat_parseID_def Let_def op_inv split: if_splits)
  have st: "sql_UpdateProduct (pr_id q) (pr_name q) (pr_description q) (pr_category q)
      (product_status_text (pr_status q)) (clamp32 (pr_version q)) ?db = (Inr row, w_db s1)"
    using sql_success [OF u(1)] by simp
  then show "pg_text (pr_name q) \<and> pg_text (pr_description q)"
    by (auto simp: sql_UpdateProduct_def split: if_splits)
  with st obtain t where o: "update_one (\<lambda>r. pw_ID r = pr_id q \<and> pw_Version r = clamp32 (pr_version q))
        (\<lambda>r. if \<not> int4 (pw_Version r + 1) then Inl out_of_range
             else (case product_checks (pr_name q) (pr_category q) (product_status_text (pr_status q)) of
                Some e \<Rightarrow> Inl e
              | None \<Rightarrow> Inr (r\<lparr>pw_Name := pr_name q, pw_Description := pr_description q, pw_Category := pr_category q,
                   pw_Status := product_status_text (pr_status q), pw_UpdatedAt := ?now, pw_Version := pw_Version r + 1\<rparr>)))
        (products ?db) = Inr (row, t)" and db1: "w_db s1 = ?db\<lparr>products := t\<rparr>"
    by (auto simp: sql_UpdateProduct_def split: sum.splits prod.splits)
  obtain r where r: "r \<in> set (products ?db)" "pw_ID r = pr_id q" "pw_Version r = clamp32 (pr_version q)"
      "(if \<not> int4 (pw_Version r + 1) then Inl out_of_range
        else (case product_checks (pr_name q) (pr_category q) (product_status_text (pr_status q)) of
           Some e \<Rightarrow> Inl e
         | None \<Rightarrow> Inr (r\<lparr>pw_Name := pr_name q, pw_Description := pr_description q, pw_Category := pr_category q,
              pw_Status := product_status_text (pr_status q), pw_UpdatedAt := ?now, pw_Version := pw_Version r + 1\<rparr>))) = Inr row"
      "t = map (\<lambda>x. if pw_ID x = pr_id q then row else x) (products ?db)"
    by (rule update_by_id [OF dp o]) (rule that; assumption)
  from r(4) have row: "row = revised ?now q r" and ok: "int4 (pw_Version r + 1)"
    "product_checks (pr_name q) (pr_category q) (product_status_text (pr_status q)) = None"
    by (auto simp: revised_def split: if_splits option.splits)
  show "product_checks (pr_name q) (pr_category q) (product_status_text (pr_status q)) = None" by (rule ok)
  show "\<exists>r \<in> set (products ?db). pw_ID r = pr_id q \<and> pw_Version r = clamp32 (pr_version q) \<and> int4 (pw_Version r + 1)"
    using r(1-3) ok(1) by blast
  show "pr_id q' = pr_id q" "pr_version q' = clamp32 (pr_version q) + 1"
    using r(2,3) row u(3) by simp_all
  have t: "t = map (\<lambda>x. if pw_ID x = pr_id q then revised ?now q x else x) (products ?db)"
    unfolding r(5) row using distinct_map_inj [OF dp _ r(1)] r(2) by auto
  have "map_each (writeVariant E) (map va_Snapshot olds @ map va_Snapshot news) s1 = (Inr rows, s')"
    using u(2) by (simp add: vs(1))
  then obtain as bs s2 where w1: "map_each (writeVariant E) (map va_Snapshot olds) s1 = (Inr as, s2)"
      "map_each (writeVariant E) (map va_Snapshot news) s2 = (Inr bs, s')"
    unfolding map_each_append by blast
  have "map_each (writeVariant E) (map va_Snapshot news) = map_each (insertVariant E) (map va_Snapshot news)"
    using news by (intro writes_news) blast
  note w = w1(1) w1(2) [unfolded this]
  have s1: "variants (w_db s1) = variants ?db" "db_now (w_db s1) = ?now" using db1 by simp_all
  from olds have olds': "\<forall>v \<in> set olds. va_createdAt v \<noteq> zero_time \<and> uuid_Parse (ce_U E) (va_id v) = Inr (va_id v)"
    by (simp add: canonical_def)
  from write_olds [OF w(1) vs(2) olds'] dv
  have a: "w_db s2 = (w_db s1)\<lparr>variants := map (rewritten ?J ?now olds) (variants ?db)\<rparr>"
    "\<forall>v \<in> set olds. writable ?J v \<and>
      (\<exists>r \<in> set (variants ?db). vw_ID r = va_id v \<and> vw_Version r = clamp32 (va_version v) \<and> int4 (vw_Version r + 1))"
    unfolding s1 by blast+
  show "\<forall>v \<in> set olds. writable ?J v \<and>
      (\<exists>r \<in> set (variants ?db). vw_ID r = va_id v \<and> vw_Version r = clamp32 (va_version v) \<and> int4 (vw_Version r + 1))"
    by (rule a(2))
  from news c have news': "\<forall>v \<in> set news. uuid_Parse (ce_U E) (va_id v) = Inr (va_id v) \<and>
      uuid_Parse (ce_U E) (va_productID v) = Inr (va_productID v)" by (simp add: canonical_def)
  note i = insert_news [OF w(2) news']
  have ids: "map vw_ID (variants (w_db s2)) = map vw_ID (variants ?db)" "map vw_Sku (variants (w_db s2)) = map vw_Sku (variants ?db)"
    unfolding a(1) by simp_all
  from i show "\<forall>v \<in> set news. writable ?J v \<and> ToUpper (va_sku v) = va_sku v" by blast
  from i dv show "distinct (map vw_ID (variants (w_db s')))" unfolding ids by blast
  from i show "distinct (map vw_Sku (variants ?db)) \<longrightarrow> distinct (map vw_Sku (variants (w_db s')))"
    unfolding ids by blast
  from i have "w_db s' = (w_db s2)\<lparr>variants := variants (w_db s2) @ map (born ?J (db_now (w_db s2))) news\<rparr>" by blast
  then show "w_db s' = written ?J ?db q olds news" unfolding a(1) db1 t written_def by simp
qed

end
