(* ===== verification/CatRuns.thy ===== *)
theory CatRuns
  imports CatBooks
begin

text \<open>
  Requests to the catalog, the books of its database, and that every request keeps them under
  every schedule of faults; what a stored product and a stored variant can become.
\<close>

subsection \<open>The books\<close>

definition plain :: "Variant \<Rightarrow> bool" where
  "plain v \<longleftrightarrow> text_map (va_attributes v)"

definition variant_row_ok :: "cat_env \<Rightarrow> cat_db \<Rightarrow> variant_row \<Rightarrow> bool" where
  "variant_row_ok E db v \<longleftrightarrow> canonical (ce_U E) (vw_ID v) \<and> vw_ProductID v \<in> pw_ID ` set (products db) \<and>
     ToUpper (vw_Sku v) = vw_Sku v \<and> price_checks (vw_PriceAmountMinor v) (vw_PriceCurrency v) = None \<and>
     vw_CreatedAt v \<noteq> zero_time \<and> 1 \<le> vw_Version v \<and> int4 (vw_Version v) \<and>
     text_map (unmarshalAttributes (ce_J E) (vw_Attributes v))"

definition product_row_ok :: "cat_env \<Rightarrow> cat_db \<Rightarrow> product_row \<Rightarrow> bool" where
  "product_row_ok E db r \<longleftrightarrow> canonical (ce_U E) (pw_ID r) \<and>
     product_checks (pw_Name r) (pw_Category r) (pw_Status r) = None \<and>
     pw_CreatedAt r \<noteq> zero_time \<and> pg_time (pw_CreatedAt r) = pw_CreatedAt r \<and> 1 \<le> pw_Version r \<and> int4 (pw_Version r) \<and>
     (\<exists>cur. \<forall>v \<in> set (rows_of db (pw_ID r)). vw_PriceCurrency v = cur) \<and>
     (pw_Status r = ''active'' \<longrightarrow> rows_of db (pw_ID r) \<noteq> [])"

definition cat_ok :: "cat_env \<Rightarrow> cat_db \<Rightarrow> bool" where
  "cat_ok E db \<longleftrightarrow> distinct (map pw_ID (products db)) \<and> distinct (map vw_ID (variants db)) \<and>
     distinct (map vw_Sku (variants db)) \<and> (\<forall>r \<in> set (products db). product_row_ok E db r) \<and>
     (\<forall>v \<in> set (variants db). variant_row_ok E db v) \<and> db_now db \<noteq> zero_time \<and> pg_time (db_now db) = db_now db"

definition cat_env_ok :: "cat_env \<Rightarrow> bool" where
  "cat_env_ok E \<longleftrightarrow> uuid_ok (ce_U E) \<and> attr_lib_ok (ce_J E)"

lemma canonical_nonempty: "uuid_ok U \<Longrightarrow> canonical U i \<Longrightarrow> i \<noteq> []"
proof -
  assume "uuid_ok U" and "canonical U i"
  then have "canonical_uuid i" unfolding uuid_ok_def canonical_def by blast
  from canonical_uuid_trim(2) [OF this] show "i \<noteq> []" by auto
qed

subsection \<open>What a stored product and a stored variant can become\<close>

definition unit_moves :: "variant_row \<Rightarrow> variant_row \<Rightarrow> bool" where
  "unit_moves v v' \<longleftrightarrow> vw_ID v' = vw_ID v \<and> vw_ProductID v' = vw_ProductID v \<and> vw_Sku v' = vw_Sku v \<and>
     vw_CreatedAt v' = vw_CreatedAt v"

definition product_moves :: "cat_db \<Rightarrow> cat_db \<Rightarrow> product_row \<Rightarrow> product_row \<Rightarrow> bool" where
  "product_moves db db' r r' \<longleftrightarrow> pw_ID r' = pw_ID r \<and> pw_CreatedAt r' = pw_CreatedAt r \<and>
     pw_Version r \<le> pw_Version r' \<and> further (ProductStatus_of (pw_Status r)) (ProductStatus_of (pw_Status r')) \<and>
     (pw_Version r' = pw_Version r \<longrightarrow> r' = r \<and> rows_of db' (pw_ID r) = rows_of db (pw_ID r))"

definition cat_evolves :: "cat_db \<Rightarrow> cat_db \<Rightarrow> bool" where
  "cat_evolves db db' \<longleftrightarrow> (\<forall>r \<in> set (products db). \<exists>r' \<in> set (products db'). product_moves db db' r r') \<and>
     (\<forall>v \<in> set (variants db). \<exists>v' \<in> set (variants db'). unit_moves v v')"

lemma further_refl [simp]: "further a a"
  by (simp add: further_def)

lemma further_trans: "further a b \<Longrightarrow> further b c \<Longrightarrow> further a c"
  by (auto simp: further_def)

lemma cat_evolves_refl: "cat_evolves db db"
  by (auto simp: cat_evolves_def product_moves_def unit_moves_def)

lemma product_moves_trans:
  "product_moves db db' r r' \<Longrightarrow> product_moves db' db'' r' r'' \<Longrightarrow> product_moves db db'' r r''"
  unfolding product_moves_def by (auto intro: further_trans)

lemma product_evolves:
  assumes "cat_evolves db db'" and "r \<in> set (products db)"
  obtains r' where "r' \<in> set (products db')" "product_moves db db' r r'"
  using assms unfolding cat_evolves_def by blast

lemma unit_evolves:
  assumes "cat_evolves db db'" and "v \<in> set (variants db)"
  obtains v' where "v' \<in> set (variants db')" "unit_moves v v'"
  using assms unfolding cat_evolves_def by blast

lemma cat_evolves_trans:
  assumes "cat_evolves db db'" and "cat_evolves db' db''"
  shows "cat_evolves db db''"
proof -
  have "\<exists>r'' \<in> set (products db''). product_moves db db'' r r''" if r: "r \<in> set (products db)" for r
  proof -
    obtain r' where r': "r' \<in> set (products db')" "product_moves db db' r r'" by (rule product_evolves [OF assms(1) r])
    obtain r'' where "r'' \<in> set (products db'')" "product_moves db' db'' r' r''"
      by (rule product_evolves [OF assms(2) r'(1)])
    with product_moves_trans [OF r'(2)] show ?thesis by blast
  qed
  moreover have "\<exists>v'' \<in> set (variants db''). unit_moves v v''" if v: "v \<in> set (variants db)" for v
  proof -
    obtain v' where v': "v' \<in> set (variants db')" "unit_moves v v'" by (rule unit_evolves [OF assms(1) v])
    obtain v'' where "v'' \<in> set (variants db'')" "unit_moves v' v''" by (rule unit_evolves [OF assms(2) v'(1)])
    with v'(2) show ?thesis unfolding unit_moves_def by auto
  qed
  ultimately show ?thesis unfolding cat_evolves_def by blast
qed

definition cat_good :: "cat_env \<Rightarrow> cat_db \<Rightarrow> cat_db \<Rightarrow> bool" where
  "cat_good E db db' \<longleftrightarrow> cat_ok E db' \<and> cat_evolves db db'"

subsection \<open>Changes of a stored product\<close>

definition proper :: "uuid_lib \<Rightarrow> (Product \<Rightarrow> err + Product) \<Rightarrow> bool" where
  "proper U change \<longleftrightarrow> (\<forall>p q. change p = Inr q \<longrightarrow> edits p q \<and>
     (\<forall>v \<in> set (pr_variants q). va_id v \<in> va_id ` set (pr_variants p) \<or> canonical U (va_id v)) \<and>
     ((\<forall>v \<in> set (pr_variants p). plain v) \<longrightarrow> (\<forall>v \<in> set (pr_variants q). plain v)) \<and>
     ((\<forall>v \<in> set (pr_variants p). va_id v \<noteq> []) \<longrightarrow> distinct (map va_id (pr_variants p)) \<longrightarrow>
        sound_product p \<longrightarrow> sound_product q))"

lemma properI:
  assumes "\<And>p q. change p = Inr q \<Longrightarrow> edits p q"
    and "\<And>p q v. change p = Inr q \<Longrightarrow> v \<in> set (pr_variants q) \<Longrightarrow> va_id v \<in> va_id ` set (pr_variants p) \<or> canonical U (va_id v)"
    and "\<And>p q v. change p = Inr q \<Longrightarrow> v \<in> set (pr_variants q) \<Longrightarrow> plain v \<or> v \<in> set (pr_variants p)"
    and "\<And>p q. change p = Inr q \<Longrightarrow> sound_product p \<Longrightarrow> \<forall>v \<in> set (pr_variants p). va_id v \<noteq> [] \<Longrightarrow>
      distinct (map va_id (pr_variants p)) \<Longrightarrow> sound_product q"
  shows "proper U change"
  unfolding proper_def using assms by blast

lemma Archive_variants: "pr_variants (Archive p) = pr_variants p"
  by (simp add: Archive_def)

lemma reprice_set: "v \<in> set (reprice i price attrs vs) \<Longrightarrow>
  v \<in> set vs \<or> (\<exists>w \<in> set vs. v = w\<lparr>va_price := price, va_attributes := attrs\<rparr>)"
  by (induction vs) (auto split: if_splits)

lemma proper_changes:
  "proper U (UpdateDetails name description category)"
  "canonical U new_id \<Longrightarrow> text_map attrs \<Longrightarrow> proper U (AddVariant new_id sku price attrs)"
  "text_map attrs \<Longrightarrow> proper U (cat_UpdateVariant i price attrs)"
  "proper U Publish"
  "proper U (\<lambda>p. Inr (Archive p))"
proof -
  show "proper U (UpdateDetails name description category)"
    by (rule properI, erule change_edits(1), (auto dest!: UpdateDetails_Inr(2)) [2])
      (rule change_sound(1); assumption)
  show "proper U Publish"
    by (rule properI, erule change_edits(4), (auto simp: Publish_Inr) [2]) (rule change_sound(4); assumption)
  show "proper U (\<lambda>p. Inr (Archive p))"
    by (rule properI) (auto intro: change_edits(5) change_sound(5) simp: Archive_variants)
  show "proper U (AddVariant new_id sku price attrs)" if "canonical U new_id" "text_map attrs"
    by (rule properI, erule change_edits(2), (use that in \<open>auto simp: plain_def dest!: AddVariant_Inr(7)\<close>) [2])
      (rule change_sound(2); assumption)
  show "proper U (cat_UpdateVariant i price attrs)" if "text_map attrs"
    by (rule properI, erule change_edits(3),
        (use that in \<open>auto simp: plain_def dest!: cat_UpdateVariant_Inr(6) reprice_set\<close>) [2])
      (rule change_sound(3); assumption)
qed

lemma sound_loaded:
  assumes "cat_ok E db" and "r \<in> set (products db)"
  shows "sound_product (load_product J db r)" "distinct (map va_id (pr_variants (load_product J db r)))"
    "\<forall>v \<in> set (pr_variants (load_product (ce_J E) db r)). plain v"
proof -
  from assms have r: "product_row_ok E db r" by (simp add: cat_ok_def)
  have "pw_Status r = ''active''" if "ProductStatus_of (pw_Status r) = StatusActive"
    using that by (auto simp: ProductStatus_of_def split: if_splits)
  moreover have "in_order_of_birth vs = [] \<longleftrightarrow> vs = []" for vs
    by (metis set_empty set_in_order)
  ultimately show "sound_product (load_product J db r)"
    using r by (auto simp: sound_product_def product_row_ok_def)
  have "distinct (map vw_ID (rows_of db (pw_ID r)))"
    using assms(1) by (simp add: cat_ok_def rows_of_def distinct_map_filter)
  then show "distinct (map va_id (pr_variants (load_product J db r)))" by (simp add: comp_def)
  show "\<forall>v \<in> set (pr_variants (load_product (ce_J E) db r)). plain v"
    using assms(1) by (auto simp: plain_def cat_ok_def variant_row_ok_def rows_of_def)
qed

subsection \<open>A change, stored\<close>

text \<open>The rows of a changed product: those it had, rewritten, and those of its new variants.\<close>

lemma stored_rows:
  assumes "\<forall>v \<in> set news. va_productID v = i"
  shows "rows_of (written J db q olds news) k =
     map (rewritten J (db_now db) olds) (rows_of db k) @ (if k = i then map (born J (db_now db)) news else [])"
proof -
  have "filter (\<lambda>v. vw_ProductID v = k) (map (born J (db_now db)) news) = (if k = i then map (born J (db_now db)) news else [])"
    using assms by (auto simp: filter_map comp_def filter_id_conv filter_empty_conv)
  then show ?thesis by (simp add: rows_of_def filter_map comp_def)
qed

lemma same_units_facts:
  assumes "list_all2 same_unit vs ws"
  shows "map va_id ws = map va_id vs" "map va_sku ws = map va_sku vs" "map va_version ws = map va_version vs"
    "map va_createdAt ws = map va_createdAt vs"
  using assms by (induction rule: list_all2_induct) (auto simp: same_unit_def)

lemma mutate_tx_Inr:
  assumes env: "cat_env_ok E" and ok: "cat_ok E (w_db s)" and ch: "proper (ce_U E) change"
    and run: "mutate_tx E i change s = (Inr q', s')"
  obtains r q olds news where "r \<in> set (products (w_db s))" "uuid_Parse (ce_U E) i = Inr (pw_ID r)"
    "change (load_product (ce_J E) (w_db s) r) = Inr q" "pr_variants q = olds @ news" "pr_id q = pw_ID r"
    "list_all2 same_unit (pr_variants (load_product (ce_J E) (w_db s) r)) olds"
    "\<forall>v \<in> set news. new_unit (load_product (ce_J E) (w_db s) r) v \<and> canonical (ce_U E) (va_id v)"
    "\<forall>v \<in> set (olds @ news). plain v \<and> writable (ce_J E) v"
    "\<forall>v \<in> set news. ToUpper (va_sku v) = va_sku v"
    "w_db s' = written (ce_J E) (w_db s) q olds news"
    "product_checks (pr_name q) (pr_category q) (product_status_text (pr_status q)) = None"
    "int4 (pw_Version r + 1)" "\<forall>v \<in> set (rows_of (w_db s) (pw_ID r)). int4 (vw_Version v + 1)"
    "distinct (map vw_ID (variants (w_db s')))" "distinct (map vw_Sku (variants (w_db s')))"
    "pr_id q' = pw_ID r" "pr_version q' = pw_Version r + 1"
proof -
  let ?J = "ce_J E" and ?U = "ce_U E" and ?db = "w_db s"
  from run obtain p q s1 where m: "products_FindByID E i s = (Inr p, s1)" "change p = Inr q"
      "products_Update E q s1 = (Inr q', s')"
    by (auto simp: mutate_tx_def op_inv)
  obtain r where r: "r \<in> set (products ?db)" "uuid_Parse ?U i = Inr (pw_ID r)" "p = load_product ?J ?db r" "w_db s1 = ?db"
    by (rule loaded_by_id [OF m(1)])
  note d = ok [unfolded cat_ok_def]
  from ch m(2) have ed: "edits p q" and ids: "\<forall>v \<in> set (pr_variants q). va_id v \<in> va_id ` set (pr_variants p) \<or> canonical ?U (va_id v)"
    and pl: "(\<forall>v \<in> set (pr_variants p). plain v) \<longrightarrow> (\<forall>v \<in> set (pr_variants q). plain v)"
    unfolding proper_def by blast+
  from ed obtain olds news where vs: "pr_variants q = olds @ news" "list_all2 same_unit (pr_variants p) olds"
      "\<forall>v \<in> set news. new_unit p v" and q: "pr_id q = pr_id p" "pr_version q = pr_version p"
    unfolding edits_def by blast
  note units = same_units_facts [OF vs(2)]
  have rows: "set (pr_variants p) = toDomainVariant ?J ` set (rows_of ?db (pw_ID r))" by (simp add: r(3))
  have row_ok: "variant_row_ok E ?db v" "v \<in> set (variants ?db)" if "v \<in> set (rows_of ?db (pw_ID r))" for v
    using d that by (simp_all add: rows_of_def)
  have pids: "\<forall>k \<in> va_id ` set (pr_variants p). canonical ?U k"
    unfolding rows using row_ok(1) by (auto simp: variant_row_ok_def)
  have oids: "va_id ` set olds = va_id ` set (pr_variants p)" using units(1) by (metis list.set_map)
  have dis: "distinct (map va_id olds)" unfolding units(1) r(3) by (rule sound_loaded(2) [OF ok r(1)])
  have times: "\<forall>v \<in> set olds. va_createdAt v \<noteq> zero_time"
  proof -
    have "va_createdAt ` set olds = va_createdAt ` set (pr_variants p)" using units(4) by (metis list.set_map)
    also have "\<dots> = vw_CreatedAt ` set (rows_of ?db (pw_ID r))" unfolding rows by (simp add: image_image)
    finally have "\<forall>t \<in> va_createdAt ` set olds. t \<noteq> zero_time" using row_ok(1) by (auto simp: variant_row_ok_def)
    then show ?thesis by blast
  qed
  have o: "\<forall>v \<in> set olds. va_createdAt v \<noteq> zero_time \<and> canonical ?U (va_id v)"
    using times oids pids by blast
  have cq: "\<forall>v \<in> set (pr_variants q). canonical ?U (va_id v)" using ids pids by blast
  have n: "\<forall>v \<in> set news. va_createdAt v = zero_time \<and> canonical ?U (va_id v) \<and> va_productID v = pr_id q"
    using vs(1,3) cq q(1) by (auto simp: new_unit_def)
  have c: "canonical ?U (pr_id q)" using d r(1,3) q(1) by (simp add: product_row_ok_def)
  have dp: "distinct (map pw_ID (products (w_db s1)))" "distinct (map vw_ID (variants (w_db s1)))"
    "distinct (map vw_Sku (variants (w_db s1)))" using d r(4) by simp_all
  note w = products_Update_Inr [OF m(3) c dp(1,2) vs(1) dis o n, unfolded r(4)]
  have vr: "clamp32 (pr_version q) = pw_Version r"
    using d r(1,3) q(2) by (auto simp: product_row_ok_def int4_def)
  obtain r0 where r0: "r0 \<in> set (products ?db)" "pw_ID r0 = pr_id q" "pw_Version r0 = clamp32 (pr_version q)" "int4 (pw_Version r0 + 1)"
    using w(2) by blast
  have int: "int4 (pw_Version r + 1)" using r0(3,4) vr by simp
  have vint: "int4 (vw_Version v + 1)" if "v \<in> set (rows_of ?db (pw_ID r))" for v
  proof -
    from that have "vw_ID v \<in> va_id ` set olds" unfolding oids rows by (force simp: image_image)
    then obtain u where u: "u \<in> set olds" "va_id u = vw_ID v" by auto
    from w(5) u(1) obtain x where x: "x \<in> set (variants ?db)" "vw_ID x = va_id u" "int4 (vw_Version x + 1)" by blast
    have "x = v" using distinct_map_inj [of vw_ID "variants ?db" x v] d x(1,2) u(2) row_ok(2) [OF that] by simp
    with x(3) show ?thesis by simp
  qed
  have plq: "\<forall>v \<in> set (olds @ news). plain v \<and> writable ?J v"
    using w(5,6) pl sound_loaded(3) [OF ok r(1)] r(3) vs(1) by auto
  show ?thesis
    by (rule that [OF r(1,2) m(2) [unfolded r(3)] vs(1) _ vs(2) [unfolded r(3)] _ plq _ w(1,3) int _ w(7) _ _])
      (use q r w(6,8,9,10) vs(3) n vint vr dp(3) in auto)
qed

subsection \<open>Every request keeps the books\<close>

lemma rewritten_cases:
  "(rewritten J now olds v = v \<and> vw_ID v \<notin> va_id ` set olds) \<or>
   (\<exists>w \<in> set olds. va_id w = vw_ID v \<and> rewritten J now olds v = repriced J now w v)"
proof (cases "List.find (\<lambda>w. va_id w = vw_ID v) olds")
  case None
  then have "\<forall>w \<in> set olds. va_id w \<noteq> vw_ID v" by (simp add: find_None)
  with None show ?thesis by (auto simp: rewritten_def)
next
  case (Some w)
  from find_key_Some [OF Some] Some show ?thesis by (auto simp: rewritten_def)
qed

lemma status_text_of [simp]: "product_status_text (ProductStatus_of s) = s"
  by (simp add: ProductStatus_of_def)

lemma edits_text: "edits p q \<Longrightarrow> pr_status p = ProductStatus_of s \<Longrightarrow>
  further (ProductStatus_of s) (ProductStatus_of (product_status_text (pr_status q)))"
  unfolding edits_def further_def
  by (cases "pr_status q") (auto simp: ProductStatus_of_def split: if_splits)

lemma kept_plain:
  assumes "attr_lib_ok J" and "plain v" and "writable J v"
  shows "same_map (unmarshalAttributes J (kept_attributes J v)) (va_attributes v)"
    "text_map (unmarshalAttributes J (kept_attributes J v))"
  using assms unfolding attr_lib_ok_def plain_def writable_def by blast+

lemma written_good:
  assumes env: "cat_env_ok E" and ok: "cat_ok E db" and r: "r \<in> set (products db)" "pw_ID r = i"
    and q: "pr_id q = i" "pr_variants q = olds @ news" "sound_product q"
    and ed: "edits (load_product (ce_J E) db r) q"
    and olds: "list_all2 same_unit (pr_variants (load_product (ce_J E) db r)) olds"
    and news: "\<forall>v \<in> set news. new_unit (load_product (ce_J E) db r) v \<and> canonical (ce_U E) (va_id v)"
      "\<forall>v \<in> set news. ToUpper (va_sku v) = va_sku v"
    and wr: "\<forall>v \<in> set (olds @ news). plain v \<and> writable (ce_J E) v"
    and pc: "product_checks (pr_name q) (pr_category q) (product_status_text (pr_status q)) = None"
    and int: "int4 (pw_Version r + 1)" "\<forall>v \<in> set (rows_of db i). int4 (vw_Version v + 1)"
  defines "db' \<equiv> written (ce_J E) db q olds news"
  assumes dis: "distinct (map vw_ID (variants db'))" "distinct (map vw_Sku (variants db'))"
  shows "cat_good E db db'"
proof -
  let ?J = "ce_J E" and ?U = "ce_U E"
  note d = ok [unfolded cat_ok_def]
  have now: "db_now db' = db_now db" "db_now db \<noteq> zero_time" "pg_time (db_now db) = db_now db" using d by (simp_all add: db'_def)
  have names: "map pw_ID (products db') = map pw_ID (products db)" by (simp add: db'_def)
  then have ids: "pw_ID ` set (products db') = pw_ID ` set (products db)" "map pw_ID (products db') = map pw_ID (products db)"
    by (metis list.set_map)+
  have newp: "\<forall>v \<in> set news. va_productID v = i" using news(1) r(2) by (simp add: new_unit_def)
  note rows = stored_rows [OF newp, of ?J db q olds, folded db'_def]
  have oids: "va_id ` set olds = vw_ID ` set (rows_of db i)"
  proof -
    have "va_id ` set olds = va_id ` set (pr_variants (load_product ?J db r))"
      using same_units_facts(1) [OF olds] by (metis list.set_map)
    then show ?thesis by (simp add: r(2) image_image)
  qed
  have rep: "\<exists>w \<in> set olds. va_id w = vw_ID v \<and> rewritten ?J (db_now db) olds v = repriced ?J (db_now db) w v"
    if "v \<in> set (rows_of db i)" for v
    using rewritten_cases [of ?J "db_now db" olds v] that oids by blast
  have other: "rewritten ?J (db_now db) olds v = v" if v: "v \<in> set (variants db)" "vw_ProductID v \<noteq> i" for v
  proof -
    have "vw_ID v \<notin> va_id ` set olds"
    proof
      assume "vw_ID v \<in> va_id ` set olds"
      then obtain x where "x \<in> set (rows_of db i)" "vw_ID x = vw_ID v" unfolding oids by auto
      with distinct_map_inj [of vw_ID "variants db" x v] d v show False by (auto simp: rows_of_def)
    qed
    with rewritten_cases [of ?J "db_now db" olds v] show ?thesis by (metis imageI)
  qed
  have others: "rows_of db' k = rows_of db k" if "k \<noteq> i" for k
  proof -
    have "map (rewritten ?J (db_now db) olds) (rows_of db k) = rows_of db k"
      using that other by (intro map_idI) (simp add: rows_of_def)
    with rows [of k] that show ?thesis by simp
  qed
  obtain cur where cur: "\<forall>v \<in> set (olds @ news). currency (va_price v) = cur"
    using q(2,3) unfolding sound_product_def by auto
  have one: "\<forall>v \<in> set (rows_of db' i). vw_PriceCurrency v = cur"
  proof
    fix v assume "v \<in> set (rows_of db' i)"
    then consider x where "x \<in> set (rows_of db i)" "v = rewritten ?J (db_now db) olds x"
      | x where "x \<in> set news" "v = born ?J (db_now db) x"
      unfolding rows by auto
    then show "vw_PriceCurrency v = cur"
    proof cases
      case 1
      with rep [OF 1(1)] cur show ?thesis by auto
    qed (use cur in simp)
  qed
  have act: "rows_of db' i \<noteq> []" if "product_status_text (pr_status q) = ''active''"
  proof -
    have "further (ProductStatus_of (pw_Status r)) (pr_status q)" using ed by (simp add: edits_def)
    then consider "pr_status q = ProductStatus_of (pw_Status r)" | "pr_status q = StatusArchived" | "pr_status q = StatusActive"
      unfolding further_def by metis
    then have "pr_status q = StatusActive"
      using that by cases (auto simp: ProductStatus_of_def split: if_splits)
    with q(2,3) have "olds @ news \<noteq> []" by (simp add: sound_product_def)
    then have "set olds \<noteq> {} \<or> news \<noteq> []" by simp
    then have "rows_of db i \<noteq> [] \<or> news \<noteq> []" using oids by auto
    then show ?thesis unfolding rows by simp
  qed
  have prow: "product_row_ok E db' x'" if x': "x' \<in> set (products db')" for x'
  proof -
    from x' obtain x where x: "x \<in> set (products db)" "x' = (if pw_ID x = i then revised (db_now db) q x else x)"
      by (auto simp: db'_def q(1))
    from d x(1) have xo: "product_row_ok E db x" by blast
    show ?thesis
    proof (cases "pw_ID x = i")
      case True
      then have "x = r" using distinct_map_inj [of pw_ID "products db" x r] d x(1) r by simp
      with True xo x(2) pc int(1) one act show ?thesis by (auto simp: product_row_ok_def)
    next
      case False
      with xo x(2) others show ?thesis by (simp add: product_row_ok_def)
    qed
  qed
  have vrow: "variant_row_ok E db' v'" if v': "v' \<in> set (variants db')" for v'
  proof -
    from v' consider v where "v \<in> set (variants db)" "vw_ProductID v \<noteq> i" "v' = v"
      | v where "v \<in> set (rows_of db i)" "v' = rewritten ?J (db_now db) olds v"
      | v where "v \<in> set news" "v' = born ?J (db_now db) v"
      using other by (auto simp: db'_def rows_of_def)
    then show ?thesis
    proof cases
      case 1
      with d ids(1) show ?thesis by (simp add: variant_row_ok_def)
    next
      case 2
      then have vo: "variant_row_ok E db v" using d by (simp add: rows_of_def)
      obtain w where w: "w \<in> set olds" "rewritten ?J (db_now db) olds v = repriced ?J (db_now db) w v"
        using rep [OF 2(1)] by blast
      with wr have "writable ?J w" "plain w" by auto
      moreover have "text_map (unmarshalAttributes ?J (kept_attributes ?J w))"
        using kept_plain(2) env calculation by (simp add: cat_env_ok_def)
      ultimately show ?thesis using vo w(2) 2 ids(1) int(2) by (auto simp: variant_row_ok_def writable_def)
    next
      case 3
      with wr have "writable ?J v" "plain v" by auto
      moreover have "text_map (unmarshalAttributes ?J (kept_attributes ?J v))"
        using kept_plain(2) env calculation by (simp add: cat_env_ok_def)
      ultimately show ?thesis
        using 3 news newp now(2) ids(1) r by (auto simp: variant_row_ok_def writable_def int4_def MaxInt32_def)
    qed
  qed
  have ok': "cat_ok E db'"
    unfolding cat_ok_def using d dis ids(2) prow vrow now by simp
  have "\<exists>x' \<in> set (products db'). product_moves db db' x x'" if x: "x \<in> set (products db)" for x
  proof (cases "pw_ID x = i")
    case True
    then have "x = r" using distinct_map_inj [of pw_ID "products db" x r] d x r by simp
    moreover have "revised (db_now db) q r \<in> set (products db')" using r q(1) by (auto simp: db'_def)
    moreover have "further (ProductStatus_of (pw_Status r)) (ProductStatus_of (product_status_text (pr_status q)))"
      using edits_text [OF ed] by simp
    ultimately show ?thesis by (auto simp: product_moves_def intro!: bexI [of _ "revised (db_now db) q r"])
  next
    case False
    then have "x \<in> set (products db')" using x q(1) by (force simp: db'_def)
    with others [OF False] show ?thesis by (auto simp: product_moves_def intro!: bexI [of _ x])
  qed
  moreover have "\<exists>v' \<in> set (variants db'). unit_moves v v'" if "v \<in> set (variants db)" for v
    using that by (auto simp: db'_def unit_moves_def intro!: bexI [of _ "rewritten ?J (db_now db) olds v"])
  ultimately show ?thesis using ok' by (simp add: cat_good_def cat_evolves_def)
qed

subsection \<open>A new product, stored\<close>

lemma newVariant_currency:
  "newVariant v = Inr (sku, price) \<Longrightarrow> sound_price price"
  by (auto simp: newVariant_def cat_newMoney_def cat_NewCurrencyCode_def NewCurrencyCode_def cat_NewMoney_def
      sound_price_def Let_def is_upper_def list_all_iff in_set_conv_nth not_less split: sum.splits if_splits)

lemma add_variants_Inr:
  "add_variants mint n vs p = Inr q \<Longrightarrow> (\<And>k. canonical U (mint k)) \<Longrightarrow> uuid_ok U \<Longrightarrow>
   \<forall>v \<in> set vs. text_map (nv_Attributes v) \<Longrightarrow> \<forall>v \<in> set (pr_variants p). va_id v \<noteq> [] \<Longrightarrow> sound_product p \<Longrightarrow>
   pr_id q = pr_id p \<and> pr_name q = pr_name p \<and> pr_description q = pr_description p \<and> pr_category q = pr_category p \<and>
   pr_status q = pr_status p \<and> sound_product q \<and>
   (\<exists>news. pr_variants q = pr_variants p @ news \<and> (\<forall>v \<in> set news. new_unit p v \<and> canonical U (va_id v) \<and> plain v))"
proof (induction vs arbitrary: n p)
  case (Cons v vs)
  from Cons.prems(1) obtain sku price p' where a: "newVariant v = Inr (sku, price)"
      "AddVariant (mint n) sku price (nv_Attributes v) p = Inr p'" "add_variants mint (Suc n) vs p' = Inr q"
    by (auto split: sum.splits prod.splits)
  note p' = AddVariant_Inr [OF a(2)]
  have "mint n \<noteq> []" using canonical_nonempty Cons.prems(2,3) by blast
  then have ids: "\<forall>v \<in> set (pr_variants p'). va_id v \<noteq> []" using Cons.prems(5) p'(7) by simp
  have "sound_product p'" by (rule AddVariant_sound [OF a(2) Cons.prems(5)])
  from Cons.IH [OF a(3) Cons.prems(2,3) _ ids this] Cons.prems(4) obtain news where
    IH: "pr_id q = pr_id p'" "pr_name q = pr_name p'" "pr_description q = pr_description p'" "pr_category q = pr_category p'"
      "pr_status q = pr_status p'" "sound_product q" "pr_variants q = pr_variants p' @ news"
      "\<forall>v \<in> set news. new_unit p' v \<and> canonical U (va_id v) \<and> plain v"
    by auto
  let ?v = "\<lparr>va_id = mint n, va_productID = pr_id p, va_sku = sku, va_price = price, va_attributes = nv_Attributes v,
      va_createdAt = zero_time, va_updatedAt = zero_time, va_version = 1\<rparr>"
  have "new_unit p ?v \<and> canonical U (va_id ?v) \<and> plain ?v"
    using p'(2) Cons.prems(2,4) by (simp add: new_unit_def plain_def)
  moreover have "new_unit p w \<longleftrightarrow> new_unit p' w" for w using p'(7) by (simp add: new_unit_def)
  moreover have "pr_variants q = pr_variants p @ (?v # news)" using IH(7) p'(7) by simp
  ultimately show ?case
    using IH(1-6,8) p'(7) by (intro conjI exI [of _ "?v # news"]) auto
qed simp

definition fresh_row :: "gotime \<Rightarrow> Product \<Rightarrow> product_row" where
  "fresh_row now p = \<lparr>pw_ID = pr_id p, pw_Name = pr_name p, pw_Description = pr_description p,
     pw_Category = pr_category p, pw_Status = product_status_text (pr_status p), pw_CreatedAt = now,
     pw_UpdatedAt = now, pw_Version = 1\<rparr>"

lemma fresh_row_simps [simp]:
  "pw_ID (fresh_row now p) = pr_id p" "pw_Name (fresh_row now p) = pr_name p"
  "pw_Description (fresh_row now p) = pr_description p" "pw_Category (fresh_row now p) = pr_category p"
  "pw_Status (fresh_row now p) = product_status_text (pr_status p)" "pw_CreatedAt (fresh_row now p) = now"
  "pw_Version (fresh_row now p) = 1"
  by (simp_all add: fresh_row_def)

definition created :: "attr_lib \<Rightarrow> cat_db \<Rightarrow> Product \<Rightarrow> cat_db" where
  "created J db p = db\<lparr>products := products db @ [fresh_row (db_now db) p],
     variants := variants db @ map (born J (db_now db)) (pr_variants p)\<rparr>"

lemma products_Create_Inr:
  assumes run: "products_Create E p s = (Inr p', s')" and c: "canonical (ce_U E) (pr_id p)"
    and news: "\<forall>v \<in> set (pr_variants p). va_productID v = pr_id p \<and> canonical (ce_U E) (va_id v)"
  shows "w_db s' = created (ce_J E) (w_db s) p" "pr_id p \<notin> pw_ID ` set (products (w_db s))"
    "product_checks (pr_name p) (pr_category p) (product_status_text (pr_status p)) = None"
    "\<forall>v \<in> set (pr_variants p). writable (ce_J E) v \<and> ToUpper (va_sku v) = va_sku v"
    "distinct (map vw_ID (variants (w_db s))) \<longrightarrow> distinct (map vw_ID (variants (w_db s')))"
    "distinct (map vw_Sku (variants (w_db s))) \<longrightarrow> distinct (map vw_Sku (variants (w_db s')))"
    "pr_id p' = pr_id p"
proof -
  let ?J = "ce_J E" and ?db = "w_db s"
  from run c obtain row s1 rows where u: "sql (sql_CreateProduct (pr_id p) (pr_name p) (pr_description p) (pr_category p)
        (product_status_text (pr_status p))) s = (Inr row, s1)"
      "map_each (insertVariant E) (map va_Snapshot (pr_variants p)) s1 = (Inr rows, s')" "p' = cat_toDomain ?J row rows"
    by (auto simp: products_Create_def pr_Snapshot_def canonical_def cat_parseID_def Let_def op_inv)
  from sql_success [OF u(1)] have row: "row = fresh_row (db_now ?db) p" "w_db s1 = ?db\<lparr>products := products ?db @ [row]\<rparr>"
      "pr_id p \<notin> pw_ID ` set (products ?db)"
      "product_checks (pr_name p) (pr_category p) (product_status_text (pr_status p)) = None"
    by (auto simp: sql_CreateProduct_def fresh_row_def Let_def split: if_splits option.splits)
  show "pr_id p \<notin> pw_ID ` set (products ?db)" by (rule row(3))
  show "product_checks (pr_name p) (pr_category p) (product_status_text (pr_status p)) = None" by (rule row(4))
  show "pr_id p' = pr_id p" using u(3) row(1) by simp
  have s1: "variants (w_db s1) = variants ?db" "db_now (w_db s1) = db_now ?db" using row(2) by simp_all
  from news c have "\<forall>v \<in> set (pr_variants p). uuid_Parse (ce_U E) (va_id v) = Inr (va_id v) \<and>
      uuid_Parse (ce_U E) (va_productID v) = Inr (va_productID v)" by (simp add: canonical_def)
  note i = insert_news [OF u(2) this, unfolded s1]
  from i show "\<forall>v \<in> set (pr_variants p). writable ?J v \<and> ToUpper (va_sku v) = va_sku v" by blast
  from i show "distinct (map vw_ID (variants ?db)) \<longrightarrow> distinct (map vw_ID (variants (w_db s')))" by blast
  from i show "distinct (map vw_Sku (variants ?db)) \<longrightarrow> distinct (map vw_Sku (variants (w_db s')))" by blast
  from i have "w_db s' = (w_db s1)\<lparr>variants := variants ?db @ map (born ?J (db_now ?db)) (pr_variants p)\<rparr>" by blast
  then show "w_db s' = created ?J ?db p" by (simp add: created_def row(1,2))
qed

lemma created_good:
  assumes env: "cat_env_ok E" and ok: "cat_ok E db" and c: "canonical (ce_U E) (pr_id p)"
    and fresh: "pr_id p \<notin> pw_ID ` set (products db)"
    and news: "\<forall>v \<in> set (pr_variants p). new_unit p v \<and> canonical (ce_U E) (va_id v) \<and> plain v"
    and wr: "\<forall>v \<in> set (pr_variants p). writable (ce_J E) v \<and> ToUpper (va_sku v) = va_sku v"
    and pc: "product_checks (pr_name p) (pr_category p) (product_status_text (pr_status p)) = None"
    and s: "sound_product p" "pr_status p = StatusDraft"
  defines "db' \<equiv> created (ce_J E) db p"
  assumes dis: "distinct (map vw_ID (variants db'))" "distinct (map vw_Sku (variants db'))"
  shows "cat_good E db db'"
proof -
  let ?J = "ce_J E"
  note d = ok [unfolded cat_ok_def]
  have db': "products db' = products db @ [fresh_row (db_now db) p]"
    "variants db' = variants db @ map (born ?J (db_now db)) (pr_variants p)" "db_now db' = db_now db"
    by (simp_all add: db'_def created_def)
  have old: "vw_ProductID v \<noteq> pr_id p" if "v \<in> set (variants db)" for v
  proof -
    have "vw_ProductID v \<in> pw_ID ` set (products db)" using d that by (simp add: variant_row_ok_def)
    with fresh show ?thesis by metis
  qed
  have mine: "filter (\<lambda>v. vw_ProductID v = k) (map (born ?J (db_now db)) (pr_variants p)) =
      (if k = pr_id p then map (born ?J (db_now db)) (pr_variants p) else [])" for k
    using news by (auto simp: new_unit_def filter_map comp_def filter_id_conv filter_empty_conv)
  have none: "filter (\<lambda>v. vw_ProductID v = pr_id p) (variants db) = []"
    using old by (simp add: filter_empty_conv)
  have rows: "rows_of db' k = (if k = pr_id p then map (born ?J (db_now db)) (pr_variants p) else rows_of db k)" for k
    using mine none by (simp add: rows_of_def db')
  have prow: "product_row_ok E db' r" if "r \<in> set (products db')" for r
  proof (cases "r = fresh_row (db_now db) p")
    case True
    with c pc s d rows show ?thesis
      by (auto simp: product_row_ok_def int4_def MaxInt32_def sound_product_def)
  next
    case False
    with that have r: "r \<in> set (products db)" by (simp add: db')
    then have "pw_ID r \<in> pw_ID ` set (products db)" by (rule imageI)
    with fresh have "pw_ID r \<noteq> pr_id p" by metis
    with r d rows show ?thesis by (simp add: product_row_ok_def)
  qed
  have vrow: "variant_row_ok E db' v" if "v \<in> set (variants db')" for v
  proof (cases "v \<in> set (variants db)")
    case True
    with d have "variant_row_ok E db v" by blast
    then show ?thesis by (simp add: variant_row_ok_def db')
  next
    case False
    with that obtain w where w: "w \<in> set (pr_variants p)" "v = born ?J (db_now db) w" by (auto simp: db')
    with news wr have "plain w" "writable ?J w" by blast+
    with kept_plain(2) env have "text_map (unmarshalAttributes ?J (kept_attributes ?J w))"
      by (simp add: cat_env_ok_def)
    with w news wr d show ?thesis
      by (auto simp: variant_row_ok_def db' writable_def new_unit_def int4_def MaxInt32_def)
  qed
  have "distinct (map pw_ID (products db'))" using d fresh by (simp add: db')
  then have "cat_ok E db'" unfolding cat_ok_def using d dis prow vrow db'(3) by simp
  moreover have "cat_evolves db db'"
    unfolding cat_evolves_def
  proof (intro conjI ballI)
    fix r assume r: "r \<in> set (products db)"
    then have "pw_ID r \<in> pw_ID ` set (products db)" by (rule imageI)
    with fresh have "pw_ID r \<noteq> pr_id p" by metis
    with r show "\<exists>r' \<in> set (products db'). product_moves db db' r r'"
      by (intro bexI [of _ r]) (simp_all add: product_moves_def db'(1) rows)
  next
    fix v assume "v \<in> set (variants db)"
    then show "\<exists>v' \<in> set (variants db'). unit_moves v v'"
      by (intro bexI [of _ v]) (simp_all add: unit_moves_def db'(2))
  qed
  ultimately show ?thesis by (simp add: cat_good_def)
qed

subsection \<open>Requests\<close>

datatype cat_req =
  CatCreate gostring "nat \<Rightarrow> gostring" CreateProductCommand
| CatUpdate UpdateProductCommand
| CatAdd gostring AddVariantCommand
| CatReprice UpdateVariantCommand
| CatPublish gostring
| CatArchive gostring
| CatGet GetProductQuery
| CatGetMany "gostring list"
| CatVariants "gostring list"
| CatList ListProductsQuery

fun cat_exec :: "cat_env \<Rightarrow> time_text \<Rightarrow> cat_req \<Rightarrow> (cat_db, 'w) world \<Rightarrow> (cat_db, 'w) world" where
  "cat_exec E T (CatCreate new_id mint cmd) s = snd (cat_CreateProduct E new_id mint cmd s)"
| "cat_exec E T (CatUpdate cmd) s = snd (cat_UpdateProduct E cmd s)"
| "cat_exec E T (CatAdd new_id cmd) s = snd (cat_AddVariant E new_id cmd s)"
| "cat_exec E T (CatReprice cmd) s = snd (cat_RepriceVariant E cmd s)"
| "cat_exec E T (CatPublish i) s = snd (cat_PublishProduct E i s)"
| "cat_exec E T (CatArchive i) s = snd (cat_ArchiveProduct E i s)"
| "cat_exec E T (CatGet query) s = snd (cat_GetProduct E query s)"
| "cat_exec E T (CatGetMany ids) s = snd (cat_GetProductsByIDs E ids s)"
| "cat_exec E T (CatVariants skus) s = snd (cat_GetVariantsBySKUs E skus s)"
| "cat_exec E T (CatList query) s = snd (cat_ListProducts E T query s)"

text \<open>What a request brings: minted identifiers are canonical, and attributes are maps of valid texts.\<close>

fun cat_minted :: "uuid_lib \<Rightarrow> cat_req \<Rightarrow> bool" where
  "cat_minted U (CatCreate new_id mint cmd) \<longleftrightarrow> canonical U new_id \<and> (\<forall>k. canonical U (mint k)) \<and>
     (\<forall>v \<in> set (cp_Variants cmd). text_map (nv_Attributes v))"
| "cat_minted U (CatAdd new_id cmd) \<longleftrightarrow> canonical U new_id \<and> text_map (nv_Attributes (av_Variant cmd))"
| "cat_minted U (CatReprice cmd) \<longleftrightarrow> text_map (uv_Attributes cmd)"
| "cat_minted U _ \<longleftrightarrow> True"

lemma cat_reading:
  "snd (sql_GetProductByID i db) = db" "snd (sql_GetProductsByIDs ids db) = db" "snd (sql_ListProducts st c n db) = db"
  "snd (sql_ListProductsInCategory st cat c n db) = db" "snd (sql_GetVariantsByProductIDs ids db) = db"
  "snd (sql_GetVariantsBySKUs skus st db) = db"
  by (simp_all add: sql_GetProductByID_def sql_GetProductsByIDs_def sql_ListProducts_def sql_ListProductsInCategory_def
      sql_GetVariantsByProductIDs_def sql_GetVariantsBySKUs_def split: option.splits)

lemma cat_stores_read_only:
  "read_only (withVariants E rows)" "read_only (products_FindByID E i)" "read_only (products_FindByIDs E ids)"
  "read_only (products_FindVariantsBySKUs E skus st)" "read_only (products_List E f)"
proof -
  show w: "read_only (withVariants E rows)" for rows
    unfolding withVariants_def by (auto intro!: read_only_andThen read_only_mapErr read_only_sql simp: cat_reading)
  show "read_only (products_FindByID E i)"
    unfolding products_FindByID_def
    by (auto intro!: read_only_andThen read_only_withResult read_only_sql w simp: cat_reading split: sum.splits)
  show "read_only (products_FindByIDs E ids)"
    unfolding products_FindByIDs_def by (auto intro!: read_only_andThen read_only_mapErr read_only_sql w simp: cat_reading)
  show "read_only (products_FindVariantsBySKUs E skus st)"
    unfolding products_FindVariantsBySKUs_def
    by (auto intro!: read_only_andThen read_only_mapErr read_only_sql simp: cat_reading)
  show "read_only (products_List E f)"
    unfolding products_List_def Let_def
    by (auto intro!: read_only_andThen read_only_mapErr read_only_sql w simp: cat_reading)
qed

lemma cat_reads_only:
  "read_only (cat_GetProduct E query)" "read_only (cat_GetProductsByIDs E ids)"
  "read_only (cat_GetVariantsBySKUs E skus)" "read_only (cat_ListProducts E T q)"
  unfolding cat_GetProduct_def cat_GetProductsByIDs_def cat_GetVariantsBySKUs_def cat_ListProducts_def Let_def
  by (auto intro!: read_only_andThen cat_stores_read_only)

lemma keeps_cat_stores [keeps]:
  "keeps_tx (withVariants E rows)" "keeps_tx (insertVariant E v)" "keeps_tx (writeVariant E v)"
  unfolding withVariants_def insertVariant_def writeVariant_def by (intro keeps)+

lemma keeps_cat_repository [keeps]:
  "keeps_tx (products_FindByID E i)" "keeps_tx (products_FindByIDs E ids)" "keeps_tx (products_Create E p)"
  "keeps_tx (products_Update E p)" "keeps_tx (products_FindVariantsBySKUs E skus st)" "keeps_tx (products_List E f)"
  unfolding products_FindByID_def products_FindByIDs_def products_Create_def products_Update_def
    products_FindVariantsBySKUs_def products_List_def Let_def
  by (intro keeps)+

lemma keeps_cat_app [keeps]:
  "keeps_tx (mutate_tx E i change)" "keeps_tx (cat_mutate E i change)" "keeps_tx (cat_CreateProduct E new_id mint cmd)"
  "keeps_tx (cat_GetProduct E query)" "keeps_tx (cat_GetProductsByIDs E ids)"
  "keeps_tx (cat_GetVariantsBySKUs E skus)" "keeps_tx (cat_ListProducts E T q)"
  unfolding mutate_tx_def cat_mutate_def cat_CreateProduct_def cat_GetProduct_def cat_GetProductsByIDs_def
    cat_GetVariantsBySKUs_def cat_ListProducts_def Let_def
  by (intro keeps)+

lemma Do_effect:
  assumes "Do fn s = (r, s')" and "\<not> w_tx s"
  obtains (unmoved) "w_db s' = w_db s" "isl r"
  | (moved) x s1 s2 where "fn s1 = (Inr x, s2)" "w_db s1 = w_db s" "w_db s' = w_db s2" "r = Inr x \<or> isl r"
proof (cases rule: Do_cases [OF assms, case_names not_begun undone kept])
  case (kept x s1 s2)
  then show ?thesis by (intro moved)
qed (auto intro: unmoved)

lemma cat_good_refl: "cat_ok E db \<Longrightarrow> cat_good E db db"
  by (simp add: cat_good_def cat_evolves_refl)

lemma cat_good_trans: "cat_good E db db' \<Longrightarrow> cat_good E db' db'' \<Longrightarrow> cat_good E db db''"
  unfolding cat_good_def using cat_evolves_trans by blast

lemma Do_mutate_good:
  assumes env: "cat_env_ok E" and ok: "cat_ok E (w_db s)" and tx: "\<not> w_tx s" and ch: "proper (ce_U E) change"
  shows "cat_good E (w_db s) (w_db (snd (Do (mutate_tx E i change) s)))"
proof -
  obtain res s' where run: "Do (mutate_tx E i change) s = (res, s')" by (cases "Do (mutate_tx E i change) s")
  from run tx show ?thesis
  proof (cases rule: Do_effect)
    case unmoved
    with run ok show ?thesis by (simp add: cat_good_refl)
  next
    case (moved x s1 s2)
    have ok1: "cat_ok E (w_db s1)" using ok moved(2) by simp
    obtain r q olds news where m: "r \<in> set (products (w_db s1))" "uuid_Parse (ce_U E) i = Inr (pw_ID r)"
      "change (load_product (ce_J E) (w_db s1) r) = Inr q" "pr_variants q = olds @ news" "pr_id q = pw_ID r"
      "list_all2 same_unit (pr_variants (load_product (ce_J E) (w_db s1) r)) olds"
      "\<forall>v \<in> set news. new_unit (load_product (ce_J E) (w_db s1) r) v \<and> canonical (ce_U E) (va_id v)"
      "\<forall>v \<in> set (olds @ news). plain v \<and> writable (ce_J E) v"
      "\<forall>v \<in> set news. ToUpper (va_sku v) = va_sku v"
      "w_db s2 = written (ce_J E) (w_db s1) q olds news"
      "product_checks (pr_name q) (pr_category q) (product_status_text (pr_status q)) = None"
      "int4 (pw_Version r + 1)" "\<forall>v \<in> set (rows_of (w_db s1) (pw_ID r)). int4 (vw_Version v + 1)"
      "distinct (map vw_ID (variants (w_db s2)))" "distinct (map vw_Sku (variants (w_db s2)))"
      by (rule mutate_tx_Inr [OF env ok1 ch moved(1)]) (rule that; assumption)
    let ?p = "load_product (ce_J E) (w_db s1) r"
    have ids: "\<forall>v \<in> set (pr_variants ?p). va_id v \<noteq> []"
    proof -
      have "canonical (ce_U E) (va_id v)" if "v \<in> set (pr_variants ?p)" for v
        using that ok1 by (auto simp: cat_ok_def variant_row_ok_def rows_of_def)
      then show ?thesis using canonical_nonempty env unfolding cat_env_ok_def by blast
    qed
    from ch m(3) ids sound_loaded(1,2) [OF ok1 m(1), of "ce_J E"] have "edits ?p q" "sound_product q"
      unfolding proper_def by blast+
    from written_good [OF env ok1 m(1) refl m(5,4) this(2,1) m(6,7,9,8,11,12,13)] m(10,14,15) moved(2,3) run
    show ?thesis by simp
  qed
qed

lemma cat_mutate_good:
  assumes "cat_env_ok E" and "cat_ok E (w_db s)" and "\<not> w_tx s" and "proper (ce_U E) change"
  shows "cat_good E (w_db s) (w_db (snd (cat_mutate E i change s)))"
proof (cases "ParseProductID (ce_U E) i")
  case (Inl e)
  then show ?thesis using assms by (simp add: cat_mutate_def runs cat_good_refl)
next
  case (Inr k)
  then show ?thesis using Do_mutate_good [OF assms] by (simp add: cat_mutate_def runs)
qed

lemma cat_create_good:
  assumes env: "cat_env_ok E" and ok: "cat_ok E (w_db s)" and tx: "\<not> w_tx s"
    and new: "cat_minted (ce_U E) (CatCreate new_id mint cmd)"
  shows "cat_good E (w_db s) (w_db (snd (cat_CreateProduct E new_id mint cmd s)))"
proof (cases "\<exists>category p0 p. NewCategory (cp_Category cmd) = Inr category \<and>
    NewProduct new_id (cp_Name cmd) (cp_Description cmd) category = Inr p0 \<and> add_variants mint 0 (cp_Variants cmd) p0 = Inr p")
  case False
  then show ?thesis using ok by (auto simp: cat_CreateProduct_def runs cat_good_refl split: sum.splits)
next
  case True
  then obtain category p0 p where p: "NewCategory (cp_Category cmd) = Inr category"
      "NewProduct new_id (cp_Name cmd) (cp_Description cmd) category = Inr p0"
      "add_variants mint 0 (cp_Variants cmd) p0 = Inr p" by blast
  have p0: "pr_id p0 = new_id" "pr_variants p0 = []" "pr_status p0 = StatusDraft" "sound_product p0"
    using p(2) by (auto simp: NewProduct_def sound_product_def split: sum.splits)
  have "uuid_ok (ce_U E)" using env by (simp add: cat_env_ok_def)
  with add_variants_Inr [OF p(3), of "ce_U E"] new p0
  have a: "pr_id p = new_id" "pr_status p = StatusDraft" "sound_product p"
    "\<forall>v \<in> set (pr_variants p). new_unit p v \<and> canonical (ce_U E) (va_id v) \<and> plain v"
    by (auto simp: new_unit_def)
  have c: "canonical (ce_U E) (pr_id p)" using new a(1) by simp
  have n: "\<forall>v \<in> set (pr_variants p). va_productID v = pr_id p \<and> canonical (ce_U E) (va_id v)"
    using a(4) by (simp add: new_unit_def)
  obtain res s' where run: "Do (products_Create E p) s = (res, s')" by (cases "Do (products_Create E p) s")
  then have "w_db (snd (cat_CreateProduct E new_id mint cmd s)) = w_db s'"
    using p by (simp add: cat_CreateProduct_def runs)
  moreover from run tx have "cat_good E (w_db s) (w_db s')"
  proof (cases rule: Do_effect)
    case unmoved
    with ok show ?thesis by (simp add: cat_good_refl)
  next
    case (moved x s1 s2)
    note w = products_Create_Inr [OF moved(1) c n, unfolded moved(2)]
    have dis: "distinct (map vw_ID (variants (w_db s2)))" "distinct (map vw_Sku (variants (w_db s2)))"
      using w(5,6) ok by (simp_all add: cat_ok_def)
    from created_good [OF env ok c w(2) a(4) w(4,3) a(3,2)] dis w(1) moved(3) show ?thesis by simp
  qed
  ultimately show ?thesis by simp
qed

lemma read_only_run: "read_only m \<Longrightarrow> w_db (snd (m s)) = w_db s"
  by (cases "m s") (simp add: read_onlyD)

lemma cat_exec_good:
  assumes env: "cat_env_ok E" and ok: "cat_ok E (w_db s)" and tx: "\<not> w_tx s" and new: "cat_minted (ce_U E) req"
  shows "cat_good E (w_db s) (w_db (cat_exec E T req s))"
proof -
  note mut = cat_mutate_good [OF env ok tx]
  note same = cat_good_refl [OF ok]
  show ?thesis
  proof (cases req)
    case (CatCreate new_id mint cmd)
    with cat_create_good [OF env ok tx] new show ?thesis by simp
  next
    case (CatUpdate cmd)
    then show ?thesis using mut proper_changes(1) same
      by (cases "NewCategory (up_Category cmd)") (simp_all add: cat_UpdateProduct_def runs)
  next
    case (CatAdd new_id cmd)
    with new have "proper (ce_U E) (AddVariant new_id sku price (nv_Attributes (av_Variant cmd)))" for sku price
      by (intro proper_changes(2)) simp_all
    with CatAdd mut same show ?thesis
      by (cases "newVariant (av_Variant cmd)") (auto simp: cat_AddVariant_def runs)
  next
    case (CatReprice cmd)
    with new have "proper (ce_U E) (cat_UpdateVariant i price (uv_Attributes cmd))" for i price
      by (intro proper_changes(3)) simp
    with CatReprice mut same show ?thesis
      by (cases "ParseVariantID (ce_U E) (uv_VariantID cmd)"; cases "cat_newMoney (uv_PriceAmountMinor cmd) (uv_PriceCurrency cmd)")
        (simp_all add: cat_RepriceVariant_def runs)
  next
    case (CatPublish i)
    then show ?thesis using mut [OF proper_changes(4)] by (simp add: cat_PublishProduct_def)
  next
    case (CatArchive i)
    then show ?thesis using mut [OF proper_changes(5)] by (simp add: cat_ArchiveProduct_def)
  next
    case (CatGet query)
    have "w_db (snd (cat_GetProduct E query s)) = w_db s" by (rule read_only_run [OF cat_reads_only(1)])
    with CatGet same show ?thesis by simp
  next
    case (CatGetMany ids)
    have "w_db (snd (cat_GetProductsByIDs E ids s)) = w_db s" by (rule read_only_run [OF cat_reads_only(2)])
    with CatGetMany same show ?thesis by simp
  next
    case (CatVariants skus)
    have "w_db (snd (cat_GetVariantsBySKUs E skus s)) = w_db s" by (rule read_only_run [OF cat_reads_only(3)])
    with CatVariants same show ?thesis by simp
  next
    case (CatList query)
    have "w_db (snd (cat_ListProducts E T query s)) = w_db s" by (rule read_only_run [OF cat_reads_only(4)])
    with CatList same show ?thesis by simp
  qed
qed

lemma cat_exec_tx: "w_tx (cat_exec E T req s) = w_tx s"
  by (cases req)
    (auto intro!: keeps_txD keeps simp: cat_UpdateProduct_def cat_AddVariant_def cat_RepriceVariant_def
      cat_PublishProduct_def cat_ArchiveProduct_def)

text \<open>Requests that follow each other, each with what the database's clock says at its time.\<close>

definition cat_at :: "cat_env \<Rightarrow> time_text \<Rightarrow> gotime \<times> cat_req \<Rightarrow> (cat_db, 'w) world \<Rightarrow> (cat_db, 'w) world" where
  "cat_at E T step s = cat_exec E T (snd step) (s\<lparr>w_db := (w_db s)\<lparr>db_now := pg_time (fst step)\<rparr>\<rparr>)"

definition cat_step_ok :: "uuid_lib \<Rightarrow> gotime \<times> cat_req \<Rightarrow> bool" where
  "cat_step_ok U step \<longleftrightarrow> pg_time (fst step) \<noteq> zero_time \<and> cat_minted U (snd step)"

lemma cat_ok_now:
  assumes "cat_ok E db" and "pg_time t \<noteq> zero_time"
  shows "cat_good E db (db\<lparr>db_now := pg_time t\<rparr>)"
proof -
  have "product_row_ok E (db\<lparr>db_now := pg_time t\<rparr>) = product_row_ok E db" "variant_row_ok E (db\<lparr>db_now := pg_time t\<rparr>) = variant_row_ok E db"
    by (auto simp: fun_eq_iff product_row_ok_def variant_row_ok_def rows_of_def)
  moreover have "cat_evolves db (db\<lparr>db_now := pg_time t\<rparr>)"
    by (auto simp: cat_evolves_def product_moves_def unit_moves_def rows_of_def)
  ultimately show ?thesis using assms by (simp add: cat_good_def cat_ok_def)
qed

lemma cat_at_good:
  assumes env: "cat_env_ok E" and ok: "cat_ok E (w_db s)" and tx: "\<not> w_tx s" and step: "cat_step_ok (ce_U E) step"
  shows "cat_good E (w_db s) (w_db (cat_at E T step s))" "\<not> w_tx (cat_at E T step s)"
proof -
  let ?s = "s\<lparr>w_db := (w_db s)\<lparr>db_now := pg_time (fst step)\<rparr>\<rparr>"
  have now: "cat_good E (w_db s) (w_db ?s)" using cat_ok_now [OF ok] step by (simp add: cat_step_ok_def)
  with cat_exec_good [OF env, of ?s "snd step" T] tx step
  show "cat_good E (w_db s) (w_db (cat_at E T step s))"
    unfolding cat_at_def cat_good_def [of E _ "w_db ?s"] cat_step_ok_def
    by (auto intro: cat_good_trans [OF now])
  show "\<not> w_tx (cat_at E T step s)" using tx by (simp add: cat_at_def cat_exec_tx)
qed

lemma cat_history_good:
  assumes env: "cat_env_ok E"
  shows "cat_ok E (w_db s) \<Longrightarrow> \<not> w_tx s \<Longrightarrow> \<forall>step \<in> set steps. cat_step_ok (ce_U E) step \<Longrightarrow>
    cat_good E (w_db s) (w_db (fold (cat_at E T) steps s)) \<and> \<not> w_tx (fold (cat_at E T) steps s)"
proof (induction steps arbitrary: s)
  case Nil
  then show ?case by (simp add: cat_good_refl)
next
  case (Cons step steps)
  note one = cat_at_good [OF env Cons.prems(1,2), of step T]
  from Cons.prems(3) have st: "cat_step_ok (ce_U E) step" by simp
  from one(1) [OF st] have "cat_ok E (w_db (cat_at E T step s))" by (simp add: cat_good_def)
  from Cons.IH [OF this one(2) [OF st]] Cons.prems(3) cat_good_trans [OF one(1) [OF st]] show ?case by simp
qed

end
