(* ===== verification/CatSpec.thy ===== *)
theory CatSpec
  imports CatRuns
begin

text \<open>
  The catalogue as a reader of the storefront thinks of it: a map from product ids to entries, each
  with a map from variant ids to what is sold. The five changes are stated on entries; the
  aggregate implements them, and the tables implement the map.
\<close>

subsection \<open>Entries\<close>

type_synonym unit_view = "gostring \<times> Money \<times> (gostring \<rightharpoonup> gostring)"

record entry =
  en_name :: gostring
  en_description :: gostring
  en_category :: gostring
  en_status :: ProductStatus
  en_units :: "gostring \<rightharpoonup> unit_view"

definition priced_in :: "gostring \<Rightarrow> (gostring \<rightharpoonup> unit_view) \<Rightarrow> bool" where
  "priced_in cur units \<longleftrightarrow> (\<forall>u \<in> ran units. currency (fst (snd u)) = cur)"

definition spec_details :: "gostring \<Rightarrow> gostring \<Rightarrow> gostring \<Rightarrow> entry \<Rightarrow> entry option" where
  "spec_details name description category e =
     (if en_status e = StatusArchived then None
      else Some (e\<lparr>en_name := name, en_description := description, en_category := category\<rparr>))"

definition spec_add ::
  "gostring \<Rightarrow> gostring \<Rightarrow> Money \<Rightarrow> (gostring \<rightharpoonup> gostring) \<Rightarrow> entry \<Rightarrow> entry option" where
  "spec_add i sku price attrs e =
     (if en_status e = StatusArchived \<or> sku \<in> fst ` ran (en_units e) \<or> \<not> priced_in (currency price) (en_units e)
      then None
      else Some (e\<lparr>en_units := (en_units e)(i \<mapsto> (sku, price, attrs))\<rparr>))"

definition spec_reprice :: "gostring \<Rightarrow> Money \<Rightarrow> (gostring \<rightharpoonup> gostring) \<Rightarrow> entry \<Rightarrow> entry option" where
  "spec_reprice i price attrs e =
     (case en_units e i of
        None \<Rightarrow> None
      | Some u \<Rightarrow>
          if en_status e = StatusArchived \<or> \<not> priced_in (currency price) ((en_units e)(i := None)) then None
          else Some (e\<lparr>en_units := (en_units e)(i \<mapsto> (fst u, price, attrs))\<rparr>))"

definition spec_publish :: "entry \<Rightarrow> entry option" where
  "spec_publish e =
     (if en_status e = StatusArchived \<or> en_units e = Map.empty then None else Some (e\<lparr>en_status := StatusActive\<rparr>))"

definition spec_archive :: "entry \<Rightarrow> entry option" where
  "spec_archive e = Some (e\<lparr>en_status := StatusArchived\<rparr>)"

subsection \<open>The aggregate implements the entry\<close>

definition unit_of :: "Variant \<Rightarrow> unit_view" where
  "unit_of v = (va_sku v, va_price v, map_of (va_attributes v))"

definition units_of :: "Variant list \<Rightarrow> gostring \<rightharpoonup> unit_view" where
  "units_of vs = map_of (map (\<lambda>v. (va_id v, unit_of v)) vs)"

definition entry_of :: "Product \<Rightarrow> entry" where
  "entry_of p = \<lparr>en_name = pr_name p, en_description = pr_description p, en_category = pr_category p,
     en_status = pr_status p, en_units = units_of (pr_variants p)\<rparr>"

definition loads_well :: "Product \<Rightarrow> bool" where
  "loads_well p \<longleftrightarrow> distinct (map va_id (pr_variants p)) \<and> (\<forall>v \<in> set (pr_variants p). va_id v \<noteq> [])"

lemma ran_units: "distinct (map va_id vs) \<Longrightarrow> ran (units_of vs) = unit_of ` set vs"
  by (simp add: units_of_def ran_distinct comp_def image_image)

lemma units_append:
  "i \<notin> va_id ` set vs \<Longrightarrow> units_of (vs @ [v]) = (units_of vs)(va_id v \<mapsto> unit_of v)" if "va_id v = i"
  using that by (induction vs) (auto simp: units_of_def fun_eq_iff map_add_def split: option.splits)

lemma units_split:
  assumes "distinct (map va_id (a @ v # b))"
  shows "units_of (a @ v # b) = (units_of (a @ b))(va_id v \<mapsto> unit_of v)"
    "(units_of (a @ v # b))(va_id v := None) = units_of (a @ b)"
proof -
  have "va_id v \<notin> va_id ` set a" using assms by auto
  then show e: "units_of (a @ v # b) = (units_of (a @ b))(va_id v \<mapsto> unit_of v)"
    by (induction a) (auto simp: units_of_def fun_eq_iff)
  have "units_of (a @ b) (va_id v) = None"
    using assms by (auto simp: units_of_def map_of_eq_None_iff image_image)
  then show "(units_of (a @ v # b))(va_id v := None) = units_of (a @ b)"
    unfolding e by (simp add: fun_upd_idem)
qed

lemma priced_in_units:
  "distinct (map va_id vs) \<Longrightarrow> priced_in cur (units_of vs) \<longleftrightarrow> (\<forall>v \<in> set vs. currency (va_price v) = cur)"
  by (auto simp: priced_in_def ran_units unit_of_def)

text \<open>The five methods, refusals included: an accepted input is refused exactly when the entry
  refuses it.\<close>

lemma details_refines:
  assumes "validateName name0 = Inr name" and "validateDescription description0 = Inr description"
  shows "map_option entry_of (case UpdateDetails name0 description0 category p of Inl _ \<Rightarrow> None | Inr q \<Rightarrow> Some q) =
    spec_details name description category (entry_of p)"
  using assms by (simp add: UpdateDetails_def ensureWritable_def spec_details_def entry_of_def)

lemma add_refines:
  assumes "loads_well p" and "i \<notin> va_id ` set (pr_variants p)" and "sku \<noteq> []" and "\<not> money_IsZero price"
    and "newAttributes attrs = Inr attrs"
  shows "map_option entry_of (case AddVariant i sku price attrs p of Inl _ \<Rightarrow> None | Inr q \<Rightarrow> Some q) =
    spec_add i sku price (map_of attrs) (entry_of p)"
proof -
  have d: "distinct (map va_id (pr_variants p))" "\<forall>v \<in> set (pr_variants p). va_id v \<noteq> []"
    using assms(1) by (simp_all add: loads_well_def)
  have "sku \<in> fst ` ran (units_of (pr_variants p)) \<longleftrightarrow> list_ex (\<lambda>v. va_sku v = sku) (pr_variants p)"
    unfolding ran_units [OF d(1)] by (auto simp: unit_of_def list_ex_iff image_iff)
  moreover have "priced_in (currency price) (units_of (pr_variants p)) \<longleftrightarrow> ensureCurrency price [] p = Inr ()"
    using d by (auto simp: priced_in_units ensureCurrency_Inr)
  moreover have "ensureCurrency price [] p = Inl ErrCurrencyMismatch \<or> ensureCurrency price [] p = Inr ()"
    by (simp add: ensureCurrency_def)
  ultimately show ?thesis
    using assms(2-5) units_append [OF refl]
    by (auto simp: AddVariant_def ensureWritable_def spec_add_def entry_of_def unit_of_def)
qed

lemma reprice_refines:
  assumes "loads_well p" and "\<not> money_IsZero price" and "newAttributes attrs = Inr attrs"
  shows "map_option entry_of (case cat_UpdateVariant i price attrs p of Inl _ \<Rightarrow> None | Inr q \<Rightarrow> Some q) =
    spec_reprice i price (map_of attrs) (entry_of p)"
proof (cases "list_ex (\<lambda>v. va_id v = i) (pr_variants p)")
  case False
  then have "units_of (pr_variants p) i = None"
    by (auto simp: units_of_def map_of_eq_None_iff list_ex_iff)
  with False assms(2,3) show ?thesis
    by (simp add: cat_UpdateVariant_def ensureWritable_def spec_reprice_def entry_of_def)
next
  case True
  have d: "distinct (map va_id (pr_variants p))" using assms(1) by (simp add: loads_well_def)
  obtain a v b where s: "pr_variants p = a @ v # b" "va_id v = i"
      "reprice i price attrs (pr_variants p) = a @ v\<lparr>va_price := price, va_attributes := attrs\<rparr> # b"
    by (rule reprice_split [OF True, of price attrs]) (rule that; assumption)
  let ?v = "v\<lparr>va_price := price, va_attributes := attrs\<rparr>"
  have d': "distinct (map va_id (a @ v # b))" "distinct (map va_id (a @ ?v # b))" "distinct (map va_id (a @ b))"
    using d s(1) by auto
  note u = units_split [OF d'(1)] units_split(1) [OF d'(2)]
  have "i \<notin> va_id ` set (a @ b)" using d'(1) s(2) by auto
  then have "\<forall>w \<in> set (a @ b). va_id w \<noteq> i" by (metis imageI)
  then have "ensureCurrency price i p = Inr () \<longleftrightarrow> priced_in (currency price) (units_of (a @ b))"
    unfolding priced_in_units [OF d'(3)] ensureCurrency_Inr s(1) using s(2) by auto
  moreover have "ensureCurrency price i p = Inl ErrCurrencyMismatch \<or> ensureCurrency price i p = Inr ()"
    by (simp add: ensureCurrency_def)
  moreover have "unit_of ?v = (fst (unit_of v), price, map_of attrs)" by (simp add: unit_of_def)
  ultimately have c: "ensureCurrency price i p = (if priced_in (currency price) (units_of (a @ b)) then Inr () else Inl ErrCurrencyMismatch)"
    and w: "unit_of ?v = (fst (unit_of v), price, map_of attrs)" by auto
  have f: "units_of (pr_variants p) i = Some (unit_of v)" "(units_of (pr_variants p))(i := None) = units_of (a @ b)"
    "(units_of (pr_variants p))(i \<mapsto> x) = (units_of (a @ b))(i \<mapsto> x)"
    "units_of (reprice i price attrs (pr_variants p)) = (units_of (a @ b))(i \<mapsto> (fst (unit_of v), price, map_of attrs))" for x
    unfolding s(3) using u w s(2) by (simp_all add: s(1))
  show ?thesis
    using True assms(2,3) by (simp add: cat_UpdateVariant_def ensureWritable_def spec_reprice_def entry_of_def c f)
qed

lemma publish_refines:
  "map_option entry_of (case Publish p of Inl _ \<Rightarrow> None | Inr q \<Rightarrow> Some q) = spec_publish (entry_of p)"
proof -
  have "units_of (pr_variants p) = Map.empty \<longleftrightarrow> pr_variants p = []" by (simp add: units_of_def)
  then show ?thesis by (simp add: Publish_def ensureWritable_def spec_publish_def entry_of_def)
qed

lemma archive_refines: "Some (entry_of (Archive p)) = spec_archive (entry_of p)"
  by (simp add: Archive_def spec_archive_def entry_of_def)

subsection \<open>The tables implement the map\<close>

definition catalogue :: "attr_lib \<Rightarrow> cat_db \<Rightarrow> gostring \<rightharpoonup> entry" where
  "catalogue J db i =
     map_option (\<lambda>r. entry_of (load_product J db r)) (List.find (\<lambda>r. pw_ID r = i) (products db))"

lemma catalogue_row:
  assumes "cat_ok E db" and "r \<in> set (products db)"
  shows "catalogue J db (pw_ID r) = Some (entry_of (load_product J db r))"
  using find_distinct [of pw_ID "products db" r] assms by (simp add: cat_ok_def catalogue_def)

lemma units_eqI:
  assumes "distinct (map va_id vs)" and "distinct (map va_id ws)"
    and "(\<lambda>v. (va_id v, unit_of v)) ` set vs = (\<lambda>v. (va_id v, unit_of v)) ` set ws"
  shows "units_of vs = units_of ws"
  unfolding units_of_def
  using assms by (subst map_of_inject_set) (simp_all add: comp_def)

lemma load_units:
  "units_of (pr_variants (load_product J db r)) = units_of (map (toDomainVariant J) (rows_of db (pw_ID r)))"
  if "distinct (map vw_ID (rows_of db (pw_ID r)))"
  using that by (intro units_eqI) (simp_all add: comp_def image_image)

lemma kept_unit:
  assumes "cat_env_ok E" and "plain v" and "writable (ce_J E) v"
  shows "unit_of (toDomainVariant (ce_J E) (born (ce_J E) now v)) = unit_of v"
    "vw_Sku x = va_sku v \<Longrightarrow> unit_of (toDomainVariant (ce_J E) (repriced (ce_J E) now v x)) = unit_of v"
proof -
  have "map_of (unmarshalAttributes (ce_J E) (kept_attributes (ce_J E) v)) = map_of (va_attributes v)"
    using kept_plain(1) assms by (simp add: same_map_def cat_env_ok_def)
  moreover have "va_price (toDomainVariant (ce_J E) y) = va_price v"
    if "vw_PriceAmountMinor y = amountMinor (va_price v)" "vw_PriceCurrency y = currency (va_price v)" for y
    by (rule Money.equality) (simp_all add: that)
  ultimately show "unit_of (toDomainVariant (ce_J E) (born (ce_J E) now v)) = unit_of v"
    "vw_Sku x = va_sku v \<Longrightarrow> unit_of (toDomainVariant (ce_J E) (repriced (ce_J E) now v x)) = unit_of v"
    by (simp_all add: unit_of_def)
qed

text \<open>The unit of a row that was rewritten is the unit of the variant it was rewritten from.\<close>

lemma rewritten_units:
  assumes env: "cat_env_ok E" and ok: "cat_ok E db" and r: "r \<in> set (products db)"
    and olds: "list_all2 same_unit (pr_variants (load_product (ce_J E) db r)) olds"
    and wr: "\<forall>v \<in> set olds. plain v \<and> writable (ce_J E) v"
  shows "(\<lambda>x. (vw_ID x, unit_of (toDomainVariant (ce_J E) (rewritten (ce_J E) now olds x)))) ` set (rows_of db (pw_ID r)) =
    (\<lambda>v. (va_id v, unit_of v)) ` set olds"
proof -
  let ?J = "ce_J E" and ?rows = "rows_of db (pw_ID r)" and ?p = "load_product (ce_J E) db r"
  have dv: "distinct (map va_id (pr_variants ?p))" by (rule sound_loaded(2) [OF ok r])
  have key: "\<exists>w \<in> set olds. va_id w = vw_ID x \<and> va_sku w = vw_Sku x \<and> rewritten ?J now olds x = repriced ?J now w x"
    if x: "x \<in> set ?rows" for x
  proof -
    have "toDomainVariant ?J x \<in> set (pr_variants ?p)" using x by simp
    then obtain k where k: "k < length (pr_variants ?p)" "pr_variants ?p ! k = toDomainVariant ?J x"
      unfolding in_set_conv_nth by blast
    with olds have k': "k < length olds" "same_unit (toDomainVariant ?J x) (olds ! k)"
      unfolding list_all2_conv_all_nth by metis+
    have ids: "map va_id olds = map va_id (pr_variants ?p)" by (rule same_units_facts(1) [OF olds])
    with dv have d: "distinct (map va_id olds)" by simp
    have "List.find (\<lambda>w. va_id w = vw_ID x) olds = Some (olds ! k)"
      using find_distinct [OF d, of "olds ! k"] k' by (simp add: same_unit_def)
    then have "rewritten ?J now olds x = repriced ?J now (olds ! k) x" by (simp add: rewritten_def)
    moreover have "olds ! k \<in> set olds" using k'(1) by simp
    ultimately show ?thesis using k'(2) by (auto simp: same_unit_def)
  qed
  have val: "unit_of (toDomainVariant ?J (rewritten ?J now olds x)) = unit_of w"
    if xw: "x \<in> set ?rows" "w \<in> set olds" "va_id w = vw_ID x" for x w
  proof -
    obtain w' where w': "w' \<in> set olds" "va_id w' = vw_ID x" "va_sku w' = vw_Sku x" "rewritten ?J now olds x = repriced ?J now w' x"
      using key [OF xw(1)] by blast
    have "distinct (map va_id olds)" using dv same_units_facts(1) [OF olds] by simp
    from distinct_map_inj [OF this w'(1) xw(2)] w'(2) xw(3) have "w' = w" by simp
    then show ?thesis using kept_unit(2) [OF env, of w x now] wr w' xw(2) by simp
  qed
  have oids: "va_id ` set olds = vw_ID ` set ?rows"
  proof -
    have "va_id ` set olds = va_id ` set (pr_variants ?p)" using same_units_facts(1) [OF olds] by (metis list.set_map)
    then show ?thesis by (simp add: image_image)
  qed
  show ?thesis
  proof (intro equalityI subsetI)
    fix y assume "y \<in> (\<lambda>x. (vw_ID x, unit_of (toDomainVariant ?J (rewritten ?J now olds x)))) ` set ?rows"
    then obtain x where x: "x \<in> set ?rows" "y = (vw_ID x, unit_of (toDomainVariant ?J (rewritten ?J now olds x)))" by blast
    then have "vw_ID x \<in> va_id ` set olds" unfolding oids by blast
    then obtain w where w: "w \<in> set olds" "va_id w = vw_ID x" by auto
    with val [OF x(1) w] x(2) show "y \<in> (\<lambda>v. (va_id v, unit_of v)) ` set olds" by force
  next
    fix y assume "y \<in> (\<lambda>v. (va_id v, unit_of v)) ` set olds"
    then obtain w where w: "w \<in> set olds" "y = (va_id w, unit_of w)" by blast
    then have "va_id w \<in> vw_ID ` set ?rows" unfolding oids [symmetric] by blast
    then obtain x where x: "x \<in> set ?rows" "va_id w = vw_ID x" by auto
    with val [OF x(1) w(1)] w(2)
    show "y \<in> (\<lambda>x. (vw_ID x, unit_of (toDomainVariant ?J (rewritten ?J now olds x)))) ` set ?rows" by force
  qed
qed

lemma find_replaced:
  assumes "\<And>x. k (f x) = k x"
  shows "List.find (\<lambda>r. k r = i) (map f t) = map_option f (List.find (\<lambda>r. k r = i) t)"
  using assms by (induction t) auto

lemma catalogue_written:
  assumes env: "cat_env_ok E" and ok: "cat_ok E db" and r: "r \<in> set (products db)"
    and q: "pr_id q = pw_ID r" "pr_variants q = olds @ news"
    and ed: "edits (load_product (ce_J E) db r) q"
    and olds: "list_all2 same_unit (pr_variants (load_product (ce_J E) db r)) olds"
    and news: "\<forall>v \<in> set news. new_unit (load_product (ce_J E) db r) v"
    and wr: "\<forall>v \<in> set (olds @ news). plain v \<and> writable (ce_J E) v"
  defines "db' \<equiv> written (ce_J E) db q olds news"
  assumes good: "cat_good E db db'"
  shows "catalogue (ce_J E) db' = (catalogue (ce_J E) db)(pw_ID r \<mapsto> entry_of q)"
    "distinct (map va_id (pr_variants q))"
proof -
  let ?J = "ce_J E" and ?i = "pw_ID r" and ?now = "db_now db"
  have ok': "cat_ok E db'" using good by (simp add: cat_good_def)
  have newp: "\<forall>v \<in> set news. va_productID v = ?i" using news by (simp add: new_unit_def)
  note rows = stored_rows [OF newp, of ?J db q olds, folded db'_def]
  let ?upd = "\<lambda>x. if pw_ID x = ?i then revised ?now q x else x"
  have prods: "products db' = map ?upd (products db)" by (simp add: db'_def q(1))
  have find: "List.find (\<lambda>x. pw_ID x = k) (products db') = map_option ?upd (List.find (\<lambda>x. pw_ID x = k) (products db))" for k
    unfolding prods by (rule find_replaced) simp
  have r': "revised ?now q r \<in> set (products db')" using r by (auto simp: prods)
  have d: "distinct (map vw_ID (rows_of db' ?i))" using ok' by (simp add: cat_ok_def rows_of_def distinct_map_filter)
  have ids: "va_id ` set (olds @ news) = vw_ID ` set (rows_of db' ?i)"
  proof -
    have "va_id ` set olds = va_id ` set (pr_variants (load_product ?J db r))"
      using same_units_facts(1) [OF olds] by (metis list.set_map)
    then show ?thesis by (simp add: rows image_image image_Un)
  qed
  have "length (olds @ news) = length (rows_of db' ?i)"
    using list_all2_lengthD [OF olds] by (simp add: rows in_order_of_birth_def)
  moreover have "card (vw_ID ` set (rows_of db' ?i)) = length (rows_of db' ?i)"
    using distinct_card [OF d] by simp
  ultimately have "card (set (map va_id (olds @ news))) = length (map va_id (olds @ news))"
    using ids by (metis length_map list.set_map)
  then have dq: "distinct (map va_id (olds @ news))" by (rule card_distinct)
  then show "distinct (map va_id (pr_variants q))" by (simp add: q(2))
  have "(\<lambda>v. (va_id v, unit_of v)) ` set (map (toDomainVariant ?J) (rows_of db' ?i)) =
      (\<lambda>x. (vw_ID x, unit_of (toDomainVariant ?J (rewritten ?J ?now olds x)))) ` set (rows_of db ?i) \<union>
      (\<lambda>v. (va_id v, unit_of v)) ` set news"
    using kept_unit(1) [OF env] wr by (auto simp: rows image_image image_Un)
  also have "\<dots> = (\<lambda>v. (va_id v, unit_of v)) ` set (olds @ news)"
    using rewritten_units [OF env ok r olds] wr by (simp add: image_Un)
  finally have "units_of (map (toDomainVariant ?J) (rows_of db' ?i)) = units_of (olds @ news)"
    using d dq by (intro units_eqI) (simp_all add: comp_def)
  with load_units [of db' "revised ?now q r" ?J] d
  have units: "units_of (pr_variants (load_product ?J db' (revised ?now q r))) = units_of (pr_variants q)"
    by (simp add: q(2))
  have status: "ProductStatus_of (product_status_text (pr_status q)) = pr_status q"
  proof -
    from ed consider "pr_status q = ProductStatus_of (pw_Status r)" | "pr_status q = StatusArchived" | "pr_status q = StatusActive"
      unfolding edits_def further_def by auto
    then show ?thesis by cases (simp_all add: ProductStatus_of_def)
  qed
  have entry: "entry_of (load_product ?J db' (revised ?now q r)) = entry_of q"
    unfolding entry_of_def units using status by simp
  have others: "load_product ?J db' x = load_product ?J db x" if "pw_ID x \<noteq> ?i" "x \<in> set (products db)" for x
  proof -
    have "rewritten ?J ?now olds v = v" if v: "v \<in> set (rows_of db (pw_ID x))" for v
    proof -
      have "vw_ID v \<notin> va_id ` set olds"
      proof
        assume "vw_ID v \<in> va_id ` set olds"
        then have "vw_ID v \<in> va_id ` set (pr_variants (load_product ?J db r))"
          using same_units_facts(1) [OF olds] by (metis list.set_map)
        then obtain y where "y \<in> set (rows_of db ?i)" "vw_ID y = vw_ID v" by auto
        with distinct_map_inj [of vw_ID "variants db" y v] ok v \<open>pw_ID x \<noteq> ?i\<close> show False
          by (auto simp: rows_of_def cat_ok_def)
      qed
      with rewritten_cases [of ?J ?now olds v] show ?thesis by (metis imageI)
    qed
    then have "rows_of db' (pw_ID x) = rows_of db (pw_ID x)"
      using that(1) by (simp add: rows map_idI)
    then show ?thesis by (simp add: load_product_def)
  qed
  show "catalogue ?J db' = (catalogue ?J db)(?i \<mapsto> entry_of q)"
  proof (rule ext)
    fix k
    show "catalogue ?J db' k = ((catalogue ?J db)(?i \<mapsto> entry_of q)) k"
    proof (cases "k = ?i")
      case True
      with catalogue_row [OF ok' r'] entry show ?thesis by simp
    next
      case False
      show ?thesis
      proof (cases "List.find (\<lambda>x. pw_ID x = k) (products db)")
        case None
        with False show ?thesis by (simp add: catalogue_def find)
      next
        case (Some x)
        with find_key_Some [OF Some] False others [of x] show ?thesis by (simp add: catalogue_def find)
      qed
    qed
  qed
qed

lemma catalogue_created:
  assumes env: "cat_env_ok E" and ok: "cat_ok E db"
    and fresh: "pr_id p \<notin> pw_ID ` set (products db)"
    and news: "\<forall>v \<in> set (pr_variants p). new_unit p v \<and> plain v \<and> writable (ce_J E) v"
    and st: "pr_status p = StatusDraft"
  defines "db' \<equiv> created (ce_J E) db p"
  assumes good: "cat_good E db db'"
  shows "catalogue (ce_J E) db' = (catalogue (ce_J E) db)(pr_id p \<mapsto> entry_of p)"
    "distinct (map va_id (pr_variants p))"
proof -
  let ?J = "ce_J E" and ?now = "db_now db"
  let ?r = "fresh_row ?now p" and ?new = "map (born ?J ?now) (pr_variants p)"
  have ok': "cat_ok E db'" using good by (simp add: cat_good_def)
  have db': "products db' = products db @ [?r]" "variants db' = variants db @ ?new" by (simp_all add: db'_def created_def)
  have d: "distinct (map vw_ID (variants db'))" using ok' by (simp add: cat_ok_def)
  then show dp: "distinct (map va_id (pr_variants p))" by (simp add: db'(2) comp_def)
  have old: "vw_ProductID v \<noteq> pr_id p" if "v \<in> set (variants db)" for v
  proof -
    have "vw_ProductID v \<in> pw_ID ` set (products db)" using ok that by (simp add: cat_ok_def variant_row_ok_def)
    with fresh show ?thesis by metis
  qed
  have rows: "rows_of db' (pr_id p) = ?new" "k \<noteq> pr_id p \<Longrightarrow> rows_of db' k = rows_of db k" for k
    using old news by (auto simp: rows_of_def db'(2) new_unit_def filter_id_conv filter_empty_conv)
  have "(\<lambda>v. (va_id v, unit_of v)) ` set (map (toDomainVariant ?J) (rows_of db' (pr_id p))) =
      (\<lambda>v. (va_id v, unit_of v)) ` set (pr_variants p)"
    using kept_unit(1) [OF env] news by (auto simp: rows(1) image_image)
  then have "units_of (map (toDomainVariant ?J) (rows_of db' (pr_id p))) = units_of (pr_variants p)"
    using dp by (intro units_eqI) (simp_all add: rows(1) comp_def)
  moreover have "distinct (map vw_ID (rows_of db' (pw_ID ?r)))"
    using d by (simp add: rows_of_def distinct_map_filter)
  ultimately have units: "units_of (pr_variants (load_product ?J db' ?r)) = units_of (pr_variants p)"
    using load_units [of db' ?r ?J] by simp
  have entry: "entry_of (load_product ?J db' ?r) = entry_of p"
    unfolding entry_of_def units using st by (simp add: ProductStatus_of_def)
  have r': "?r \<in> set (products db')" by (simp add: db'(1))
  show "catalogue ?J db' = (catalogue ?J db)(pr_id p \<mapsto> entry_of p)"
  proof (rule ext)
    fix k
    show "catalogue ?J db' k = ((catalogue ?J db)(pr_id p \<mapsto> entry_of p)) k"
    proof (cases "k = pr_id p")
      case True
      with catalogue_row [OF ok' r', of ?J] entry show ?thesis by simp
    next
      case False
      have f: "List.find (\<lambda>x. pw_ID x = k) (products db') = List.find (\<lambda>x. pw_ID x = k) (products db)"
      proof (cases "List.find (\<lambda>x. pw_ID x = k) (products db)")
        case None
        then have "\<forall>x \<in> set (products db'). pw_ID x \<noteq> k" using False by (auto simp: find_None db'(1))
        then have "List.find (\<lambda>x. pw_ID x = k) (products db') = None" unfolding find_None .
        with None show ?thesis by simp
      next
        case (Some x)
        from find_key_Some [OF Some] have x: "x \<in> set (products db')" "pw_ID x = k" by (simp_all add: db'(1))
        from ok' have dd: "distinct (map pw_ID (products db'))" unfolding cat_ok_def by blast
        from find_distinct [OF dd x(1)] x(2) Some show ?thesis by simp
      qed
      show ?thesis
      proof (cases "List.find (\<lambda>x. pw_ID x = k) (products db)")
        case None
        with False f show ?thesis by (simp add: catalogue_def)
      next
        case (Some x)
        with find_key_Some [OF Some] False rows(2) [of k] f show ?thesis by (simp add: catalogue_def load_product_def)
      qed
    qed
  qed
qed

subsection \<open>One request, on the map\<close>

fun spec_adds :: "(nat \<Rightarrow> gostring) \<Rightarrow> nat \<Rightarrow> NewVariant list \<Rightarrow> entry \<Rightarrow> entry option" where
  "spec_adds mint n [] e = Some e"
| "spec_adds mint n (v # vs) e =
     (case newVariant v of
        Inl _ \<Rightarrow> None
      | Inr (sku, price) \<Rightarrow>
          Option.bind (spec_add (mint n) sku price (map_of (nv_Attributes v)) e) (spec_adds mint (Suc n) vs))"

definition spec_at ::
  "uuid_lib \<Rightarrow> gostring \<Rightarrow> (entry \<Rightarrow> entry option) \<Rightarrow> (gostring \<rightharpoonup> entry) \<Rightarrow> (gostring \<rightharpoonup> entry) option" where
  "spec_at U i f c =
     (case ParseProductID U i of
        Inl _ \<Rightarrow> None
      | Inr k \<Rightarrow>
          (case uuid_Parse U k of
             Inl _ \<Rightarrow> None
           | Inr u \<Rightarrow> Option.bind (c u) (\<lambda>e. map_option (\<lambda>e'. c(u \<mapsto> e')) (f e))))"

text \<open>The step a request stands for; \<open>None\<close> when the catalogue refuses it.\<close>

fun spec_step :: "uuid_lib \<Rightarrow> cat_req \<Rightarrow> (gostring \<rightharpoonup> entry) \<Rightarrow> (gostring \<rightharpoonup> entry) option" where
  "spec_step U (CatCreate new_id mint cmd) c =
     (case (NewCategory (cp_Category cmd), validateName (cp_Name cmd), validateDescription (cp_Description cmd)) of
        (Inr category, Inr name, Inr description) \<Rightarrow>
          if new_id \<in> dom c then None
          else map_option (\<lambda>e. c(new_id \<mapsto> e)) (spec_adds mint 0 (cp_Variants cmd)
                 \<lparr>en_name = name, en_description = description, en_category = category, en_status = StatusDraft,
                  en_units = Map.empty\<rparr>)
      | _ \<Rightarrow> None)"
| "spec_step U (CatUpdate cmd) c =
     (case (NewCategory (up_Category cmd), validateName (up_Name cmd), validateDescription (up_Description cmd)) of
        (Inr category, Inr name, Inr description) \<Rightarrow>
          spec_at U (up_ProductID cmd) (spec_details name description category) c
      | _ \<Rightarrow> None)"
| "spec_step U (CatAdd new_id cmd) c =
     (case newVariant (av_Variant cmd) of
        Inl _ \<Rightarrow> None
      | Inr (sku, price) \<Rightarrow>
          spec_at U (av_ProductID cmd) (spec_add new_id sku price (map_of (nv_Attributes (av_Variant cmd)))) c)"
| "spec_step U (CatReprice cmd) c =
     (case (ParseVariantID U (uv_VariantID cmd), cat_newMoney (uv_PriceAmountMinor cmd) (uv_PriceCurrency cmd)) of
        (Inr i, Inr price) \<Rightarrow> spec_at U (uv_ProductID cmd) (spec_reprice i price (map_of (uv_Attributes cmd))) c
      | _ \<Rightarrow> None)"
| "spec_step U (CatPublish i) c = spec_at U i spec_publish c"
| "spec_step U (CatArchive i) c = spec_at U i spec_archive c"
| "spec_step U _ c = Some c"

text \<open>Whether a request was answered without an error.\<close>

fun cat_accepted :: "cat_env \<Rightarrow> time_text \<Rightarrow> cat_req \<Rightarrow> (cat_db, 'w) world \<Rightarrow> bool" where
  "cat_accepted E T (CatCreate new_id mint cmd) s = (\<not> isl (fst (cat_CreateProduct E new_id mint cmd s)))"
| "cat_accepted E T (CatUpdate cmd) s = (\<not> isl (fst (cat_UpdateProduct E cmd s)))"
| "cat_accepted E T (CatAdd new_id cmd) s = (\<not> isl (fst (cat_AddVariant E new_id cmd s)))"
| "cat_accepted E T (CatReprice cmd) s = (\<not> isl (fst (cat_RepriceVariant E cmd s)))"
| "cat_accepted E T (CatPublish i) s = (\<not> isl (fst (cat_PublishProduct E i s)))"
| "cat_accepted E T (CatArchive i) s = (\<not> isl (fst (cat_ArchiveProduct E i s)))"
| "cat_accepted E T (CatGet query) s = (\<not> isl (fst (cat_GetProduct E query s)))"
| "cat_accepted E T (CatGetMany ids) s = (\<not> isl (fst (cat_GetProductsByIDs E ids s)))"
| "cat_accepted E T (CatVariants skus) s = (\<not> isl (fst (cat_GetVariantsBySKUs E skus s)))"
| "cat_accepted E T (CatList query) s = (\<not> isl (fst (cat_ListProducts E T query s)))"

lemma adds_refines:
  "add_variants mint n vs p = Inr q \<Longrightarrow> (\<And>k. mint k \<noteq> []) \<Longrightarrow> \<forall>v \<in> set (pr_variants p). va_id v \<noteq> [] \<Longrightarrow>
   distinct (map va_id (pr_variants q)) \<Longrightarrow> spec_adds mint n vs (entry_of p) = Some (entry_of q) \<and>
   (\<exists>more'. pr_variants q = pr_variants p @ more')"
proof (induction vs arbitrary: n p)
  case (Cons v vs)
  from Cons.prems(1) obtain sku price p' where a: "newVariant v = Inr (sku, price)"
      "AddVariant (mint n) sku price (nv_Attributes v) p = Inr p'" "add_variants mint (Suc n) vs p' = Inr q"
    by (auto split: sum.splits prod.splits)
  note p' = AddVariant_Inr [OF a(2)]
  have ids: "\<forall>v \<in> set (pr_variants p'). va_id v \<noteq> []" using Cons.prems(2,3) p'(7) by simp
  from Cons.IH [OF a(3) Cons.prems(2) ids Cons.prems(4)] obtain more'
    where IH: "spec_adds mint (Suc n) vs (entry_of p') = Some (entry_of q)" "pr_variants q = pr_variants p' @ more'" by blast
  have "distinct (map va_id (pr_variants p'))" using Cons.prems(4) IH(2) by simp
  then have "loads_well p" "mint n \<notin> va_id ` set (pr_variants p)"
    using Cons.prems(3) p'(7) by (simp_all add: loads_well_def)
  from add_refines [OF this p'(2,3,4)] a(2)
  have "spec_add (mint n) sku price (map_of (nv_Attributes v)) (entry_of p) = Some (entry_of p')" by simp
  with a(1) IH p'(7) show ?case by simp
qed simp

definition follows :: "attr_lib \<Rightarrow> ((gostring \<rightharpoonup> entry) \<Rightarrow> (gostring \<rightharpoonup> entry) option) \<Rightarrow> cat_db \<Rightarrow> bool \<Rightarrow> cat_db \<Rightarrow> bool" where
  "follows J f db accepted db' \<longleftrightarrow>
     (catalogue J db' = catalogue J db \<or> f (catalogue J db) = Some (catalogue J db')) \<and>
     (accepted \<longrightarrow> f (catalogue J db) = Some (catalogue J db'))"

lemma follows_unmoved: "follows J f db False db"
  by (simp add: follows_def)

lemma follows_step: "f (catalogue J db) = Some (catalogue J db') \<Longrightarrow> follows J f db accepted db'"
  by (simp add: follows_def)

lemma mutate_follows:
  assumes env: "cat_env_ok E" and ok: "cat_ok E (w_db s)" and tx: "\<not> w_tx s" and ch: "proper (ce_U E) change"
    and sim: "\<And>p q. loads_well p \<Longrightarrow> change p = Inr q \<Longrightarrow> distinct (map va_id (pr_variants q)) \<Longrightarrow>
      f (entry_of p) = Some (entry_of q)"
  shows "follows (ce_J E) (spec_at (ce_U E) i f) (w_db s) (\<not> isl (fst (cat_mutate E i change s)))
     (w_db (snd (cat_mutate E i change s)))"
proof (cases "ParseProductID (ce_U E) i")
  case (Inl e)
  then show ?thesis by (simp add: cat_mutate_def runs follows_unmoved)
next
  case (Inr k)
  let ?J = "ce_J E" and ?U = "ce_U E"
  obtain res s' where run: "Do (mutate_tx E k change) s = (res, s')" by (cases "Do (mutate_tx E k change) s")
  then have m: "cat_mutate E i change s = (res, s')" using Inr by (simp add: cat_mutate_def runs)
  from run tx show ?thesis
  proof (cases rule: Do_effect)
    case unmoved
    with m show ?thesis by (simp add: follows_unmoved)
  next
    case (moved x s1 s2)
    have ok1: "cat_ok E (w_db s1)" using ok moved(2) by simp
    obtain r q olds news where t: "r \<in> set (products (w_db s1))" "uuid_Parse ?U k = Inr (pw_ID r)"
      "change (load_product ?J (w_db s1) r) = Inr q" "pr_variants q = olds @ news" "pr_id q = pw_ID r"
      "list_all2 same_unit (pr_variants (load_product ?J (w_db s1) r)) olds"
      "\<forall>v \<in> set news. new_unit (load_product ?J (w_db s1) r) v \<and> canonical ?U (va_id v)"
      "\<forall>v \<in> set (olds @ news). plain v \<and> writable ?J v"
      "\<forall>v \<in> set news. ToUpper (va_sku v) = va_sku v"
      "w_db s2 = written ?J (w_db s1) q olds news"
      by (rule mutate_tx_Inr [OF env ok1 ch moved(1)]) (rule that; assumption)
    let ?p = "load_product ?J (w_db s1) r"
    from Do_mutate_good [OF env ok tx ch, of k] run moved(2,3) t(10)
    have good: "cat_good E (w_db s1) (written ?J (w_db s1) q olds news)" by simp
    from ch t(3) have ed: "edits ?p q" unfolding proper_def by blast
    have n: "\<forall>v \<in> set news. new_unit ?p v" using t(7) by blast
    note c = catalogue_written [OF env ok1 t(1,5,4) ed t(6) n t(8) good]
    have "canonical ?U (va_id v)" if "v \<in> set (pr_variants ?p)" for v
      using that ok1 by (auto simp: cat_ok_def variant_row_ok_def rows_of_def)
    then have "\<forall>v \<in> set (pr_variants ?p). va_id v \<noteq> []"
      using canonical_nonempty env unfolding cat_env_ok_def by blast
    with sound_loaded(2) [OF ok1 t(1)] have "loads_well ?p" by (simp add: loads_well_def)
    from sim [OF this t(3) c(2)] catalogue_row [OF ok1 t(1), of ?J] c(1) t(2,10) Inr moved(2,3)
    have "spec_at ?U i f (catalogue ?J (w_db s)) = Some (catalogue ?J (w_db s'))"
      by (simp add: spec_at_def)
    then show ?thesis using m by (simp add: follows_step)
  qed
qed

lemma create_follows:
  assumes env: "cat_env_ok E" and ok: "cat_ok E (w_db s)" and tx: "\<not> w_tx s"
    and new: "cat_minted (ce_U E) (CatCreate new_id mint cmd)"
  shows "follows (ce_J E) (spec_step (ce_U E) (CatCreate new_id mint cmd)) (w_db s)
     (\<not> isl (fst (cat_CreateProduct E new_id mint cmd s))) (w_db (snd (cat_CreateProduct E new_id mint cmd s)))"
proof (cases "\<exists>category p0 p. NewCategory (cp_Category cmd) = Inr category \<and>
    NewProduct new_id (cp_Name cmd) (cp_Description cmd) category = Inr p0 \<and> add_variants mint 0 (cp_Variants cmd) p0 = Inr p")
  case False
  then have "\<exists>e. cat_CreateProduct E new_id mint cmd s = (Inl e, s)"
    by (auto simp: cat_CreateProduct_def runs split: sum.splits)
  then show ?thesis by (auto simp: follows_def)
next
  case True
  let ?J = "ce_J E" and ?U = "ce_U E"
  from True obtain category p0 p where p: "NewCategory (cp_Category cmd) = Inr category"
      "NewProduct new_id (cp_Name cmd) (cp_Description cmd) category = Inr p0"
      "add_variants mint 0 (cp_Variants cmd) p0 = Inr p" by blast
  then obtain name description where v: "validateName (cp_Name cmd) = Inr name"
      "validateDescription (cp_Description cmd) = Inr description"
      "p0 = \<lparr>pr_id = new_id, pr_name = name, pr_description = description, pr_category = category,
        pr_status = StatusDraft, pr_variants = [], pr_createdAt = zero_time, pr_updatedAt = zero_time, pr_version = 1\<rparr>"
    by (auto simp: NewProduct_def split: sum.splits)
  have U: "uuid_ok ?U" using env by (simp add: cat_env_ok_def)
  have s0: "sound_product p0" by (simp add: v(3) sound_product_def)
  from add_variants_Inr [OF p(3), of ?U] new U s0 v(3)
  have a: "pr_id p = new_id" "pr_status p = StatusDraft" "sound_product p"
    "\<forall>v \<in> set (pr_variants p). new_unit p v \<and> canonical ?U (va_id v) \<and> plain v"
    by (auto simp: new_unit_def)
  have c: "canonical ?U (pr_id p)" using new a(1) by simp
  have n: "\<forall>v \<in> set (pr_variants p). va_productID v = pr_id p \<and> canonical ?U (va_id v)"
    using a(4) by (simp add: new_unit_def)
  obtain res s' where run: "Do (products_Create E p) s = (res, s')" by (cases "Do (products_Create E p) s")
  then have m: "cat_CreateProduct E new_id mint cmd s = (res, s')"
    using p by (simp add: cat_CreateProduct_def runs)
  from run tx show ?thesis
  proof (cases rule: Do_effect)
    case unmoved
    with m show ?thesis by (simp add: follows_unmoved del: spec_step.simps)
  next
    case (moved x s1 s2)
    note w = products_Create_Inr [OF moved(1) c n, unfolded moved(2)]
    have good: "cat_good E (w_db s) (created ?J (w_db s) p)"
      using cat_create_good [OF env ok tx new] m moved(3) w(1) by simp
    have wr: "\<forall>v \<in> set (pr_variants p). new_unit p v \<and> plain v \<and> writable ?J v" using a(4) w(4) by blast
    note cc = catalogue_created [OF env ok w(2) wr a(2) good]
    have "mint k \<noteq> []" for k using canonical_nonempty [OF U] new by simp
    from adds_refines [OF p(3) this _ cc(2)] v(3)
    have sp: "spec_adds mint 0 (cp_Variants cmd) (entry_of p0) = Some (entry_of p)" by simp
    have e0: "entry_of p0 = \<lparr>en_name = name, en_description = description, en_category = category,
        en_status = StatusDraft, en_units = Map.empty\<rparr>" by (simp add: v(3) entry_of_def units_of_def)
    have "new_id \<notin> dom (catalogue ?J (w_db s))"
    proof
      assume "new_id \<in> dom (catalogue ?J (w_db s))"
      then obtain r where "List.find (\<lambda>r. pw_ID r = new_id) (products (w_db s)) = Some r"
        by (auto simp: catalogue_def)
      from find_key_Some [OF this] w(2) a(1) show False by (metis imageI)
    qed
    then have "spec_step ?U (CatCreate new_id mint cmd) (catalogue ?J (w_db s)) = Some (catalogue ?J (w_db s'))"
      using p(1) v(1,2) sp e0 cc(1) a(1) moved(3) w(1) by simp
    then show ?thesis using m by (simp add: follows_step del: spec_step.simps)
  qed
qed

text \<open>What each accepted change does to the entry.\<close>

lemma changes_simulate:
  "UpdateDetails n0 d0 category p = Inr q \<Longrightarrow> validateName n0 = Inr name \<Longrightarrow> validateDescription d0 = Inr description \<Longrightarrow>
     spec_details name description category (entry_of p) = Some (entry_of q)"
  "loads_well p \<Longrightarrow> AddVariant i sku price attrs p = Inr q \<Longrightarrow> distinct (map va_id (pr_variants q)) \<Longrightarrow>
     spec_add i sku price (map_of attrs) (entry_of p) = Some (entry_of q)"
  "loads_well p \<Longrightarrow> cat_UpdateVariant i price attrs p = Inr q \<Longrightarrow>
     spec_reprice i price (map_of attrs) (entry_of p) = Some (entry_of q)"
  "Publish p = Inr q \<Longrightarrow> spec_publish (entry_of p) = Some (entry_of q)"
proof -
  show "UpdateDetails n0 d0 category p = Inr q \<Longrightarrow> validateName n0 = Inr name \<Longrightarrow> validateDescription d0 = Inr description \<Longrightarrow>
      spec_details name description category (entry_of p) = Some (entry_of q)"
    using details_refines [of n0 name d0 description category p] by simp
  show "Publish p = Inr q \<Longrightarrow> spec_publish (entry_of p) = Some (entry_of q)"
    using publish_refines [of p] by simp
  show "spec_reprice i price (map_of attrs) (entry_of p) = Some (entry_of q)"
    if "loads_well p" "cat_UpdateVariant i price attrs p = Inr q"
    using reprice_refines [OF that(1) cat_UpdateVariant_Inr(2,3) [OF that(2)], of i] that(2) by simp
  show "spec_add i sku price (map_of attrs) (entry_of p) = Some (entry_of q)"
    if a: "loads_well p" "AddVariant i sku price attrs p = Inr q" "distinct (map va_id (pr_variants q))"
  proof -
    note q = AddVariant_Inr [OF a(2)]
    have "i \<notin> va_id ` set (pr_variants p)" using a(3) q(7) by simp
    from add_refines [OF a(1) this q(2,3,4)] a(2) show ?thesis by simp
  qed
qed

lemma exec_follows:
  assumes env: "cat_env_ok E" and ok: "cat_ok E (w_db s)" and tx: "\<not> w_tx s" and new: "cat_minted (ce_U E) req"
  shows "follows (ce_J E) (spec_step (ce_U E) req) (w_db s) (cat_accepted E T req s) (w_db (cat_exec E T req s))"
proof -
  let ?U = "ce_U E"
  note mut = mutate_follows [OF env ok tx]
  show ?thesis
  proof (cases req)
    case (CatCreate new_id mint cmd)
    with create_follows [OF env ok tx] new show ?thesis by (simp del: spec_step.simps)
  next
    case (CatUpdate cmd)
    show ?thesis
    proof (cases "NewCategory (up_Category cmd)")
      case (Inl e)
      with CatUpdate show ?thesis by (simp add: cat_UpdateProduct_def runs follows_unmoved del: spec_step.simps)
    next
      case (Inr category)
      let ?f = "\<lambda>e. case (validateName (up_Name cmd), validateDescription (up_Description cmd)) of
          (Inr name, Inr description) \<Rightarrow> spec_details name description category e | _ \<Rightarrow> None"
      have "?f (entry_of p) = Some (entry_of q)" if "UpdateDetails (up_Name cmd) (up_Description cmd) category p = Inr q" for p q
        using UpdateDetails_Inr(2) [OF that] changes_simulate(1) [OF that] by auto
      from mut [OF proper_changes(1), where f = ?f, OF this]
      have "follows (ce_J E) (spec_at ?U (up_ProductID cmd) ?f) (w_db s) (cat_accepted E T req s) (w_db (cat_exec E T req s))"
        using CatUpdate Inr by (simp add: cat_UpdateProduct_def runs)
      moreover have "spec_at ?U (up_ProductID cmd) ?f c = Some c' \<Longrightarrow> spec_step ?U req c = Some c'" for c c'
        using CatUpdate Inr by (auto simp: spec_at_def split: sum.splits bind_splits)
      ultimately show ?thesis unfolding follows_def by blast
    qed
  next
    case (CatAdd new_id cmd)
    with new have ch: "proper ?U (AddVariant new_id sku price (nv_Attributes (av_Variant cmd)))" for sku price
      by (intro proper_changes(2)) simp_all
    show ?thesis
    proof (cases "newVariant (av_Variant cmd)")
      case (Inl e)
      with CatAdd show ?thesis by (simp add: cat_AddVariant_def runs follows_unmoved del: spec_step.simps)
    next
      case (Inr y)
      then obtain sku price where y: "newVariant (av_Variant cmd) = Inr (sku, price)" by (cases y) auto
      let ?attrs = "nv_Attributes (av_Variant cmd)"
      note mut [OF ch [of sku price], where f = "spec_add new_id sku price (map_of ?attrs)", OF changes_simulate(2)]
      with CatAdd y show ?thesis by (simp add: cat_AddVariant_def runs follows_def)
    qed
  next
    case (CatReprice cmd)
    with new have ch: "proper ?U (cat_UpdateVariant i price (uv_Attributes cmd))" for i price
      by (intro proper_changes(3)) simp
    show ?thesis
    proof (cases "\<exists>i price. ParseVariantID ?U (uv_VariantID cmd) = Inr i \<and>
        cat_newMoney (uv_PriceAmountMinor cmd) (uv_PriceCurrency cmd) = Inr price")
      case False
      then have "\<exists>e. cat_RepriceVariant E cmd s = (Inl e, s)"
        by (auto simp: cat_RepriceVariant_def runs split: sum.splits)
      with CatReprice show ?thesis by (auto simp: follows_def)
    next
      case True
      then obtain i price where y: "ParseVariantID ?U (uv_VariantID cmd) = Inr i"
          "cat_newMoney (uv_PriceAmountMinor cmd) (uv_PriceCurrency cmd) = Inr price" by blast
      let ?attrs = "uv_Attributes cmd"
      note mut [OF ch [of i price], where f = "spec_reprice i price (map_of ?attrs)", OF changes_simulate(3)]
      with CatReprice y show ?thesis by (simp add: cat_RepriceVariant_def runs follows_def)
    qed
  next
    case (CatPublish i)
    with mut [OF proper_changes(4), where f = spec_publish, OF changes_simulate(4)] show ?thesis by (simp add: cat_PublishProduct_def follows_def)
  next
    case (CatArchive i)
    have "spec_archive (entry_of p) = Some (entry_of q)" if "Inr (Archive p) = Inr q" for p q
      using that archive_refines by auto
    from mut [OF proper_changes(5), where f = spec_archive, OF this] CatArchive show ?thesis by (simp add: cat_ArchiveProduct_def follows_def)
  next
    case (CatGet query)
    have "w_db (snd (cat_GetProduct E query s)) = w_db s" by (rule read_only_run [OF cat_reads_only(1)])
    with CatGet show ?thesis by (simp add: follows_def)
  next
    case (CatGetMany ids)
    have "w_db (snd (cat_GetProductsByIDs E ids s)) = w_db s" by (rule read_only_run [OF cat_reads_only(2)])
    with CatGetMany show ?thesis by (simp add: follows_def)
  next
    case (CatVariants skus)
    have "w_db (snd (cat_GetVariantsBySKUs E skus s)) = w_db s" by (rule read_only_run [OF cat_reads_only(3)])
    with CatVariants show ?thesis by (simp add: follows_def)
  next
    case (CatList query)
    have "w_db (snd (cat_ListProducts E T query s)) = w_db s" by (rule read_only_run [OF cat_reads_only(4)])
    with CatList show ?thesis by (simp add: follows_def)
  qed
qed

end
