(* ===== verification/Spec2Isabelle.thy ===== *)
theory Spec2Isabelle
  imports OrdServer OrdCheckout Consumer PayClaims CatSpec
begin

text \<open>
  A verification library for an e-commerce system of five gRPC services and a web front over
  shared packages. Each service is a hexagon: a domain of aggregates with status machines, use
  cases over ports, and adapters for PostgreSQL, Kafka and gRPC.

  \<^bold>\<open>Foundations.\<close> \<open>Prelude\<close> (Go integers and strings, lists), \<open>Errorx\<close>
  (\<open>pkg/errorx\<close>: error values, kinds, reasons, gRPC and HTTP statuses), \<open>World\<close> (round
  trips with a schedule of faults, \<open>pkg/txmanager\<close>), \<open>Tables\<close> (what statements share),
  \<open>Lifecycle\<close> (the contract of an aggregate with a status).

  \<^bold>\<open>Inventory\<close> (\<open>services/inventory\<close>). \<open>InvDomain\<close>: identifiers, SKUs,
  quantities, the reservation aggregate. \<open>InvStore\<close>: the tables, one function per SQL
  statement, the repositories. \<open>InvApp\<close>: the use cases. \<open>InvBooks\<close> and
  \<open>InvProps\<close>: the books of the warehouse and what holds of the service under every fault.
  \<open>InvServer\<close>: the gRPC handlers and the reaper's loop.
\<close>

end
